theory Spec2Isabelle
  imports Complex_Main
begin

section \<open>The WebSocket relay of mini-services/websocket-service/index.ts\<close>

text \<open>
  The relay keeps three module-level maps (\<open>clients\<close>, \<open>workspaceClients\<close>,
  \<open>boardClients\<close>) and reacts to four events of the \<open>ws\<close> library on every accepted
  socket: connection, message, close and error. Each handler runs to completion, so each is
  a function from the state before to the state after. What the library and the runtime
  supply (the fresh uuid, \<open>Date.now()\<close>, the result of \<open>JSON.parse\<close>, the socket's
  \<open>readyState\<close>) is an input of the model.
\<close>

subsection \<open>JavaScript values\<close>

text \<open>
  The payload of a message is typed \<open>any\<close>, and \<open>message.payload.workspaceId\<close> is handed
  to the join handlers unchecked, so room ids and payloads are JavaScript values. Numbers
  are the finite ones, as rationals. Keys of a \<open>Map\<close> are compared by value, which is what
  JavaScript does for \<open>undefined\<close>, \<open>null\<close>, booleans, numbers and strings (arrays and
  objects are compared by reference there). An object is the list of its properties in
  insertion order, one entry for each key (JavaScript lists the keys that are array
  indices first; the order plays no part in the properties below).
\<close>

datatype jsval =
    JUndefined
  | JNull
  | JBool bool
  | JNum rat
  | JStr string
  | JArr "jsval list"
  | JObj "(string \<times> jsval) list"

text \<open>The test of \<open>if (v)\<close>: the falsy values are \<open>undefined\<close>, \<open>null\<close>, \<open>false\<close>,
  \<open>0\<close> and the empty string.\<close>

fun truthy :: "jsval \<Rightarrow> bool" where
  "truthy JUndefined = False"
| "truthy JNull = False"
| "truthy (JBool b) = b"
| "truthy (JNum n) = (n \<noteq> 0)"
| "truthy (JStr s) = (s \<noteq> [])"
| "truthy (JArr xs) = True"
| "truthy (JObj fs) = True"

datatype error = TypeError

text \<open>The property read \<open>v.k\<close>, for the keys the relay reads (\<open>type\<close>, \<open>payload\<close>,
  \<open>workspaceId\<close>, \<open>boardId\<close>): it throws on \<open>undefined\<close> and \<open>null\<close>, and a value
  without the property gives \<open>undefined\<close>.\<close>

fun get_prop :: "jsval \<Rightarrow> string \<Rightarrow> error + jsval" where
  "get_prop JUndefined k = Inl TypeError"
| "get_prop JNull k = Inl TypeError"
| "get_prop (JObj fs) k = Inr (case map_of fs k of Some v \<Rightarrow> v | None \<Rightarrow> JUndefined)"
| "get_prop v k = Inr JUndefined"

text \<open>The assignment \<open>obj[k] = v\<close> inside an object literal: an existing key keeps its
  place and takes the new value, a new key goes last.\<close>

definition obj_set :: "string \<Rightarrow> jsval \<Rightarrow> (string \<times> jsval) list \<Rightarrow> (string \<times> jsval) list" where
  "obj_set k v fs =
     (if k \<in> fst ` set fs
      then map (\<lambda>kv. if fst kv = k then (k, v) else kv) fs
      else fs @ [(k, v)])"

fun index_key :: "nat \<Rightarrow> string" where
  "index_key n =
     (if n < 10 then [''0123456789'' ! n]
      else index_key (n div 10) @ [''0123456789'' ! (n mod 10)])"

text \<open>The own enumerable properties that \<open>...v\<close> copies: the properties of an object, the
  elements of an array and the characters of a string under their indices, nothing for the
  other values.\<close>

fun own_props :: "jsval \<Rightarrow> (string \<times> jsval) list" where
  "own_props (JObj fs) = fs"
| "own_props (JArr xs) = zip (map index_key [0..<length xs]) xs"
| "own_props (JStr s) = zip (map index_key [0..<length s]) (map (\<lambda>c. JStr [c]) s)"
| "own_props v = []"

definition spread :: "jsval \<Rightarrow> (string \<times> jsval) list \<Rightarrow> (string \<times> jsval) list" where
  "spread v obj = fold (\<lambda>kv. obj_set (fst kv) (snd kv)) (own_props v) obj"

text \<open>\<open>JSON.stringify\<close>, as the document it writes rather than its text: a property whose
  value is \<open>undefined\<close> is left out, and \<open>undefined\<close> in an array is written \<open>null\<close>.\<close>

primrec stringify :: "jsval \<Rightarrow> jsval" where
  "stringify JUndefined = JUndefined"
| "stringify JNull = JNull"
| "stringify (JBool b) = JBool b"
| "stringify (JNum n) = JNum n"
| "stringify (JStr s) = JStr s"
| "stringify (JArr xs) = JArr (map (\<lambda>v. if v = JUndefined then JNull else v) (map stringify xs))"
| "stringify (JObj fs) =
     JObj (filter (\<lambda>kv. snd kv \<noteq> JUndefined) (map (map_prod id stringify) fs))"

text \<open>The envelope \<open>{ type: t, payload: { ... } }\<close> that every outgoing message is.\<close>

definition envelope :: "string \<Rightarrow> (string \<times> jsval) list \<Rightarrow> jsval" where
  "envelope t p = JObj [(''type'', JStr t), (''payload'', JObj p)]"

subsection \<open>Sets of client ids\<close>

text \<open>A \<open>Set<string>\<close> is the list of its elements in insertion order, without
  duplicates: \<open>add\<close> appends an element that is not there, \<open>delete\<close> removes it,
  \<open>size\<close> is the length and \<open>forEach\<close> runs down the list.\<close>

definition set_add :: "string \<Rightarrow> string list \<Rightarrow> string list" where
  "set_add x xs = (if x \<in> set xs then xs else xs @ [x])"

definition set_delete :: "string \<Rightarrow> string list \<Rightarrow> string list" where
  "set_delete x xs = removeAll x xs"

definition set_size :: "string list \<Rightarrow> nat" where
  "set_size xs = length xs"

subsection \<open>Clients and the state of the relay\<close>

datatype ready_state = CONNECTING | OPEN | CLOSING | CLOSED

text \<open>Of the socket, the relay reads \<open>readyState\<close> and calls \<open>send\<close>; \<open>sent\<close> is the
  list of the frames handed to \<open>send\<close>, oldest first.\<close>

record websocket =
  readyState :: ready_state
  sent :: "jsval list"

text \<open>The interface \<open>Client\<close>. A client object is addressed by its id, the key under which
  \<open>clients\<close> holds it, so the field \<open>id\<close> is that key.\<close>

record client =
  ws :: websocket
  userId :: jsval
  workspaceId :: jsval
  boardId :: jsval

datatype log_entry =
    ClientConnected string
  | ClientDisconnected string
  | WebSocketError string
  | InvalidMessageFormat
  | UnknownMessageType jsval

record state =
  clients :: "string \<rightharpoonup> client"
  workspaceClients :: "jsval \<rightharpoonup> string list"
  boardClients :: "jsval \<rightharpoonup> string list"
  console :: "log_entry list"

definition init :: state where
  "init = \<lparr>clients = Map.empty, workspaceClients = Map.empty, boardClients = Map.empty,
           console = []\<rparr>"

text \<open>\<open>client.ws.send(frame)\<close> for the client with id \<open>cid\<close>.\<close>

definition ws_send :: "state \<Rightarrow> string \<Rightarrow> jsval \<Rightarrow> state" where
  "ws_send st cid frame =
     (case clients st cid of
        None \<Rightarrow> st
      | Some c \<Rightarrow>
          st\<lparr>clients := (clients st)(cid \<mapsto> c\<lparr>ws := (ws c)\<lparr>sent := sent (ws c) @ [frame]\<rparr>\<rparr>)\<rparr>)"

subsection \<open>Broadcasting\<close>

text \<open>The body of the \<open>forEach\<close> of both broadcast functions, for one member id.\<close>

definition deliver :: "jsval \<Rightarrow> string option \<Rightarrow> string \<Rightarrow> state \<Rightarrow> state" where
  "deliver messageStr excludeClientId clientId st =
     (if Some clientId \<noteq> excludeClientId
      then (case clients st clientId of
              Some c \<Rightarrow>
                if readyState (ws c) = OPEN then ws_send st clientId messageStr else st
            | None \<Rightarrow> st)
      else st)"

definition broadcastToWorkspace :: "state \<Rightarrow> jsval \<Rightarrow> jsval \<Rightarrow> string option \<Rightarrow> state" where
  "broadcastToWorkspace st wid message excludeClientId =
     (case workspaceClients st wid of
        None \<Rightarrow> st
      | Some wsClients \<Rightarrow> fold (deliver (stringify message) excludeClientId) wsClients st)"

definition broadcastToBoard :: "state \<Rightarrow> jsval \<Rightarrow> jsval \<Rightarrow> string option \<Rightarrow> state" where
  "broadcastToBoard st bid message excludeClientId =
     (case boardClients st bid of
        None \<Rightarrow> st
      | Some bdClients \<Rightarrow> fold (deliver (stringify message) excludeClientId) bdClients st)"

subsection \<open>Joining\<close>

text \<open>
  A handler is given a client object. Here it is given the object's id and reads the
  object in the registry; for an id that is not registered it leaves the state as it is
  (the handlers of a socket are not called after its close event, which is when the
  object leaves the registry). The two statements that create a missing room and add the
  id to it are one update of the index, and \<open>size || 0\<close> is the size.
\<close>

definition handleJoinWorkspace :: "state \<Rightarrow> string \<Rightarrow> jsval \<Rightarrow> state" where
  "handleJoinWorkspace st cid wid =
     (case clients st cid of
        None \<Rightarrow> st
      | Some c \<Rightarrow>
          let st1 =
                (if truthy (workspaceId c)
                 then (case workspaceClients st (workspaceId c) of
                         Some prevClients \<Rightarrow>
                           if set_size (set_delete cid prevClients) = 0
                           then st\<lparr>workspaceClients := (workspaceClients st)(workspaceId c := None)\<rparr>
                           else st\<lparr>workspaceClients :=
                                  (workspaceClients st)(workspaceId c \<mapsto> set_delete cid prevClients)\<rparr>
                       | None \<Rightarrow> st)
                 else st);
              st2 = st1\<lparr>clients := (clients st1)(cid \<mapsto> c\<lparr>workspaceId := wid\<rparr>)\<rparr>;
              st3 = st2\<lparr>workspaceClients :=
                      (workspaceClients st2)(wid \<mapsto>
                        set_add cid (case workspaceClients st2 wid of None \<Rightarrow> [] | Some s \<Rightarrow> s))\<rparr>;
              st4 = broadcastToWorkspace st3 wid
                      (envelope ''user_joined'' [(''userId'', userId c), (''workspaceId'', wid)])
                      (Some cid);
              workspaceUserCount =
                (case workspaceClients st4 wid of None \<Rightarrow> 0 | Some s \<Rightarrow> set_size s)
          in ws_send st4 cid
               (stringify (envelope ''workspace_users''
                  [(''count'', JNum (of_nat workspaceUserCount))])))"

definition handleJoinBoard :: "state \<Rightarrow> string \<Rightarrow> jsval \<Rightarrow> state" where
  "handleJoinBoard st cid bid =
     (case clients st cid of
        None \<Rightarrow> st
      | Some c \<Rightarrow>
          let st1 =
                (if truthy (boardId c)
                 then (case boardClients st (boardId c) of
                         Some prevClients \<Rightarrow>
                           if set_size (set_delete cid prevClients) = 0
                           then st\<lparr>boardClients := (boardClients st)(boardId c := None)\<rparr>
                           else st\<lparr>boardClients :=
                                  (boardClients st)(boardId c \<mapsto> set_delete cid prevClients)\<rparr>
                       | None \<Rightarrow> st)
                 else st);
              st2 = st1\<lparr>clients := (clients st1)(cid \<mapsto> c\<lparr>boardId := bid\<rparr>)\<rparr>;
              st3 = st2\<lparr>boardClients :=
                      (boardClients st2)(bid \<mapsto>
                        set_add cid (case boardClients st2 bid of None \<Rightarrow> [] | Some s \<Rightarrow> s))\<rparr>;
              st4 = broadcastToBoard st3 bid
                      (envelope ''user_joined_board'' [(''userId'', userId c), (''boardId'', bid)])
                      (Some cid);
              boardUserCount =
                (case boardClients st4 bid of None \<Rightarrow> 0 | Some s \<Rightarrow> set_size s)
          in ws_send st4 cid
               (stringify (envelope ''board_users''
                  [(''count'', JNum (of_nat boardUserCount))])))"

subsection \<open>Board events\<close>

text \<open>\<open>now\<close> is the value of \<open>Date.now()\<close>.\<close>

definition handleCardMoved :: "state \<Rightarrow> string \<Rightarrow> jsval \<Rightarrow> nat \<Rightarrow> state" where
  "handleCardMoved st cid payload now =
     (case clients st cid of
        None \<Rightarrow> st
      | Some c \<Rightarrow>
          if \<not> truthy (boardId c) then st
          else broadcastToBoard st (boardId c)
                 (envelope ''card_moved''
                    (obj_set ''timestamp'' (JNum (of_nat now))
                      (obj_set ''movedBy'' (userId c) (spread payload []))))
                 None)"

definition handleCardCreated :: "state \<Rightarrow> string \<Rightarrow> jsval \<Rightarrow> nat \<Rightarrow> state" where
  "handleCardCreated st cid payload now =
     (case clients st cid of
        None \<Rightarrow> st
      | Some c \<Rightarrow>
          if \<not> truthy (boardId c) then st
          else broadcastToBoard st (boardId c)
                 (envelope ''card_created''
                    (obj_set ''timestamp'' (JNum (of_nat now))
                      (obj_set ''createdBy'' (userId c) (spread payload []))))
                 None)"

definition handleUserTyping :: "state \<Rightarrow> string \<Rightarrow> jsval \<Rightarrow> state" where
  "handleUserTyping st cid payload =
     (case clients st cid of
        None \<Rightarrow> st
      | Some c \<Rightarrow>
          if \<not> truthy (boardId c) then st
          else broadcastToBoard st (boardId c)
                 (envelope ''user_typing'' (spread payload [(''userId'', userId c)]))
                 (Some cid))"

definition handleCursorMove :: "state \<Rightarrow> string \<Rightarrow> jsval \<Rightarrow> state" where
  "handleCursorMove st cid payload =
     (case clients st cid of
        None \<Rightarrow> st
      | Some c \<Rightarrow>
          if \<not> truthy (boardId c) then st
          else broadcastToBoard st (boardId c)
                 (envelope ''cursor_move'' (spread payload [(''userId'', userId c)]))
                 (Some cid))"

subsection \<open>Disconnecting\<close>

definition handleDisconnect :: "state \<Rightarrow> string \<Rightarrow> state" where
  "handleDisconnect st cid =
     (case clients st cid of
        None \<Rightarrow> st
      | Some c \<Rightarrow>
          let st1 =
                (if truthy (workspaceId c)
                 then (case workspaceClients st (workspaceId c) of
                         Some wsClients \<Rightarrow>
                           if set_size (set_delete cid wsClients) = 0
                           then st\<lparr>workspaceClients := (workspaceClients st)(workspaceId c := None)\<rparr>
                           else broadcastToWorkspace
                                  (st\<lparr>workspaceClients :=
                                     (workspaceClients st)(workspaceId c \<mapsto> set_delete cid wsClients)\<rparr>)
                                  (workspaceId c)
                                  (envelope ''user_left''
                                     [(''userId'', userId c), (''workspaceId'', workspaceId c)])
                                  None
                       | None \<Rightarrow> st)
                 else st);
              st2 =
                (if truthy (boardId c)
                 then (case boardClients st1 (boardId c) of
                         Some bdClients \<Rightarrow>
                           if set_size (set_delete cid bdClients) = 0
                           then st1\<lparr>boardClients := (boardClients st1)(boardId c := None)\<rparr>
                           else broadcastToBoard
                                  (st1\<lparr>boardClients :=
                                     (boardClients st1)(boardId c \<mapsto> set_delete cid bdClients)\<rparr>)
                                  (boardId c)
                                  (envelope ''user_left_board''
                                     [(''userId'', userId c), (''boardId'', boardId c)])
                                  None
                       | None \<Rightarrow> st1)
                 else st1)
          in st2\<lparr>clients := (clients st2)(cid := None)\<rparr>)"

subsection \<open>Dispatch\<close>

text \<open>\<open>handleMessage\<close>: the \<open>switch\<close> compares \<open>message.type\<close> with \<open>===\<close>. Reading a
  property of \<open>undefined\<close> or \<open>null\<close> throws, before any handler has run.\<close>

definition handleMessage :: "state \<Rightarrow> string \<Rightarrow> nat \<Rightarrow> jsval \<Rightarrow> error + state" where
  "handleMessage st cid now message =
     (case get_prop message ''type'' of
        Inl e \<Rightarrow> Inl e
      | Inr t \<Rightarrow>
          if t = JStr ''join_workspace'' then
            (case get_prop message ''payload'' of
               Inl e \<Rightarrow> Inl e
             | Inr payload \<Rightarrow>
                 (case get_prop payload ''workspaceId'' of
                    Inl e \<Rightarrow> Inl e
                  | Inr wid \<Rightarrow> Inr (handleJoinWorkspace st cid wid)))
          else if t = JStr ''join_board'' then
            (case get_prop message ''payload'' of
               Inl e \<Rightarrow> Inl e
             | Inr payload \<Rightarrow>
                 (case get_prop payload ''boardId'' of
                    Inl e \<Rightarrow> Inl e
                  | Inr bid \<Rightarrow> Inr (handleJoinBoard st cid bid)))
          else if t = JStr ''card_moved'' then
            (case get_prop message ''payload'' of
               Inl e \<Rightarrow> Inl e
             | Inr payload \<Rightarrow> Inr (handleCardMoved st cid payload now))
          else if t = JStr ''card_created'' then
            (case get_prop message ''payload'' of
               Inl e \<Rightarrow> Inl e
             | Inr payload \<Rightarrow> Inr (handleCardCreated st cid payload now))
          else if t = JStr ''user_typing'' then
            (case get_prop message ''payload'' of
               Inl e \<Rightarrow> Inl e
             | Inr payload \<Rightarrow> Inr (handleUserTyping st cid payload))
          else if t = JStr ''cursor_move'' then
            (case get_prop message ''payload'' of
               Inl e \<Rightarrow> Inl e
             | Inr payload \<Rightarrow> Inr (handleCursorMove st cid payload))
          else Inr (st\<lparr>console := console st @ [UnknownMessageType t]\<rparr>))"

subsection \<open>The handlers of the socket's events\<close>

text \<open>A frame is what \<open>JSON.parse(data.toString())\<close> makes of it: a value, or the
  \<open>SyntaxError\<close> it throws.\<close>

datatype frame = Malformed | Json jsval

text \<open>\<open>wss.on('connection')\<close>, with \<open>clientId\<close> the uuid drawn for the socket. An accepted
  socket is open.\<close>

definition on_connection :: "state \<Rightarrow> string \<Rightarrow> state" where
  "on_connection st clientId =
     (let c = \<lparr>ws = \<lparr>readyState = OPEN, sent = []\<rparr>, userId = JUndefined,
                workspaceId = JUndefined, boardId = JUndefined\<rparr>;
          st1 = st\<lparr>clients := (clients st)(clientId \<mapsto> c)\<rparr>;
          st2 = st1\<lparr>console := console st1 @ [ClientConnected clientId]\<rparr>
      in ws_send st2 clientId (stringify (envelope ''connected'' [(''clientId'', JStr clientId)])))"

text \<open>\<open>ws.on('message')\<close>: the \<open>try\<close> block catches the error of \<open>JSON.parse\<close> and of
  \<open>handleMessage\<close> alike.\<close>

definition on_message :: "state \<Rightarrow> string \<Rightarrow> frame \<Rightarrow> nat \<Rightarrow> state" where
  "on_message st cid data now =
     (case data of
        Malformed \<Rightarrow> st\<lparr>console := console st @ [InvalidMessageFormat]\<rparr>
      | Json message \<Rightarrow>
          (case handleMessage st cid now message of
             Inl e \<Rightarrow> st\<lparr>console := console st @ [InvalidMessageFormat]\<rparr>
           | Inr st' \<Rightarrow> st'))"

definition on_close :: "state \<Rightarrow> string \<Rightarrow> state" where
  "on_close st cid = handleDisconnect (st\<lparr>console := console st @ [ClientDisconnected cid]\<rparr>) cid"

definition on_error :: "state \<Rightarrow> string \<Rightarrow> state" where
  "on_error st cid = st\<lparr>console := console st @ [WebSocketError cid]\<rparr>"

subsection \<open>Runs of the relay\<close>

text \<open>
  What can happen to the relay: a socket is accepted under an id that is not in use, and
  on a socket that is registered a frame arrives, the socket closes, the socket reports an
  error, or the library moves its \<open>readyState\<close> on (to closing or closed; the relay only
  reads it). The handlers of a socket are not called once it has closed.
\<close>

datatype event =
    Connection string
  | Message string frame nat
  | Close string
  | Error string
  | Transport string ready_state

fun step :: "state \<Rightarrow> event \<Rightarrow> state" where
  "step st (Connection cid) = (if cid \<in> dom (clients st) then st else on_connection st cid)"
| "step st (Message cid data now) =
     (if cid \<in> dom (clients st) then on_message st cid data now else st)"
| "step st (Close cid) = (if cid \<in> dom (clients st) then on_close st cid else st)"
| "step st (Error cid) = (if cid \<in> dom (clients st) then on_error st cid else st)"
| "step st (Transport cid rs) =
     (case clients st cid of
        None \<Rightarrow> st
      | Some c \<Rightarrow>
          if rs = CLOSING \<or> rs = CLOSED
          then st\<lparr>clients := (clients st)(cid \<mapsto> c\<lparr>ws := (ws c)\<lparr>readyState := rs\<rparr>\<rparr>)\<rparr>
          else st)"

definition run :: "event list \<Rightarrow> state" where
  "run evs = foldl step init evs"

section \<open>Vocabulary of the properties\<close>

subsection \<open>Rooms, sockets and what was sent\<close>

text \<open>The member set of room \<open>r\<close> in an index, empty for a room the index does not have,
  and the number \<open>size\<close> gives for it.\<close>

definition members :: "(jsval \<rightharpoonup> string list) \<Rightarrow> jsval \<Rightarrow> string set" where
  "members idx r = (case idx r of None \<Rightarrow> {} | Some xs \<Rightarrow> set xs)"

definition room_size :: "(jsval \<rightharpoonup> string list) \<Rightarrow> jsval \<Rightarrow> nat" where
  "room_size idx r = (case idx r of None \<Rightarrow> 0 | Some xs \<Rightarrow> set_size xs)"

text \<open>The frames handed to the socket of connection \<open>cid\<close> so far, and whether that
  socket is open.\<close>

definition outbox :: "state \<Rightarrow> string \<Rightarrow> jsval list" where
  "outbox st cid = (case clients st cid of None \<Rightarrow> [] | Some c \<Rightarrow> sent (ws c))"

definition is_open :: "state \<Rightarrow> string \<Rightarrow> bool" where
  "is_open st cid = (case clients st cid of None \<Rightarrow> False | Some c \<Rightarrow> readyState (ws c) = OPEN)"

text \<open>The room fields of the registered connections, by connection id.\<close>

definition wfields :: "state \<Rightarrow> string \<rightharpoonup> jsval" where
  "wfields st = (\<lambda>y. map_option workspaceId (clients st y))"

definition bfields :: "state \<Rightarrow> string \<rightharpoonup> jsval" where
  "bfields st = (\<lambda>y. map_option boardId (clients st y))"

text \<open>A client after \<open>n\<close> calls of \<open>send\<close> with the frame \<open>m\<close>, and after a broadcast has
  met it \<open>n\<close> times: the broadcast sends only to an open socket.\<close>

definition push :: "nat \<Rightarrow> jsval \<Rightarrow> client \<Rightarrow> client" where
  "push n m c = c\<lparr>ws := (ws c)\<lparr>sent := sent (ws c) @ replicate n m\<rparr>\<rparr>"

definition recv :: "nat \<Rightarrow> jsval \<Rightarrow> client \<Rightarrow> client" where
  "recv n m c = (if readyState (ws c) = OPEN then push n m c else c)"

subsection \<open>What a handler does to an index\<close>

text \<open>The block that the join handlers and \<open>handleDisconnect\<close> open with, as a function of
  the index: under \<open>if (client.workspaceId)\<close>, delete the id from the previous room and
  delete the room when it is empty.\<close>

definition vacate :: "(jsval \<rightharpoonup> string list) \<Rightarrow> jsval \<Rightarrow> string \<Rightarrow> (jsval \<rightharpoonup> string list)" where
  "vacate idx p cid =
     (if truthy p
      then (case idx p of
              Some xs \<Rightarrow> if set_size (set_delete cid xs) = 0 then idx(p := None)
                         else idx(p \<mapsto> set_delete cid xs)
            | None \<Rightarrow> idx)
      else idx)"

text \<open>The second block of the join handlers: create the room if it is not there and add
  the id.\<close>

definition enter :: "(jsval \<rightharpoonup> string list) \<Rightarrow> jsval \<Rightarrow> string \<Rightarrow> (jsval \<rightharpoonup> string list)" where
  "enter idx r cid = idx(r \<mapsto> set_add cid (case idx r of None \<Rightarrow> [] | Some s \<Rightarrow> s))"

text \<open>The member list of room \<open>r\<close> after a connection whose room field was \<open>p\<close> joined it.\<close>

definition joined_list :: "(jsval \<rightharpoonup> string list) \<Rightarrow> jsval \<Rightarrow> jsval \<Rightarrow> string \<Rightarrow> string list" where
  "joined_list idx p r cid = set_add cid (case vacate idx p cid r of None \<Rightarrow> [] | Some s \<Rightarrow> s)"

text \<open>How often a broadcast to room \<open>r\<close> meets the id \<open>y\<close>, and how often the broadcast
  of \<open>handleDisconnect\<close> does, which runs on the room without the leaver.\<close>

definition copies :: "(jsval \<rightharpoonup> string list) \<Rightarrow> jsval \<Rightarrow> string \<Rightarrow> nat" where
  "copies idx r y = (case idx r of None \<Rightarrow> 0 | Some xs \<Rightarrow> count_list xs y)"

definition left_copies :: "(jsval \<rightharpoonup> string list) \<Rightarrow> jsval \<Rightarrow> string \<Rightarrow> string \<Rightarrow> nat" where
  "left_copies idx p cid y =
     (if truthy p
      then (case idx p of None \<Rightarrow> 0 | Some xs \<Rightarrow> count_list (set_delete cid xs) y)
      else 0)"

subsection \<open>Invariants\<close>

text \<open>The lists that stand for a \<open>Set\<close> have no duplicates.\<close>

definition wf_idx :: "(jsval \<rightharpoonup> string list) \<Rightarrow> bool" where
  "wf_idx idx \<longleftrightarrow> (\<forall>r xs. idx r = Some xs \<longrightarrow> distinct xs)"

definition wf_sets :: "state \<Rightarrow> bool" where
  "wf_sets st \<longleftrightarrow> wf_idx (workspaceClients st) \<and> wf_idx (boardClients st)"

text \<open>The invariant of claim C1 in its own words, for one flavor of room: the room field of
  a registered connection is \<open>r\<close> exactly when its id is in the member set of \<open>r\<close>, no room
  of the index is empty, and no id is in two rooms.\<close>

definition index_agrees :: "(jsval \<rightharpoonup> string list) \<Rightarrow> (string \<rightharpoonup> jsval) \<Rightarrow> bool" where
  "index_agrees idx fm \<longleftrightarrow>
     (\<forall>cid r. cid \<in> dom fm \<longrightarrow> r \<noteq> JUndefined \<longrightarrow>
        (fm cid = Some r \<longleftrightarrow> cid \<in> members idx r)) \<and>
     (\<forall>r xs. idx r = Some xs \<longrightarrow> xs \<noteq> []) \<and>
     (\<forall>cid r r'. cid \<in> members idx r \<longrightarrow> cid \<in> members idx r' \<longrightarrow> r = r')"

definition consistent :: "state \<Rightarrow> bool" where
  "consistent st \<longleftrightarrow>
     index_agrees (workspaceClients st) (wfields st) \<and>
     index_agrees (boardClients st) (bfields st)"

text \<open>The invariant the handlers keep when every room id they are given is truthy. It is
  stronger than the one above: every room has a truthy id and a duplicate-free, non-empty
  member list, every member is registered with that room in its field, and a room field
  that is set is truthy and names a room the connection is in.\<close>

definition room_inv :: "(jsval \<rightharpoonup> string list) \<Rightarrow> (string \<rightharpoonup> jsval) \<Rightarrow> bool" where
  "room_inv idx fm \<longleftrightarrow>
     (\<forall>r xs. idx r = Some xs \<longrightarrow>
        truthy r \<and> xs \<noteq> [] \<and> distinct xs \<and> (\<forall>x\<in>set xs. fm x = Some r)) \<and>
     (\<forall>cid r. fm cid = Some r \<longrightarrow> r \<noteq> JUndefined \<longrightarrow> truthy r \<and> cid \<in> members idx r)"

definition rooms_agree :: "state \<Rightarrow> bool" where
  "rooms_agree st \<longleftrightarrow>
     room_inv (workspaceClients st) (wfields st) \<and> room_inv (boardClients st) (bfields st)"

text \<open>The connection \<open>cid\<close>, whose room field is \<open>fld\<close>, is a member of the room that its
  field names and of no other room, and of no room at all when the field is not truthy
  (it is unset, or it is the empty string or another falsy value).\<close>

definition in_own_room :: "(jsval \<rightharpoonup> string list) \<Rightarrow> jsval \<Rightarrow> string \<Rightarrow> bool" where
  "in_own_room idx fld cid \<longleftrightarrow> (\<forall>r. cid \<in> members idx r \<longleftrightarrow> (r = fld \<and> truthy fld))"

text \<open>The room id that \<open>handleMessage\<close> hands to a join handler, if the message is a join,
  and the events whose join, if they are one, is given a truthy room id.\<close>

definition join_target :: "jsval \<Rightarrow> jsval option" where
  "join_target message =
     (case get_prop message ''type'' of
        Inl e \<Rightarrow> None
      | Inr t \<Rightarrow>
          if t = JStr ''join_workspace'' then
            (case get_prop message ''payload'' of
               Inl e \<Rightarrow> None
             | Inr payload \<Rightarrow>
                 (case get_prop payload ''workspaceId'' of Inl e \<Rightarrow> None | Inr r \<Rightarrow> Some r))
          else if t = JStr ''join_board'' then
            (case get_prop message ''payload'' of
               Inl e \<Rightarrow> None
             | Inr payload \<Rightarrow>
                 (case get_prop payload ''boardId'' of Inl e \<Rightarrow> None | Inr r \<Rightarrow> Some r))
          else None)"

fun truthy_join :: "event \<Rightarrow> bool" where
  "truthy_join (Message cid (Json message) now) =
     (case join_target message of None \<Rightarrow> True | Some r \<Rightarrow> truthy r)"
| "truthy_join ev = True"

subsection \<open>Messages\<close>

text \<open>The types of the dispatch, and the four that are board events.\<close>

definition board_event_types :: "string list" where
  "board_event_types = [''card_moved'', ''card_created'', ''user_typing'', ''cursor_move'']"

definition message_types :: "string list" where
  "message_types = [''join_workspace'', ''join_board''] @ board_event_types"

definition known_type :: "jsval \<Rightarrow> bool" where
  "known_type message = (\<exists>t\<in>set message_types. get_prop message ''type'' = Inr (JStr t))"

text \<open>What the message handler logs for a frame it drops.\<close>

definition drop_log :: "frame \<Rightarrow> log_entry" where
  "drop_log data =
     (case data of
        Malformed \<Rightarrow> InvalidMessageFormat
      | Json message \<Rightarrow>
          (case get_prop message ''type'' of
             Inl e \<Rightarrow> InvalidMessageFormat
           | Inr t \<Rightarrow> UnknownMessageType t))"

text \<open>Two states that differ in the console at most.\<close>

definition same_core :: "state \<Rightarrow> state \<Rightarrow> bool" where
  "same_core s t \<longleftrightarrow>
     clients s = clients t \<and> workspaceClients s = workspaceClients t \<and>
     boardClients s = boardClients t"

text \<open>The frames a client sends, as \<open>JSON.parse\<close> returns them.\<close>

definition client_frame :: "string \<Rightarrow> jsval \<Rightarrow> frame" where
  "client_frame t payload = Json (JObj [(''type'', JStr t), (''payload'', payload)])"

definition join_workspace_frame :: "jsval \<Rightarrow> frame" where
  "join_workspace_frame r = client_frame ''join_workspace'' (JObj [(''workspaceId'', r)])"

definition join_board_frame :: "jsval \<Rightarrow> frame" where
  "join_board_frame r = client_frame ''join_board'' (JObj [(''boardId'', r)])"

subsection \<open>The identity fields of a frame the relay sent\<close>

text \<open>The type of a sent frame and the keys its payload is written with.\<close>

definition frame_type :: "jsval \<Rightarrow> jsval" where
  "frame_type f = (case get_prop f ''type'' of Inl e \<Rightarrow> JUndefined | Inr t \<Rightarrow> t)"

definition payload_keys :: "jsval \<Rightarrow> string set" where
  "payload_keys f =
     (case get_prop f ''payload'' of
        Inr (JObj p) \<Rightarrow> fst ` set p
      | _ \<Rightarrow> {})"

text \<open>The value that the payload of a sent frame has under the key \<open>k\<close>, \<open>undefined\<close> if
  the key is not written.\<close>

definition payload_field :: "jsval \<Rightarrow> string \<Rightarrow> jsval" where
  "payload_field f k =
     (case get_prop f ''payload'' of
        Inl e \<Rightarrow> JUndefined
      | Inr q \<Rightarrow> (case get_prop q k of Inl e \<Rightarrow> JUndefined | Inr v \<Rightarrow> v))"

text \<open>The value that the spread \<open>...v\<close> copies under the key \<open>k\<close>, \<open>undefined\<close> if \<open>v\<close> has
  no such property. The spread assigns the properties in order, so of several entries
  under one key the last would stay; an object has one entry for each key, and then this
  is the property read \<open>v.k\<close> (lemma \<open>own_prop_object\<close>).\<close>

definition own_prop :: "jsval \<Rightarrow> string \<Rightarrow> jsval" where
  "own_prop v k = (case map_of (rev (own_props v)) k of None \<Rightarrow> JUndefined | Some x \<Rightarrow> x)"

text \<open>The fields the relay fills from \<open>client.userId\<close> after the payload, or next to no
  payload, are not written.\<close>

definition relay_identity_absent :: "jsval \<Rightarrow> bool" where
  "relay_identity_absent f \<longleftrightarrow>
     (frame_type f = JStr ''card_moved'' \<longrightarrow> ''movedBy'' \<notin> payload_keys f) \<and>
     (frame_type f = JStr ''card_created'' \<longrightarrow> ''createdBy'' \<notin> payload_keys f) \<and>
     (frame_type f \<in> {JStr ''user_joined'', JStr ''user_joined_board'', JStr ''user_left'',
                       JStr ''user_left_board''} \<longrightarrow>
        ''userId'' \<notin> payload_keys f)"

text \<open>The field the relay fills from \<open>client.userId\<close> before it spreads the payload is not
  written.\<close>

definition sender_identity_absent :: "jsval \<Rightarrow> bool" where
  "sender_identity_absent f \<longleftrightarrow>
     (frame_type f \<in> {JStr ''user_typing'', JStr ''cursor_move''} \<longrightarrow>
        ''userId'' \<notin> payload_keys f)"

text \<open>A \<open>user_typing\<close> or \<open>cursor_move\<close> message whose payload has a \<open>userId\<close> property
  of its own.\<close>

fun supplies_userId :: "event \<Rightarrow> bool" where
  "supplies_userId (Message cid (Json message) now) =
     ((get_prop message ''type'' = Inr (JStr ''user_typing'') \<or>
       get_prop message ''type'' = Inr (JStr ''cursor_move'')) \<and>
      (case get_prop message ''payload'' of
         Inl e \<Rightarrow> False
       | Inr payload \<Rightarrow> ''userId'' \<in> fst ` set (own_props payload)))"
| "supplies_userId ev = False"

definition frame_ok :: "bool \<Rightarrow> jsval \<Rightarrow> bool" where
  "frame_ok strict f \<longleftrightarrow> relay_identity_absent f \<and> (strict \<longrightarrow> sender_identity_absent f)"

text \<open>Every registered connection has no \<open>userId\<close> and was sent such frames only.\<close>

definition anonymous :: "bool \<Rightarrow> (string \<rightharpoonup> client) \<Rightarrow> bool" where
  "anonymous strict cs \<longleftrightarrow>
     (\<forall>cid c. cs cid = Some c \<longrightarrow>
        userId c = JUndefined \<and> (\<forall>f\<in>set (sent (ws c)). frame_ok strict f))"

section \<open>Lemmas about the handlers\<close>

subsection \<open>Sending and broadcasting\<close>

lemma push_0 [simp]: "push 0 m c = c"
  by (simp add: push_def)

lemma recv_0 [simp]: "recv 0 m c = c"
  by (simp add: recv_def)

lemma map_option_recv_0 [simp]: "map_option (recv 0 m) x = x"
  by (cases x) simp_all

lemma recv_recv: "recv n m (recv k m c) = recv (k + n) m c"
  by (simp add: recv_def push_def replicate_add)

lemma deliver_frame [simp]:
  "workspaceClients (deliver m ex x st) = workspaceClients st"
  "boardClients (deliver m ex x st) = boardClients st"
  "console (deliver m ex x st) = console st"
  by (simp_all add: deliver_def ws_send_def split: option.splits)

lemma deliver_clients:
  "clients (deliver m ex x st) y =
     (if y = x \<and> Some x \<noteq> ex then map_option (recv 1 m) (clients st y) else clients st y)"
  by (auto simp: deliver_def ws_send_def recv_def push_def split: option.splits)

lemma fold_deliver_frame [simp]:
  "workspaceClients (fold (deliver m ex) xs st) = workspaceClients st"
  "boardClients (fold (deliver m ex) xs st) = boardClients st"
  "console (fold (deliver m ex) xs st) = console st"
  by (induction xs arbitrary: st) simp_all

lemma fold_deliver_clients:
  "clients (fold (deliver m ex) xs st) y =
     map_option (recv (if Some y \<noteq> ex then count_list xs y else 0) m) (clients st y)"
proof (induction xs arbitrary: st)
  case Nil
  show ?case by (simp add: option.map_ident)
next
  case (Cons x xs)
  show ?case
    by (cases "clients st y") (auto simp: Cons deliver_clients recv_recv option.map_comp comp_def)
qed

subsection \<open>The handlers, field by field\<close>

lemma enter_apply: "enter idx r cid r = Some (set_add cid (case idx r of None \<Rightarrow> [] | Some s \<Rightarrow> s))"
  by (simp add: enter_def)

lemma ws_send_frame [simp]:
  "workspaceClients (ws_send st x m) = workspaceClients st"
  "boardClients (ws_send st x m) = boardClients st"
  "console (ws_send st x m) = console st"
  by (simp_all add: ws_send_def split: option.splits)

lemma ws_send_clients:
  "clients (ws_send st x m) y = (if y = x then map_option (push 1 m) (clients st y) else clients st y)"
  by (auto simp: ws_send_def push_def split: option.splits)

lemma broadcastToWorkspace_frame [simp]:
  "workspaceClients (broadcastToWorkspace st r m ex) = workspaceClients st"
  "boardClients (broadcastToWorkspace st r m ex) = boardClients st"
  "console (broadcastToWorkspace st r m ex) = console st"
  by (simp_all add: broadcastToWorkspace_def split: option.splits)

lemma broadcastToBoard_frame [simp]:
  "workspaceClients (broadcastToBoard st r m ex) = workspaceClients st"
  "boardClients (broadcastToBoard st r m ex) = boardClients st"
  "console (broadcastToBoard st r m ex) = console st"
  by (simp_all add: broadcastToBoard_def split: option.splits)

lemma broadcastToWorkspace_clients:
  "clients (broadcastToWorkspace st r m ex) y =
     map_option (recv (if Some y \<noteq> ex then copies (workspaceClients st) r y else 0) (stringify m))
       (clients st y)"
  by (simp add: broadcastToWorkspace_def copies_def fold_deliver_clients option.map_ident
      split: option.splits)

lemma broadcastToBoard_clients:
  "clients (broadcastToBoard st r m ex) y =
     map_option (recv (if Some y \<noteq> ex then copies (boardClients st) r y else 0) (stringify m))
       (clients st y)"
  by (simp add: broadcastToBoard_def copies_def fold_deliver_clients option.map_ident
      split: option.splits)

lemma handleJoinWorkspace_index:
  assumes "clients st cid = Some c"
  shows "workspaceClients (handleJoinWorkspace st cid r) =
           enter (vacate (workspaceClients st) (workspaceId c) cid) r cid"
    and "boardClients (handleJoinWorkspace st cid r) = boardClients st"
    and "console (handleJoinWorkspace st cid r) = console st"
  using assms
  by (simp_all add: handleJoinWorkspace_def Let_def vacate_def enter_def split: option.splits)

lemma handleJoinWorkspace_clients:
  assumes "clients st cid = Some c"
  shows "clients (handleJoinWorkspace st cid r) y =
     (if y = cid
      then Some (push 1 (stringify (envelope ''workspace_users''
                   [(''count'', JNum (of_nat (set_size
                      (joined_list (workspaceClients st) (workspaceId c) r cid))))]))
                 (c\<lparr>workspaceId := r\<rparr>))
      else map_option
             (recv (count_list (joined_list (workspaceClients st) (workspaceId c) r cid) y)
                (stringify (envelope ''user_joined'' [(''userId'', userId c), (''workspaceId'', r)])))
             (clients st y))"
  using assms
  by (simp add: handleJoinWorkspace_def Let_def ws_send_clients broadcastToWorkspace_clients
      copies_def joined_list_def vacate_def split: option.splits)

lemma push_fields [simp]:
  "userId (push n m c) = userId c"
  "workspaceId (push n m c) = workspaceId c"
  "boardId (push n m c) = boardId c"
  "readyState (ws (push n m c)) = readyState (ws c)"
  "sent (ws (push n m c)) = sent (ws c) @ replicate n m"
  by (simp_all add: push_def)

lemma recv_fields [simp]:
  "userId (recv n m c) = userId c"
  "workspaceId (recv n m c) = workspaceId c"
  "boardId (recv n m c) = boardId c"
  "readyState (ws (recv n m c)) = readyState (ws c)"
  "sent (ws (recv n m c)) = sent (ws c) @ (if readyState (ws c) = OPEN then replicate n m else [])"
  by (simp_all add: recv_def)

lemma handleJoinBoard_index:
  assumes "clients st cid = Some c"
  shows "boardClients (handleJoinBoard st cid r) =
           enter (vacate (boardClients st) (boardId c) cid) r cid"
    and "workspaceClients (handleJoinBoard st cid r) = workspaceClients st"
    and "console (handleJoinBoard st cid r) = console st"
  using assms
  by (simp_all add: handleJoinBoard_def Let_def vacate_def enter_def split: option.splits)

lemma handleJoinBoard_clients:
  assumes "clients st cid = Some c"
  shows "clients (handleJoinBoard st cid r) y =
     (if y = cid
      then Some (push 1 (stringify (envelope ''board_users''
                   [(''count'', JNum (of_nat (set_size
                      (joined_list (boardClients st) (boardId c) r cid))))]))
                 (c\<lparr>boardId := r\<rparr>))
      else map_option
             (recv (count_list (joined_list (boardClients st) (boardId c) r cid) y)
                (stringify (envelope ''user_joined_board'' [(''userId'', userId c), (''boardId'', r)])))
             (clients st y))"
  using assms
  by (simp add: handleJoinBoard_def Let_def ws_send_clients broadcastToBoard_clients
      copies_def joined_list_def vacate_def split: option.splits)

lemma count_list_0: "y \<notin> set xs \<Longrightarrow> count_list xs y = 0"
  by (induction xs) auto

lemma handleDisconnect_index:
  assumes "clients st cid = Some c"
  shows "workspaceClients (handleDisconnect st cid) = vacate (workspaceClients st) (workspaceId c) cid"
    and "boardClients (handleDisconnect st cid) = vacate (boardClients st) (boardId c) cid"
    and "console (handleDisconnect st cid) = console st"
  using assms
  by (simp_all add: handleDisconnect_def Let_def vacate_def split: option.splits)

lemma handleDisconnect_clients:
  assumes "clients st cid = Some c"
  shows "clients (handleDisconnect st cid) y =
     (if y = cid then None
      else map_option
             (\<lambda>d. recv (left_copies (boardClients st) (boardId c) cid y)
                     (stringify (envelope ''user_left_board''
                        [(''userId'', userId c), (''boardId'', boardId c)]))
                   (recv (left_copies (workspaceClients st) (workspaceId c) cid y)
                     (stringify (envelope ''user_left''
                        [(''userId'', userId c), (''workspaceId'', workspaceId c)])) d))
             (clients st y))"
proof -
  have z: "\<And>xs. set_size (set_delete cid xs) = 0 \<Longrightarrow> count_list (set_delete cid xs) y = 0"
    by (simp add: set_size_def)
  show ?thesis
    using assms
    by (cases "clients st y")
       (auto simp: handleDisconnect_def Let_def broadcastToWorkspace_clients
          broadcastToBoard_clients copies_def left_copies_def z split: option.splits)
qed

subsection \<open>Keeping fields and indexes in agreement\<close>

lemma room_invD:
  assumes "room_inv idx fm"
  shows "idx r = Some xs \<Longrightarrow> truthy r"
    and "idx r = Some xs \<Longrightarrow> xs \<noteq> []"
    and "idx r = Some xs \<Longrightarrow> distinct xs"
    and "idx r = Some xs \<Longrightarrow> x \<in> set xs \<Longrightarrow> fm x = Some r"
    and "fm cid = Some p \<Longrightarrow> p \<noteq> JUndefined \<Longrightarrow> truthy p"
    and "fm cid = Some p \<Longrightarrow> p \<noteq> JUndefined \<Longrightarrow> cid \<in> members idx p"
  using assms unfolding room_inv_def by blast+

lemma truthy_defined: "truthy p \<Longrightarrow> p \<noteq> JUndefined"
  by auto

lemma room_inv_member:
  "room_inv idx fm \<Longrightarrow> cid \<in> members idx r \<Longrightarrow> fm cid = Some r"
  unfolding room_inv_def members_def by (auto split: option.splits)

lemma removeAll_keeps: "y \<in> set zs \<Longrightarrow> y \<noteq> x \<Longrightarrow> removeAll x zs \<noteq> []"
proof -
  assume "y \<in> set zs" "y \<noteq> x"
  then have "y \<in> set (removeAll x zs)" by simp
  then show ?thesis by fastforce
qed

lemma vacate_other: "r \<noteq> p \<Longrightarrow> vacate idx p cid r = idx r"
  by (simp add: vacate_def split: option.splits)

lemma vacate_falsy: "\<not> truthy p \<Longrightarrow> vacate idx p cid = idx"
  by (simp add: vacate_def)

lemma vacate_same:
  "truthy p \<Longrightarrow> idx p = Some xs \<Longrightarrow>
   vacate idx p cid p = (if removeAll cid xs = [] then None else Some (removeAll cid xs))"
  by (simp add: vacate_def set_size_def set_delete_def)

lemma vacate_absent: "idx p = None \<Longrightarrow> vacate idx p cid = idx"
  by (simp add: vacate_def)

lemma members_vacate:
  "truthy p \<Longrightarrow>
   members (vacate idx p cid) r = (if r = p then members idx p - {cid} else members idx r)"
proof (cases "idx p")
  case None
  assume "truthy p"
  show ?thesis using None by (simp add: vacate_absent[of idx p cid] members_def)
next
  case (Some xs)
  assume t: "truthy p"
  show ?thesis
  proof (cases "r = p")
    case True
    show ?thesis
    proof (cases "removeAll cid xs = []")
      case e: True
      then have "set (removeAll cid xs) = {}" by simp
      then have "set xs - {cid} = {}" by simp
      then show ?thesis
        using vacate_same[of p idx xs cid] t True Some e by (simp add: members_def)
    next
      case e: False
      show ?thesis
        using vacate_same[of p idx xs cid] t True Some e by (simp add: members_def)
    qed
  next
    case False
    then show ?thesis by (simp add: members_def vacate_other)
  qed
qed

lemma members_enter:
  "members (enter idx r cid) q = (if q = r then insert cid (members idx r) else members idx q)"
  by (auto simp: members_def enter_def set_add_def split: option.splits)

lemma room_inv_vacate:
  assumes inv: "room_inv idx fm" and f: "fm cid = Some p"
  shows "room_inv (vacate idx p cid) (fm(cid := None))"
proof (cases "truthy p")
  case False
  have no: "cid \<notin> set xs" if a: "idx r = Some xs" for r xs
  proof
    assume c: "cid \<in> set xs"
    have "fm cid = Some r" using room_invD(4)[OF inv a c] .
    moreover have "truthy r" using room_invD(1)[OF inv a] .
    ultimately show False using f False by simp
  qed
  have "room_inv idx (fm(cid := None))"
    unfolding room_inv_def
  proof (intro conjI allI impI)
    fix r xs assume a: "idx r = Some xs"
    show "truthy r" using room_invD(1)[OF inv a] .
    show "xs \<noteq> []" using room_invD(2)[OF inv a] .
    show "distinct xs" using room_invD(3)[OF inv a] .
    show "\<forall>x\<in>set xs. (fm(cid := None)) x = Some r"
    proof
      fix x assume x: "x \<in> set xs"
      have "x \<noteq> cid" using no[OF a] x by auto
      then show "(fm(cid := None)) x = Some r" using room_invD(4)[OF inv a x] by simp
    qed
  next
    fix y r assume a: "(fm(cid := None)) y = Some r" "r \<noteq> JUndefined"
    then have y: "fm y = Some r" by (simp split: if_splits)
    show "truthy r" using room_invD(5)[OF inv y a(2)] .
    show "y \<in> members idx r" using room_invD(6)[OF inv y a(2)] .
  qed
  then show ?thesis by (simp add: vacate_falsy[OF False])
next
  case True
  then have pd: "p \<noteq> JUndefined" by auto
  have "cid \<in> members idx p" using room_invD(6)[OF inv f pd] .
  then obtain xs where xs: "idx p = Some xs" "cid \<in> set xs"
    by (cases "idx p") (simp_all add: members_def)
  have other: "cid \<notin> set ys" if a: "idx r = Some ys" "r \<noteq> p" for r ys
  proof
    assume c: "cid \<in> set ys"
    have "fm cid = Some r" using room_invD(4)[OF inv a(1) c] .
    then show False using f a(2) by simp
  qed
  have vs: "vacate idx p cid p = (if removeAll cid xs = [] then None else Some (removeAll cid xs))"
    using vacate_same[of p idx xs cid] True xs(1) by simp
  show ?thesis
    unfolding room_inv_def
  proof (intro conjI allI impI)
    fix r ys assume a: "vacate idx p cid r = Some ys"
    have cases: "(r \<noteq> p \<and> idx r = Some ys) \<or> (r = p \<and> ys = removeAll cid xs \<and> ys \<noteq> [])"
    proof (cases "r = p")
      case True
      then show ?thesis using a vs by (simp split: if_splits)
    next
      case False
      then show ?thesis using a vacate_other[of r p idx cid] by simp
    qed
    from cases show "truthy r"
    proof
      assume "r \<noteq> p \<and> idx r = Some ys"
      then show ?thesis using room_invD(1)[OF inv, of r ys] by simp
    next
      assume "r = p \<and> ys = removeAll cid xs \<and> ys \<noteq> []"
      then show ?thesis using True by simp
    qed
    from cases show "ys \<noteq> []"
    proof
      assume "r \<noteq> p \<and> idx r = Some ys"
      then show ?thesis using room_invD(2)[OF inv, of r ys] by simp
    next
      assume "r = p \<and> ys = removeAll cid xs \<and> ys \<noteq> []"
      then show ?thesis by blast
    qed
    from cases show "distinct ys"
    proof
      assume "r \<noteq> p \<and> idx r = Some ys"
      then show ?thesis using room_invD(3)[OF inv, of r ys] by simp
    next
      assume "r = p \<and> ys = removeAll cid xs \<and> ys \<noteq> []"
      then show ?thesis using room_invD(3)[OF inv xs(1)] by (simp add: distinct_removeAll)
    qed
    show "\<forall>x\<in>set ys. (fm(cid := None)) x = Some r"
    proof
      fix x assume x: "x \<in> set ys"
      from cases show "(fm(cid := None)) x = Some r"
      proof
        assume c: "r \<noteq> p \<and> idx r = Some ys"
        then have "x \<noteq> cid" using other[of r ys] x by auto
        moreover have "fm x = Some r" using room_invD(4)[OF inv, of r ys x] c x by simp
        ultimately show ?thesis by simp
      next
        assume c: "r = p \<and> ys = removeAll cid xs \<and> ys \<noteq> []"
        then have "x \<noteq> cid" "x \<in> set xs" using x by auto
        then show ?thesis using room_invD(4)[OF inv xs(1), of x] c by simp
      qed
    qed
  next
    fix y r assume a: "(fm(cid := None)) y = Some r" "r \<noteq> JUndefined"
    then have y: "y \<noteq> cid" "fm y = Some r" by (simp_all split: if_splits)
    show "truthy r" using room_invD(5)[OF inv y(2) a(2)] .
    have "y \<in> members idx r" using room_invD(6)[OF inv y(2) a(2)] .
    then show "y \<in> members (vacate idx p cid) r"
      using y(1) by (auto simp: members_vacate[OF True])
  qed
qed

lemma room_inv_enter:
  assumes inv: "room_inv idx fm" and f: "fm cid = None" and t: "truthy r"
  shows "room_inv (enter idx r cid) (fm(cid \<mapsto> r))"
proof -
  have no: "cid \<notin> set xs" if a: "idx q = Some xs" for q xs
  proof
    assume c: "cid \<in> set xs"
    have "fm cid = Some q" using room_invD(4)[OF inv a c] .
    then show False using f by simp
  qed
  have er: "enter idx r cid r = Some (case idx r of None \<Rightarrow> [cid] | Some xs \<Rightarrow> xs @ [cid])"
    using no by (cases "idx r") (simp_all add: enter_def set_add_def)
  have eo: "enter idx r cid q = idx q" if "q \<noteq> r" for q
    using that by (simp add: enter_def)
  show ?thesis
    unfolding room_inv_def
  proof (intro conjI allI impI)
    fix q ys assume a: "enter idx r cid q = Some ys"
    have cases: "(q \<noteq> r \<and> idx q = Some ys) \<or> (q = r \<and> idx r = None \<and> ys = [cid])
                 \<or> (q = r \<and> (\<exists>xs. idx r = Some xs \<and> ys = xs @ [cid]))"
    proof (cases "q = r")
      case True
      then show ?thesis using a er by (cases "idx r") auto
    next
      case False
      then show ?thesis using a eo by simp
    qed
    show "truthy q" using cases t room_invD(1)[OF inv, of q ys] by auto
    show "ys \<noteq> []" using cases room_invD(2)[OF inv, of q ys] by auto
    show "distinct ys"
    proof (cases "q = r")
      case False
      then show ?thesis using cases room_invD(3)[OF inv, of q ys] by auto
    next
      case True
      show ?thesis
      proof (cases "idx r")
        case None then show ?thesis using cases True by auto
      next
        case (Some xs)
        then show ?thesis using cases True room_invD(3)[OF inv Some] no[OF Some] by auto
      qed
    qed
    show "\<forall>x\<in>set ys. (fm(cid \<mapsto> r)) x = Some q"
    proof
      fix x assume x: "x \<in> set ys"
      show "(fm(cid \<mapsto> r)) x = Some q"
      proof (cases "q = r")
        case False
        then have i: "idx q = Some ys" using cases by auto
        then have "x \<noteq> cid" using no[OF i] x by auto
        then show ?thesis using room_invD(4)[OF inv i x] by simp
      next
        case True
        show ?thesis
        proof (cases "x = cid")
          case c: True then show ?thesis using True by simp
        next
          case c: False
          then obtain xs where i: "idx r = Some xs" "x \<in> set xs" using cases True x by auto
          then show ?thesis using room_invD(4)[OF inv i] c True by simp
        qed
      qed
    qed
  next
    fix y q assume a: "(fm(cid \<mapsto> r)) y = Some q" "q \<noteq> JUndefined"
    show "truthy q"
    proof (cases "y = cid")
      case True then show ?thesis using a t by simp
    next
      case False
      then have "fm y = Some q" using a by simp
      then show ?thesis using room_invD(5)[OF inv _ a(2)] by simp
    qed
    show "y \<in> members (enter idx r cid) q"
    proof (cases "y = cid")
      case True then show ?thesis using a by (simp add: members_enter)
    next
      case False
      then have "fm y = Some q" using a by simp
      then have "y \<in> members idx q" using room_invD(6)[OF inv _ a(2)] by simp
      then show ?thesis by (auto simp: members_enter)
    qed
  qed
qed

lemma room_inv_join:
  assumes "room_inv idx fm" "fm cid = Some p" "truthy r"
  shows "room_inv (enter (vacate idx p cid) r cid) (fm(cid \<mapsto> r))"
  using room_inv_enter[OF room_inv_vacate[OF assms(1,2)] _ assms(3), of cid] by simp

lemma room_inv_connect:
  assumes "room_inv idx fm" "fm cid = None"
  shows "room_inv idx (fm(cid \<mapsto> JUndefined))"
  unfolding room_inv_def
proof (intro conjI allI impI)
  fix r xs assume a: "idx r = Some xs"
  show "truthy r" using room_invD(1)[OF assms(1) a] .
  show "xs \<noteq> []" using room_invD(2)[OF assms(1) a] .
  show "distinct xs" using room_invD(3)[OF assms(1) a] .
  show "\<forall>x\<in>set xs. (fm(cid \<mapsto> JUndefined)) x = Some r"
  proof
    fix x assume x: "x \<in> set xs"
    have "fm x = Some r" using room_invD(4)[OF assms(1) a x] .
    then show "(fm(cid \<mapsto> JUndefined)) x = Some r" using assms(2) by auto
  qed
next
  fix y r assume a: "(fm(cid \<mapsto> JUndefined)) y = Some r" "r \<noteq> JUndefined"
  then have y: "fm y = Some r" by (simp split: if_splits)
  show "truthy r" using room_invD(5)[OF assms(1) y a(2)] .
  show "y \<in> members idx r" using room_invD(6)[OF assms(1) y a(2)] .
qed

subsection \<open>The handlers keep the agreement\<close>

lemma handleJoinWorkspace_unregistered: "clients st cid = None \<Longrightarrow> handleJoinWorkspace st cid r = st"
  by (simp add: handleJoinWorkspace_def)

lemma handleJoinBoard_unregistered: "clients st cid = None \<Longrightarrow> handleJoinBoard st cid r = st"
  by (simp add: handleJoinBoard_def)

lemma handleDisconnect_unregistered: "clients st cid = None \<Longrightarrow> handleDisconnect st cid = st"
  by (simp add: handleDisconnect_def)

lemma handleJoinWorkspace_fields:
  assumes "clients st cid = Some c"
  shows "wfields (handleJoinWorkspace st cid r) = (wfields st)(cid \<mapsto> r)"
    and "bfields (handleJoinWorkspace st cid r) = bfields st"
proof -
  show "wfields (handleJoinWorkspace st cid r) = (wfields st)(cid \<mapsto> r)"
  proof
    fix y show "wfields (handleJoinWorkspace st cid r) y = ((wfields st)(cid \<mapsto> r)) y"
      by (cases "clients st y") (simp_all add: wfields_def handleJoinWorkspace_clients[OF assms] assms)
  qed
  show "bfields (handleJoinWorkspace st cid r) = bfields st"
  proof
    fix y show "bfields (handleJoinWorkspace st cid r) y = bfields st y"
      by (cases "clients st y") (auto simp: bfields_def handleJoinWorkspace_clients[OF assms] assms)
  qed
qed

lemma handleJoinBoard_fields:
  assumes "clients st cid = Some c"
  shows "bfields (handleJoinBoard st cid r) = (bfields st)(cid \<mapsto> r)"
    and "wfields (handleJoinBoard st cid r) = wfields st"
proof -
  show "bfields (handleJoinBoard st cid r) = (bfields st)(cid \<mapsto> r)"
  proof
    fix y show "bfields (handleJoinBoard st cid r) y = ((bfields st)(cid \<mapsto> r)) y"
      by (cases "clients st y") (simp_all add: bfields_def handleJoinBoard_clients[OF assms] assms)
  qed
  show "wfields (handleJoinBoard st cid r) = wfields st"
  proof
    fix y show "wfields (handleJoinBoard st cid r) y = wfields st y"
      by (cases "clients st y") (auto simp: wfields_def handleJoinBoard_clients[OF assms] assms)
  qed
qed

lemma handleDisconnect_fields:
  assumes "clients st cid = Some c"
  shows "wfields (handleDisconnect st cid) = (wfields st)(cid := None)"
    and "bfields (handleDisconnect st cid) = (bfields st)(cid := None)"
proof -
  show "wfields (handleDisconnect st cid) = (wfields st)(cid := None)"
  proof
    fix y show "wfields (handleDisconnect st cid) y = ((wfields st)(cid := None)) y"
      by (cases "clients st y") (simp_all add: wfields_def handleDisconnect_clients[OF assms])
  qed
  show "bfields (handleDisconnect st cid) = (bfields st)(cid := None)"
  proof
    fix y show "bfields (handleDisconnect st cid) y = ((bfields st)(cid := None)) y"
      by (cases "clients st y") (simp_all add: bfields_def handleDisconnect_clients[OF assms])
  qed
qed

lemma rooms_agree_handleJoinWorkspace:
  assumes "rooms_agree st" "truthy r"
  shows "rooms_agree (handleJoinWorkspace st cid r)"
proof (cases "clients st cid")
  case None
  then show ?thesis using assms by (simp add: handleJoinWorkspace_unregistered)
next
  case (Some c)
  have f: "wfields st cid = Some (workspaceId c)" by (simp add: wfields_def Some)
  show ?thesis
    using assms room_inv_join[of "workspaceClients st" "wfields st" cid "workspaceId c" r] f
    by (simp add: rooms_agree_def handleJoinWorkspace_index[OF Some] handleJoinWorkspace_fields[OF Some])
qed

lemma rooms_agree_handleJoinBoard:
  assumes "rooms_agree st" "truthy r"
  shows "rooms_agree (handleJoinBoard st cid r)"
proof (cases "clients st cid")
  case None
  then show ?thesis using assms by (simp add: handleJoinBoard_unregistered)
next
  case (Some c)
  have f: "bfields st cid = Some (boardId c)" by (simp add: bfields_def Some)
  show ?thesis
    using assms room_inv_join[of "boardClients st" "bfields st" cid "boardId c" r] f
    by (simp add: rooms_agree_def handleJoinBoard_index[OF Some] handleJoinBoard_fields[OF Some])
qed

lemma rooms_agree_handleDisconnect:
  assumes "rooms_agree st"
  shows "rooms_agree (handleDisconnect st cid)"
proof (cases "clients st cid")
  case None
  then show ?thesis using assms by (simp add: handleDisconnect_unregistered)
next
  case (Some c)
  have f: "wfields st cid = Some (workspaceId c)" "bfields st cid = Some (boardId c)"
    by (simp_all add: wfields_def bfields_def Some)
  show ?thesis
    using assms room_inv_vacate[of "workspaceClients st" "wfields st" cid "workspaceId c"]
      room_inv_vacate[of "boardClients st" "bfields st" cid "boardId c"] f
    by (simp add: rooms_agree_def handleDisconnect_index[OF Some] handleDisconnect_fields[OF Some])
qed

lemma fields_broadcastToBoard [simp]:
  "wfields (broadcastToBoard st r m ex) = wfields st"
  "bfields (broadcastToBoard st r m ex) = bfields st"
  by (rule ext, simp add: wfields_def bfields_def broadcastToBoard_clients option.map_comp comp_def)+

lemma fields_broadcastToWorkspace [simp]:
  "wfields (broadcastToWorkspace st r m ex) = wfields st"
  "bfields (broadcastToWorkspace st r m ex) = bfields st"
  by (rule ext, simp add: wfields_def bfields_def broadcastToWorkspace_clients option.map_comp comp_def)+

lemma rooms_agree_cong:
  "workspaceClients st' = workspaceClients st \<Longrightarrow> boardClients st' = boardClients st \<Longrightarrow>
   wfields st' = wfields st \<Longrightarrow> bfields st' = bfields st \<Longrightarrow> rooms_agree st' = rooms_agree st"
  by (simp add: rooms_agree_def)

lemma rooms_agree_broadcastToBoard [simp]: "rooms_agree (broadcastToBoard st r m ex) = rooms_agree st"
  by (rule rooms_agree_cong) simp_all

lemma rooms_agree_console [simp]: "rooms_agree (st\<lparr>console := l\<rparr>) = rooms_agree st"
  by (rule rooms_agree_cong) (simp_all add: wfields_def bfields_def)

lemma rooms_agree_handleCardMoved [simp]: "rooms_agree (handleCardMoved st cid p now) = rooms_agree st"
  by (simp add: handleCardMoved_def split: option.splits)

lemma rooms_agree_handleCardCreated [simp]: "rooms_agree (handleCardCreated st cid p now) = rooms_agree st"
  by (simp add: handleCardCreated_def split: option.splits)

lemma rooms_agree_handleUserTyping [simp]: "rooms_agree (handleUserTyping st cid p) = rooms_agree st"
  by (simp add: handleUserTyping_def split: option.splits)

lemma rooms_agree_handleCursorMove [simp]: "rooms_agree (handleCursorMove st cid p) = rooms_agree st"
  by (simp add: handleCursorMove_def split: option.splits)

lemma rooms_agree_handleMessage:
  assumes "rooms_agree st" "case join_target m of None \<Rightarrow> True | Some r \<Rightarrow> truthy r"
    and "handleMessage st cid now m = Inr st'"
  shows "rooms_agree st'"
  using assms
  by (auto simp: handleMessage_def join_target_def rooms_agree_handleJoinWorkspace rooms_agree_handleJoinBoard
      split: sum.splits if_splits)

lemma rooms_agree_on_message:
  assumes "rooms_agree st" "truthy_join (Message cid data now)"
  shows "rooms_agree (on_message st cid data now)"
proof (cases data)
  case Malformed
  then show ?thesis using assms by (simp add: on_message_def)
next
  case (Json m)
  show ?thesis
  proof (cases "handleMessage st cid now m")
    case (Inl e)
    then show ?thesis using assms Json by (simp add: on_message_def)
  next
    case (Inr st')
    then show ?thesis using assms Json rooms_agree_handleMessage[of st m cid now st']
      by (simp add: on_message_def)
  qed
qed

lemma on_connection_index [simp]:
  "workspaceClients (on_connection st cid) = workspaceClients st"
  "boardClients (on_connection st cid) = boardClients st"
  "console (on_connection st cid) = console st @ [ClientConnected cid]"
  by (simp_all add: on_connection_def Let_def)

lemma on_connection_clients:
  "clients (on_connection st cid) =
     (clients st)(cid \<mapsto>
        \<lparr>ws = \<lparr>readyState = OPEN,
               sent = [stringify (envelope ''connected'' [(''clientId'', JStr cid)])]\<rparr>,
         userId = JUndefined, workspaceId = JUndefined, boardId = JUndefined\<rparr>)"
  by (simp add: on_connection_def Let_def ws_send_def)

lemma rooms_agree_on_connection:
  assumes "rooms_agree st" "clients st cid = None"
  shows "rooms_agree (on_connection st cid)"
proof -
  have "wfields (on_connection st cid) = (wfields st)(cid \<mapsto> JUndefined)"
    "bfields (on_connection st cid) = (bfields st)(cid \<mapsto> JUndefined)"
    by (rule ext, simp add: wfields_def bfields_def on_connection_clients)+
  moreover have "wfields st cid = None" "bfields st cid = None"
    using assms(2) by (simp_all add: wfields_def bfields_def)
  ultimately show ?thesis
    using assms(1) room_inv_connect[of "workspaceClients st" "wfields st" cid]
      room_inv_connect[of "boardClients st" "bfields st" cid]
    by (simp add: rooms_agree_def)
qed

lemma rooms_agree_step:
  assumes "rooms_agree st" "truthy_join ev"
  shows "rooms_agree (step st ev)"
proof (cases ev)
  case (Connection cid)
  then show ?thesis using assms rooms_agree_on_connection[of st cid] by (cases "clients st cid") auto
next
  case (Message cid data now)
  then show ?thesis using assms rooms_agree_on_message[of st cid data now] by simp
next
  case (Close cid)
  then show ?thesis using assms rooms_agree_handleDisconnect[of "st\<lparr>console := console st @ [ClientDisconnected cid]\<rparr>" cid]
    by (simp add: on_close_def)
next
  case (Error cid)
  then show ?thesis using assms by (simp add: on_error_def)
next
  case (Transport cid rs)
  have "rooms_agree (st\<lparr>clients := (clients st)(cid \<mapsto> c\<lparr>ws := (ws c)\<lparr>readyState := rs\<rparr>\<rparr>)\<rparr>) = rooms_agree st"
    if "clients st cid = Some c" for c
    by (rule rooms_agree_cong) (auto simp: wfields_def bfields_def that)
  then show ?thesis using assms Transport by (simp split: option.splits)
qed

lemma rooms_agree_init: "rooms_agree init"
  by (simp add: rooms_agree_def room_inv_def init_def wfields_def bfields_def)

lemma run_snoc: "run (evs @ [ev]) = step (run evs) ev"
  by (simp add: run_def)

lemma rooms_agree_run: "\<forall>ev\<in>set evs. truthy_join ev \<Longrightarrow> rooms_agree (run evs)"
proof (induction evs rule: rev_induct)
  case Nil
  show ?case by (simp add: run_def rooms_agree_init)
next
  case (snoc ev evs)
  then show ?case by (simp add: run_snoc rooms_agree_step)
qed

subsection \<open>Member lists without duplicates, and what a join sends\<close>

lemma wf_idx_vacate: "wf_idx idx \<Longrightarrow> wf_idx (vacate idx p cid)"
  by (auto simp: wf_idx_def vacate_def set_delete_def distinct_removeAll split: option.splits if_splits)

lemma wf_idx_enter: "wf_idx idx \<Longrightarrow> wf_idx (enter idx r cid)"
  by (auto simp: wf_idx_def enter_def set_add_def split: option.splits if_splits)

lemma room_inv_wf_idx: "room_inv idx fm \<Longrightarrow> wf_idx idx"
  by (simp add: room_inv_def wf_idx_def)

lemma rooms_agree_wf_sets: "rooms_agree st \<Longrightarrow> wf_sets st"
  using room_inv_wf_idx[of "workspaceClients st" "wfields st"]
    room_inv_wf_idx[of "boardClients st" "bfields st"]
  by (simp add: rooms_agree_def wf_sets_def)

lemma room_size_card: "wf_idx idx \<Longrightarrow> room_size idx r = card (members idx r)"
  by (auto simp: wf_idx_def room_size_def members_def set_size_def distinct_card split: option.splits)

lemma count_list_distinct: "distinct xs \<Longrightarrow> count_list xs y = (if y \<in> set xs then 1 else 0)"
  by (induction xs) auto

lemma joined_list_enter: "enter (vacate idx p cid) r cid r = Some (joined_list idx p r cid)"
  by (simp add: enter_def joined_list_def)

lemma joined_list_set: "set (joined_list idx p r cid) = members (enter (vacate idx p cid) r cid) r"
  by (simp add: members_def joined_list_enter)

lemma joined_list_size: "set_size (joined_list idx p r cid) = room_size (enter (vacate idx p cid) r cid) r"
  by (simp add: room_size_def joined_list_enter)

lemma joined_list_distinct: "wf_idx idx \<Longrightarrow> distinct (joined_list idx p r cid)"
  using wf_idx_enter[OF wf_idx_vacate, of idx p cid r cid] joined_list_enter[of idx p cid r]
  by (simp add: wf_idx_def)

lemma outbox_recv:
  "clients st' y = map_option (recv n m) (clients st y) \<Longrightarrow>
   outbox st' y = outbox st y @ (if is_open st y then replicate n m else [])"
  by (cases "clients st y") (simp_all add: outbox_def is_open_def)

lemma handleJoinWorkspace_outbox:
  assumes wf: "wf_sets st" and reg: "clients st cid = Some c"
  shows "outbox (handleJoinWorkspace st cid r) y =
     outbox st y @
       (if y = cid
        then [stringify (envelope ''workspace_users''
                [(''count'', JNum (of_nat (card (members (workspaceClients (handleJoinWorkspace st cid r)) r))))])]
        else if y \<in> members (workspaceClients (handleJoinWorkspace st cid r)) r \<and> is_open st y
        then [stringify (envelope ''user_joined'' [(''userId'', userId c), (''workspaceId'', r)])]
        else [])"
proof -
  let ?idx = "workspaceClients st" and ?p = "workspaceId c"
  have wi: "wf_idx ?idx" using wf by (simp add: wf_sets_def)
  have idx': "workspaceClients (handleJoinWorkspace st cid r) = enter (vacate ?idx ?p cid) r cid"
    by (rule handleJoinWorkspace_index[OF reg])
  have wi': "wf_idx (enter (vacate ?idx ?p cid) r cid)"
    by (rule wf_idx_enter[OF wf_idx_vacate[OF wi]])
  have size: "set_size (joined_list ?idx ?p r cid) = card (members (enter (vacate ?idx ?p cid) r cid) r)"
    by (simp add: joined_list_size room_size_card[OF wi'])
  show ?thesis
  proof (cases "y = cid")
    case True
    then show ?thesis
      by (simp add: outbox_def handleJoinWorkspace_clients[OF reg] reg idx' size)
  next
    case False
    have "clients (handleJoinWorkspace st cid r) y =
            map_option (recv (count_list (joined_list ?idx ?p r cid) y)
              (stringify (envelope ''user_joined'' [(''userId'', userId c), (''workspaceId'', r)])))
              (clients st y)"
      using False by (simp add: handleJoinWorkspace_clients[OF reg])
    from outbox_recv[OF this] show ?thesis
      using False
      by (simp add: idx' count_list_distinct[OF joined_list_distinct[OF wi]] joined_list_set)
  qed
qed

lemma handleJoinBoard_outbox:
  assumes wf: "wf_sets st" and reg: "clients st cid = Some c"
  shows "outbox (handleJoinBoard st cid r) y =
     outbox st y @
       (if y = cid
        then [stringify (envelope ''board_users''
                [(''count'', JNum (of_nat (card (members (boardClients (handleJoinBoard st cid r)) r))))])]
        else if y \<in> members (boardClients (handleJoinBoard st cid r)) r \<and> is_open st y
        then [stringify (envelope ''user_joined_board'' [(''userId'', userId c), (''boardId'', r)])]
        else [])"
proof -
  let ?idx = "boardClients st" and ?p = "boardId c"
  have wi: "wf_idx ?idx" using wf by (simp add: wf_sets_def)
  have idx': "boardClients (handleJoinBoard st cid r) = enter (vacate ?idx ?p cid) r cid"
    by (rule handleJoinBoard_index[OF reg])
  have wi': "wf_idx (enter (vacate ?idx ?p cid) r cid)"
    by (rule wf_idx_enter[OF wf_idx_vacate[OF wi]])
  have size: "set_size (joined_list ?idx ?p r cid) = card (members (enter (vacate ?idx ?p cid) r cid) r)"
    by (simp add: joined_list_size room_size_card[OF wi'])
  show ?thesis
  proof (cases "y = cid")
    case True
    then show ?thesis
      by (simp add: outbox_def handleJoinBoard_clients[OF reg] reg idx' size)
  next
    case False
    have "clients (handleJoinBoard st cid r) y =
            map_option (recv (count_list (joined_list ?idx ?p r cid) y)
              (stringify (envelope ''user_joined_board'' [(''userId'', userId c), (''boardId'', r)])))
              (clients st y)"
      using False by (simp add: handleJoinBoard_clients[OF reg])
    from outbox_recv[OF this] show ?thesis
      using False
      by (simp add: idx' count_list_distinct[OF joined_list_distinct[OF wi]] joined_list_set)
  qed
qed

subsection \<open>Board events of a connection without a board\<close>

lemma get_prop_total:
  "get_prop m k = Inr v \<Longrightarrow> \<exists>w. get_prop m k' = Inr w"
  by (cases m) simp_all

lemma board_event_noop:
  assumes "clients st cid = Some c" "boardId c = JUndefined"
  shows "handleCardMoved st cid payload now = st"
    and "handleCardCreated st cid payload now = st"
    and "handleUserTyping st cid payload = st"
    and "handleCursorMove st cid payload = st"
  using assms
  by (simp_all add: handleCardMoved_def handleCardCreated_def handleUserTyping_def
      handleCursorMove_def)

subsection \<open>The console does not steer the handlers\<close>

lemma ws_send_console: "ws_send (st\<lparr>console := l\<rparr>) x m = (ws_send st x m)\<lparr>console := l\<rparr>"
  by (simp add: ws_send_def split: option.splits)

lemma deliver_console:
  "deliver m ex x (st\<lparr>console := l\<rparr>) = (deliver m ex x st)\<lparr>console := l\<rparr>"
  by (simp add: deliver_def ws_send_console split: option.splits)

lemma fold_deliver_console:
  "fold (deliver m ex) xs (st\<lparr>console := l\<rparr>) = (fold (deliver m ex) xs st)\<lparr>console := l\<rparr>"
  by (induction xs arbitrary: st) (simp_all add: deliver_console)

lemma broadcastToWorkspace_console:
  "broadcastToWorkspace (st\<lparr>console := l\<rparr>) r m ex = (broadcastToWorkspace st r m ex)\<lparr>console := l\<rparr>"
  by (simp add: broadcastToWorkspace_def fold_deliver_console split: option.splits)

lemma broadcastToBoard_console:
  "broadcastToBoard (st\<lparr>console := l\<rparr>) r m ex = (broadcastToBoard st r m ex)\<lparr>console := l\<rparr>"
  by (simp add: broadcastToBoard_def fold_deliver_console split: option.splits)

lemma same_core_console [simp]: "same_core (st\<lparr>console := l\<rparr>) st" "same_core st (st\<lparr>console := l\<rparr>)"
  by (simp_all add: same_core_def)

lemma same_core_refl [simp]: "same_core st st"
  by (simp add: same_core_def)

lemma same_coreD: "same_core s t \<Longrightarrow> t = s\<lparr>console := console t\<rparr>"
  by (cases s, cases t) (simp add: same_core_def)

lemma same_core_trans: "same_core s t \<Longrightarrow> same_core t u \<Longrightarrow> same_core s u"
  by (simp add: same_core_def)

lemma state_eqI:
  "clients s = clients t \<Longrightarrow> workspaceClients s = workspaceClients t \<Longrightarrow>
   boardClients s = boardClients t \<Longrightarrow> console s = console t \<Longrightarrow> s = (t::state)"
  by (cases s, cases t) simp

lemma handleJoinWorkspace_console:
  "handleJoinWorkspace (st\<lparr>console := l\<rparr>) cid r = (handleJoinWorkspace st cid r)\<lparr>console := l\<rparr>"
proof (cases "clients st cid")
  case None
  then show ?thesis by (simp add: handleJoinWorkspace_def)
next
  case (Some c)
  have c': "clients (st\<lparr>console := l\<rparr>) cid = Some c" using Some by simp
  show ?thesis
  proof (rule state_eqI)
    show "clients (handleJoinWorkspace (st\<lparr>console := l\<rparr>) cid r)
            = clients ((handleJoinWorkspace st cid r)\<lparr>console := l\<rparr>)"
      by (rule ext) (simp add: handleJoinWorkspace_clients[OF c'] handleJoinWorkspace_clients[OF Some])
  qed (simp_all add: handleJoinWorkspace_index[OF c'] handleJoinWorkspace_index[OF Some])
qed

lemma handleJoinBoard_console:
  "handleJoinBoard (st\<lparr>console := l\<rparr>) cid r = (handleJoinBoard st cid r)\<lparr>console := l\<rparr>"
proof (cases "clients st cid")
  case None
  then show ?thesis by (simp add: handleJoinBoard_def)
next
  case (Some c)
  have c': "clients (st\<lparr>console := l\<rparr>) cid = Some c" using Some by simp
  show ?thesis
  proof (rule state_eqI)
    show "clients (handleJoinBoard (st\<lparr>console := l\<rparr>) cid r)
            = clients ((handleJoinBoard st cid r)\<lparr>console := l\<rparr>)"
      by (rule ext) (simp add: handleJoinBoard_clients[OF c'] handleJoinBoard_clients[OF Some])
  qed (simp_all add: handleJoinBoard_index[OF c'] handleJoinBoard_index[OF Some])
qed

lemma handleCardMoved_console:
  "handleCardMoved (st\<lparr>console := l\<rparr>) cid p now = (handleCardMoved st cid p now)\<lparr>console := l\<rparr>"
  by (simp add: handleCardMoved_def broadcastToBoard_console split: option.splits)

lemma handleCardCreated_console:
  "handleCardCreated (st\<lparr>console := l\<rparr>) cid p now = (handleCardCreated st cid p now)\<lparr>console := l\<rparr>"
  by (simp add: handleCardCreated_def broadcastToBoard_console split: option.splits)

lemma handleUserTyping_console:
  "handleUserTyping (st\<lparr>console := l\<rparr>) cid p = (handleUserTyping st cid p)\<lparr>console := l\<rparr>"
  by (simp add: handleUserTyping_def broadcastToBoard_console split: option.splits)

lemma handleCursorMove_console:
  "handleCursorMove (st\<lparr>console := l\<rparr>) cid p = (handleCursorMove st cid p)\<lparr>console := l\<rparr>"
  by (simp add: handleCursorMove_def broadcastToBoard_console split: option.splits)

lemmas handler_console = handleJoinWorkspace_console handleJoinBoard_console
  handleCardMoved_console handleCardCreated_console handleUserTyping_console
  handleCursorMove_console

lemma handleMessage_console:
  "rel_sum (=) same_core (handleMessage (st\<lparr>console := l\<rparr>) cid now m) (handleMessage st cid now m)"
  by (auto simp: handleMessage_def handler_console same_core_def split: sum.splits)

lemma on_message_same_core:
  assumes "same_core s t"
  shows "same_core (on_message s cid data now) (on_message t cid data now)"
proof -
  have t: "t = s\<lparr>console := console t\<rparr>" by (rule same_coreD[OF assms])
  have *: "same_core (on_message s cid data now) (on_message (s\<lparr>console := l\<rparr>) cid data now)" for l
  proof (cases data)
    case Malformed
    then show ?thesis by (simp add: on_message_def same_core_def)
  next
    case (Json m)
    show ?thesis
      using handleMessage_console[where st = s and l = l and cid = cid and now = now and m = m] Json
      by (cases "handleMessage s cid now m"; cases "handleMessage (s\<lparr>console := l\<rparr>) cid now m")
         (auto simp: on_message_def same_core_def)
  qed
  show ?thesis using *[of "console t"] t by simp
qed

lemma dropped_message:
  assumes "data = Malformed \<or> (\<exists>m. data = Json m \<and> \<not> known_type m)"
  shows "on_message st cid data now = st\<lparr>console := console st @ [drop_log data]\<rparr>"
proof (cases data)
  case Malformed
  then show ?thesis by (simp add: on_message_def drop_log_def)
next
  case (Json m)
  then have k: "\<not> known_type m" using assms by simp
  show ?thesis
  proof (cases "get_prop m ''type''")
    case (Inl e)
    then show ?thesis using Json by (simp add: on_message_def drop_log_def handleMessage_def)
  next
    case (Inr t)
    then have "t \<noteq> JStr ''join_workspace''" "t \<noteq> JStr ''join_board''"
      "t \<noteq> JStr ''card_moved''" "t \<noteq> JStr ''card_created''"
      "t \<noteq> JStr ''user_typing''" "t \<noteq> JStr ''cursor_move''"
      using k by (auto simp: known_type_def message_types_def board_event_types_def)
    then show ?thesis using Json Inr by (simp add: on_message_def drop_log_def handleMessage_def)
  qed
qed

subsection \<open>Evaluating runs\<close>

lemmas eval_defs = run_def init_def on_connection_def on_message_def on_close_def on_error_def
  handleMessage_def handleJoinWorkspace_def handleJoinBoard_def handleDisconnect_def
  handleCardMoved_def handleCardCreated_def handleUserTyping_def handleCursorMove_def
  broadcastToWorkspace_def broadcastToBoard_def deliver_def ws_send_def envelope_def
  set_add_def set_delete_def set_size_def obj_set_def spread_def Let_def members_def
  outbox_def is_open_def client_frame_def join_workspace_frame_def join_board_frame_def

lemma init_console: "console init = []"
  by (simp add: init_def)

subsection \<open>A join message and the connection that sent it\<close>

lemma on_message_join_workspace:
  "on_message st cid (join_workspace_frame r) now = handleJoinWorkspace st cid r"
  by (simp add: on_message_def handleMessage_def join_workspace_frame_def client_frame_def)

lemma on_message_join_board:
  "on_message st cid (join_board_frame r) now = handleJoinBoard st cid r"
  by (simp add: on_message_def handleMessage_def join_board_frame_def client_frame_def)

lemma handleJoinWorkspace_joiner:
  assumes reg: "clients st cid = Some c"
  shows "map_option workspaceId (clients (handleJoinWorkspace st cid r) cid) = Some r"
    and "cid \<in> members (workspaceClients (handleJoinWorkspace st cid r)) r"
    and "outbox (handleJoinWorkspace st cid r) cid =
           outbox st cid @
             [stringify (envelope ''workspace_users''
                [(''count'', JNum (of_nat (room_size
                    (workspaceClients (handleJoinWorkspace st cid r)) r)))])]"
  by (simp_all add: handleJoinWorkspace_clients[OF reg] handleJoinWorkspace_index[OF reg]
      members_enter joined_list_size outbox_def reg push_def)

lemma handleJoinBoard_joiner:
  assumes reg: "clients st cid = Some c"
  shows "map_option boardId (clients (handleJoinBoard st cid r) cid) = Some r"
    and "cid \<in> members (boardClients (handleJoinBoard st cid r)) r"
    and "outbox (handleJoinBoard st cid r) cid =
           outbox st cid @
             [stringify (envelope ''board_users''
                [(''count'', JNum (of_nat (room_size
                    (boardClients (handleJoinBoard st cid r)) r)))])]"
  by (simp_all add: handleJoinBoard_clients[OF reg] handleJoinBoard_index[OF reg]
      members_enter joined_list_size outbox_def reg push_def)

subsection \<open>Every run keeps the member lists free of duplicates\<close>

lemma wf_sets_cong:
  "workspaceClients st' = workspaceClients st \<Longrightarrow> boardClients st' = boardClients st \<Longrightarrow>
   wf_sets st' = wf_sets st"
  by (simp add: wf_sets_def)

lemma wf_sets_handleJoinWorkspace: "wf_sets st \<Longrightarrow> wf_sets (handleJoinWorkspace st cid r)"
  by (cases "clients st cid")
     (simp_all add: handleJoinWorkspace_unregistered wf_sets_def handleJoinWorkspace_index
        wf_idx_enter wf_idx_vacate)

lemma wf_sets_handleJoinBoard: "wf_sets st \<Longrightarrow> wf_sets (handleJoinBoard st cid r)"
  by (cases "clients st cid")
     (simp_all add: handleJoinBoard_unregistered wf_sets_def handleJoinBoard_index
        wf_idx_enter wf_idx_vacate)

lemma wf_sets_handleDisconnect: "wf_sets st \<Longrightarrow> wf_sets (handleDisconnect st cid)"
  by (cases "clients st cid")
     (simp_all add: handleDisconnect_unregistered wf_sets_def handleDisconnect_index wf_idx_vacate)

lemma board_event_index [simp]:
  "workspaceClients (handleCardMoved st cid p now) = workspaceClients st"
  "boardClients (handleCardMoved st cid p now) = boardClients st"
  "workspaceClients (handleCardCreated st cid p now) = workspaceClients st"
  "boardClients (handleCardCreated st cid p now) = boardClients st"
  "workspaceClients (handleUserTyping st cid p) = workspaceClients st"
  "boardClients (handleUserTyping st cid p) = boardClients st"
  "workspaceClients (handleCursorMove st cid p) = workspaceClients st"
  "boardClients (handleCursorMove st cid p) = boardClients st"
  by (simp_all add: handleCardMoved_def handleCardCreated_def handleUserTyping_def
      handleCursorMove_def split: option.splits)

lemma wf_sets_board_event [simp]:
  "wf_sets (handleCardMoved st cid p now) = wf_sets st"
  "wf_sets (handleCardCreated st cid p now) = wf_sets st"
  "wf_sets (handleUserTyping st cid p) = wf_sets st"
  "wf_sets (handleCursorMove st cid p) = wf_sets st"
  "wf_sets (st\<lparr>console := l\<rparr>) = wf_sets st"
  by (rule wf_sets_cong; simp)+

lemma wf_sets_handleMessage:
  "wf_sets st \<Longrightarrow> handleMessage st cid now m = Inr st' \<Longrightarrow> wf_sets st'"
  by (auto simp: handleMessage_def wf_sets_handleJoinWorkspace wf_sets_handleJoinBoard
      split: sum.splits if_splits)

lemma wf_sets_step:
  assumes w: "wf_sets st"
  shows "wf_sets (step st ev)"
proof (cases ev)
  case (Connection cid)
  then show ?thesis using w by (simp add: wf_sets_def)
next
  case (Message cid data now)
  show ?thesis
  proof (cases data)
    case Malformed
    then show ?thesis using w Message by (simp add: on_message_def wf_sets_def)
  next
    case (Json m)
    then show ?thesis using w Message wf_sets_handleMessage[of st cid now m]
      by (cases "handleMessage st cid now m") (auto simp: on_message_def wf_sets_def)
  qed
next
  case (Close cid)
  have "wf_sets (st\<lparr>console := console st @ [ClientDisconnected cid]\<rparr>)"
    using w by (simp add: wf_sets_def)
  then show ?thesis using Close w by (simp add: on_close_def wf_sets_handleDisconnect)
next
  case (Error cid)
  then show ?thesis using w by (simp add: on_error_def wf_sets_def)
next
  case (Transport cid rs)
  then show ?thesis using w by (simp add: wf_sets_def split: option.splits)
qed

lemma wf_sets_run: "wf_sets (run evs)"
proof (induction evs rule: rev_induct)
  case Nil
  show ?case by (simp add: run_def init_def wf_sets_def wf_idx_def)
next
  case (snoc ev evs)
  then show ?case by (simp add: run_snoc wf_sets_step)
qed

lemma connected_client:
  "clients (on_connection st cid) cid =
     Some \<lparr>ws = \<lparr>readyState = OPEN,
               sent = [stringify (envelope ''connected'' [(''clientId'', JStr cid)])]\<rparr>,
           userId = JUndefined, workspaceId = JUndefined, boardId = JUndefined\<rparr>"
  by (simp add: on_connection_clients)

subsection \<open>Joining again\<close>

lemma members_rejoin:
  assumes "cid \<in> members idx r"
  shows "members (enter (vacate idx r cid) r cid) q = members idx q"
proof (cases "truthy r")
  case True
  show ?thesis using assms by (auto simp: members_enter members_vacate[OF True])
next
  case False
  show ?thesis using assms by (auto simp: members_enter vacate_falsy[OF False])
qed

subsection \<open>What a disconnect does\<close>

lemma count_list_removeAll: "y \<noteq> x \<Longrightarrow> count_list (removeAll x xs) y = count_list xs y"
  by (induction xs) auto

lemma room_inv_falsy_empty: "room_inv idx fm \<Longrightarrow> \<not> truthy p \<Longrightarrow> members idx p = {}"
  using room_invD(1)[of idx fm p] by (cases "idx p") (auto simp: members_def)

lemma members_vacate_inv:
  assumes inv: "room_inv idx fm" and f: "fm cid = Some p"
  shows "members (vacate idx p cid) r = members idx r - {cid}"
proof (cases "truthy p")
  case True
  have "cid \<notin> members idx r" if "r \<noteq> p"
    using room_inv_member[OF inv, of cid r] f that by auto
  then show ?thesis by (auto simp: members_vacate[OF True])
next
  case False
  have "cid \<notin> members idx r"
  proof
    assume "cid \<in> members idx r"
    then have "fm cid = Some r" "truthy r"
      using room_inv_member[OF inv] room_inv_falsy_empty[OF inv, of r] by auto
    then show False using f False by simp
  qed
  then show ?thesis by (simp add: vacate_falsy[OF False])
qed

lemma room_inv_no_empty_room: "room_inv idx fm \<Longrightarrow> members idx r = {} \<Longrightarrow> idx r = None"
  using room_invD(2)[of idx fm r] by (cases "idx r") (auto simp: members_def)

lemma in_own_roomD:
  assumes "in_own_room idx p cid"
  shows "cid \<in> members idx r \<Longrightarrow> r = p"
    and "cid \<in> members idx r \<Longrightarrow> truthy p"
    and "truthy p \<Longrightarrow> cid \<in> members idx p"
  using assms unfolding in_own_room_def by blast+

lemma room_inv_in_own_room:
  assumes i: "room_inv idx fm" and f: "fm cid = Some p"
  shows "in_own_room idx p cid"
  unfolding in_own_room_def
proof (intro allI iffI conjI)
  fix r assume m: "cid \<in> members idx r"
  then have "fm cid = Some r" by (rule room_inv_member[OF i])
  then show "r = p" using f by simp
  show "truthy p"
  proof (rule ccontr)
    assume "\<not> truthy p"
    then have "members idx p = {}" by (rule room_inv_falsy_empty[OF i])
    then show False using m \<open>r = p\<close> by simp
  qed
next
  fix r assume "r = p \<and> truthy p"
  then show "cid \<in> members idx r"
    using room_invD(6)[OF i f] truthy_defined[of p] by blast
qed

lemma rooms_agree_in_own_room:
  assumes "rooms_agree st" "clients st cid = Some c"
  shows "in_own_room (workspaceClients st) (workspaceId c) cid"
    and "in_own_room (boardClients st) (boardId c) cid"
  using assms room_inv_in_own_room[of "workspaceClients st" "wfields st" cid "workspaceId c"]
    room_inv_in_own_room[of "boardClients st" "bfields st" cid "boardId c"]
  by (simp_all add: rooms_agree_def wfields_def bfields_def)

lemma left_copies_own:
  assumes w: "wf_idx idx" and o: "in_own_room idx p cid" and y: "y \<noteq> cid"
  shows "left_copies idx p cid y =
           (if y \<in> members idx p \<and> cid \<in> members idx p then 1 else 0)"
proof (cases "truthy p")
  case False
  then have "cid \<notin> members idx p" using in_own_roomD(2)[OF o] by blast
  then show ?thesis using False by (simp add: left_copies_def)
next
  case True
  then have c: "cid \<in> members idx p" by (rule in_own_roomD(3)[OF o])
  then obtain xs where xs: "idx p = Some xs" by (cases "idx p") (simp_all add: members_def)
  have "distinct xs" using w xs by (simp add: wf_idx_def)
  then show ?thesis using True xs c y
    by (simp add: left_copies_def members_def set_delete_def count_list_removeAll
        count_list_distinct)
qed

lemma members_vacate_own:
  assumes o: "in_own_room idx p cid"
  shows "members (vacate idx p cid) r = members idx r - {cid}"
proof (cases "truthy p")
  case True
  have "cid \<notin> members idx r" if "r \<noteq> p"
    using in_own_roomD(1)[OF o, of r] that by blast
  then show ?thesis by (auto simp: members_vacate[OF True])
next
  case False
  then have "cid \<notin> members idx r" using in_own_roomD(2)[OF o] by blast
  then show ?thesis by (simp add: vacate_falsy[OF False])
qed

lemma vacate_last_member:
  assumes o: "in_own_room idx p cid" and m: "members idx r = {cid}"
  shows "vacate idx p cid r = None"
proof -
  have c: "cid \<in> members idx r" using m by simp
  have r: "r = p" by (rule in_own_roomD(1)[OF o c])
  have t: "truthy p" by (rule in_own_roomD(2)[OF o c])
  obtain xs where xs: "idx p = Some xs" "set xs = {cid}"
    using m r by (cases "idx p") (auto simp: members_def)
  have "set (removeAll cid xs) = {}" using xs(2) by simp
  then have "removeAll cid xs = []" by (simp only: set_empty)
  then show ?thesis using vacate_same[of p idx xs cid] t xs(1) r by simp
qed

lemma handleDisconnect_outbox:
  assumes wf: "wf_sets st" and reg: "clients st cid = Some c"
    and ow: "in_own_room (workspaceClients st) (workspaceId c) cid"
    and ob: "in_own_room (boardClients st) (boardId c) cid"
    and y: "y \<noteq> cid"
  shows "outbox (handleDisconnect st cid) y =
     outbox st y @
       (if y \<in> members (workspaceClients st) (workspaceId c) \<and>
           cid \<in> members (workspaceClients st) (workspaceId c) \<and> is_open st y
        then [stringify (envelope ''user_left''
                [(''userId'', userId c), (''workspaceId'', workspaceId c)])]
        else []) @
       (if y \<in> members (boardClients st) (boardId c) \<and>
           cid \<in> members (boardClients st) (boardId c) \<and> is_open st y
        then [stringify (envelope ''user_left_board''
                [(''userId'', userId c), (''boardId'', boardId c)])]
        else [])"
proof -
  define bw where "bw \<longleftrightarrow> y \<in> members (workspaceClients st) (workspaceId c) \<and>
                        cid \<in> members (workspaceClients st) (workspaceId c)"
  define bb where "bb \<longleftrightarrow> y \<in> members (boardClients st) (boardId c) \<and>
                        cid \<in> members (boardClients st) (boardId c)"
  have wi: "wf_idx (workspaceClients st)" "wf_idx (boardClients st)"
    using wf by (simp_all add: wf_sets_def)
  have w: "left_copies (workspaceClients st) (workspaceId c) cid y = (if bw then 1 else 0)"
    unfolding bw_def by (rule left_copies_own[OF wi(1) ow y])
  have b: "left_copies (boardClients st) (boardId c) cid y = (if bb then 1 else 0)"
    unfolding bb_def by (rule left_copies_own[OF wi(2) ob y])
  have "outbox (handleDisconnect st cid) y =
     outbox st y @
       (if bw \<and> is_open st y
        then [stringify (envelope ''user_left''
                [(''userId'', userId c), (''workspaceId'', workspaceId c)])]
        else []) @
       (if bb \<and> is_open st y
        then [stringify (envelope ''user_left_board''
                [(''userId'', userId c), (''boardId'', boardId c)])]
        else [])"
    using y
    by (cases "clients st y")
       (simp_all add: outbox_def is_open_def handleDisconnect_clients[OF reg] w b)
  then show ?thesis
    unfolding bw_def bb_def conj_assoc .
qed

lemma handleDisconnect_effect:
  assumes reg: "clients st cid = Some c"
    and ow: "in_own_room (workspaceClients st) (workspaceId c) cid"
    and ob: "in_own_room (boardClients st) (boardId c) cid"
  shows "clients (handleDisconnect st cid) cid = None"
    and "members (workspaceClients (handleDisconnect st cid)) r = members (workspaceClients st) r - {cid}"
    and "members (boardClients (handleDisconnect st cid)) r = members (boardClients st) r - {cid}"
    and "members (workspaceClients st) r = {cid} \<Longrightarrow>
           workspaceClients (handleDisconnect st cid) r = None"
    and "members (boardClients st) r = {cid} \<Longrightarrow>
           boardClients (handleDisconnect st cid) r = None"
proof -
  show "clients (handleDisconnect st cid) cid = None"
    by (simp add: handleDisconnect_clients[OF reg])
  show "members (workspaceClients (handleDisconnect st cid)) r = members (workspaceClients st) r - {cid}"
    by (simp add: handleDisconnect_index[OF reg] members_vacate_own[OF ow])
  show "members (boardClients (handleDisconnect st cid)) r = members (boardClients st) r - {cid}"
    by (simp add: handleDisconnect_index[OF reg] members_vacate_own[OF ob])
  show "members (workspaceClients st) r = {cid} \<Longrightarrow>
           workspaceClients (handleDisconnect st cid) r = None"
    by (simp add: handleDisconnect_index[OF reg] vacate_last_member[OF ow])
  show "members (boardClients st) r = {cid} \<Longrightarrow>
           boardClients (handleDisconnect st cid) r = None"
    by (simp add: handleDisconnect_index[OF reg] vacate_last_member[OF ob])
qed

lemma on_close_teardown:
  assumes wf: "wf_sets st" and reg: "clients st cid = Some c"
    and ow: "in_own_room (workspaceClients st) (workspaceId c) cid"
    and ob: "in_own_room (boardClients st) (boardId c) cid"
  shows "console (on_close st cid) = console st @ [ClientDisconnected cid]"
    and "clients (on_close st cid) cid = None"
    and "members (workspaceClients (on_close st cid)) r = members (workspaceClients st) r - {cid}"
    and "members (boardClients (on_close st cid)) r = members (boardClients st) r - {cid}"
    and "members (workspaceClients st) r = {cid} \<Longrightarrow> workspaceClients (on_close st cid) r = None"
    and "members (boardClients st) r = {cid} \<Longrightarrow> boardClients (on_close st cid) r = None"
    and "y \<noteq> cid \<Longrightarrow>
         outbox (on_close st cid) y =
           outbox st y @
             (if y \<in> members (workspaceClients st) (workspaceId c) \<and>
                 cid \<in> members (workspaceClients st) (workspaceId c) \<and> is_open st y
              then [stringify (envelope ''user_left''
                      [(''userId'', userId c), (''workspaceId'', workspaceId c)])]
              else []) @
             (if y \<in> members (boardClients st) (boardId c) \<and>
                 cid \<in> members (boardClients st) (boardId c) \<and> is_open st y
              then [stringify (envelope ''user_left_board''
                      [(''userId'', userId c), (''boardId'', boardId c)])]
              else [])"
proof -
  define s where "s = st\<lparr>console := console st @ [ClientDisconnected cid]\<rparr>"
  have close: "on_close st cid = handleDisconnect s cid"
    by (simp add: on_close_def s_def)
  have same: "workspaceClients s = workspaceClients st" "boardClients s = boardClients st"
    "outbox s = outbox st" "is_open s = is_open st"
    by (simp_all add: s_def outbox_def is_open_def fun_eq_iff)
  have wf': "wf_sets s" using wf by (simp add: wf_sets_def same)
  have reg': "clients s cid = Some c" using reg by (simp add: s_def)
  have ow': "in_own_room (workspaceClients s) (workspaceId c) cid" using ow by (simp add: same)
  have ob': "in_own_room (boardClients s) (boardId c) cid" using ob by (simp add: same)
  note eff = handleDisconnect_effect[OF reg' ow' ob', unfolded same]
  show "console (on_close st cid) = console st @ [ClientDisconnected cid]"
    using handleDisconnect_index(3)[OF reg'] by (simp add: close s_def)
  show "clients (on_close st cid) cid = None"
    unfolding close by (rule eff(1))
  show "members (workspaceClients (on_close st cid)) r = members (workspaceClients st) r - {cid}"
    unfolding close by (rule eff(2))
  show "members (boardClients (on_close st cid)) r = members (boardClients st) r - {cid}"
    unfolding close by (rule eff(3))
  show "members (workspaceClients st) r = {cid} \<Longrightarrow> workspaceClients (on_close st cid) r = None"
    unfolding close by (rule eff(4))
  show "members (boardClients st) r = {cid} \<Longrightarrow> boardClients (on_close st cid) r = None"
    unfolding close by (rule eff(5))
  show "y \<noteq> cid \<Longrightarrow>
         outbox (on_close st cid) y =
           outbox st y @
             (if y \<in> members (workspaceClients st) (workspaceId c) \<and>
                 cid \<in> members (workspaceClients st) (workspaceId c) \<and> is_open st y
              then [stringify (envelope ''user_left''
                      [(''userId'', userId c), (''workspaceId'', workspaceId c)])]
              else []) @
             (if y \<in> members (boardClients st) (boardId c) \<and>
                 cid \<in> members (boardClients st) (boardId c) \<and> is_open st y
              then [stringify (envelope ''user_left_board''
                      [(''userId'', userId c), (''boardId'', boardId c)])]
              else [])"
    unfolding close
    using handleDisconnect_outbox[OF wf' reg' ow' ob', unfolded same] by simp
qed

lemma run_close:
  "clients (run evs) cid = Some c \<Longrightarrow> run (evs @ [Close cid]) = on_close (run evs) cid"
  by (simp add: run_snoc domI)

lemma run_error:
  "clients (run evs) cid = Some c \<Longrightarrow>
   run (evs @ [Error cid]) = (run evs)\<lparr>console := console (run evs) @ [WebSocketError cid]\<rparr>"
  by (simp add: run_snoc domI on_error_def)

subsection \<open>The identity fields of sent frames\<close>

lemma stringify_undefined [simp]: "stringify v = JUndefined \<longleftrightarrow> v = JUndefined"
  by (cases v) simp_all

lemma frame_type_envelope [simp]: "frame_type (stringify (envelope t p)) = JStr t"
  by (simp add: frame_type_def envelope_def)

lemma payload_keys_envelope:
  "payload_keys (stringify (envelope t p)) = {k. \<exists>v. (k, v) \<in> set p \<and> v \<noteq> JUndefined}"
  by (force simp: payload_keys_def envelope_def image_iff)

lemma obj_set_same: "(k, v) \<in> set (obj_set k u fs) \<Longrightarrow> v = u"
  by (auto simp: obj_set_def image_iff split: if_splits)

lemma obj_set_other: "k' \<noteq> k \<Longrightarrow> (k', v) \<in> set (obj_set k u fs) \<longleftrightarrow> (k', v) \<in> set fs"
  by (auto simp: obj_set_def image_iff split: if_splits)

lemma fold_obj_set_other:
  "k \<notin> fst ` set ps \<Longrightarrow>
   (k, v) \<in> set (fold (\<lambda>kv. obj_set (fst kv) (snd kv)) ps obj) \<longleftrightarrow> (k, v) \<in> set obj"
  by (induction ps arbitrary: obj) (auto simp: obj_set_other)

lemma frame_ok_plain:
  "t \<notin> {''card_moved'', ''card_created'', ''user_joined'', ''user_joined_board'', ''user_left'',
         ''user_left_board'', ''user_typing'', ''cursor_move''} \<Longrightarrow>
   frame_ok strict (stringify (envelope t p))"
  by (simp add: frame_ok_def relay_identity_absent_def sender_identity_absent_def)

lemma frame_ok_notice:
  "t \<in> {''user_joined'', ''user_joined_board'', ''user_left'', ''user_left_board''} \<Longrightarrow>
   k \<noteq> ''userId'' \<Longrightarrow>
   frame_ok strict (stringify (envelope t [(''userId'', JUndefined), (k, r)]))"
  by (auto simp: frame_ok_def relay_identity_absent_def sender_identity_absent_def
      payload_keys_envelope)

lemma frame_ok_card_moved:
  "frame_ok strict (stringify (envelope ''card_moved''
     (obj_set ''timestamp'' n (obj_set ''movedBy'' JUndefined fs))))"
  by (auto simp: frame_ok_def relay_identity_absent_def sender_identity_absent_def
      payload_keys_envelope obj_set_other dest: obj_set_same)

lemma frame_ok_card_created:
  "frame_ok strict (stringify (envelope ''card_created''
     (obj_set ''timestamp'' n (obj_set ''createdBy'' JUndefined fs))))"
  by (auto simp: frame_ok_def relay_identity_absent_def sender_identity_absent_def
      payload_keys_envelope obj_set_other dest: obj_set_same)

lemma frame_ok_sender:
  assumes "t \<in> {''user_typing'', ''cursor_move''}"
    and "strict \<longrightarrow> ''userId'' \<notin> fst ` set (own_props p)"
  shows "frame_ok strict (stringify (envelope t (spread p [(''userId'', JUndefined)])))"
proof -
  have "v = JUndefined"
    if "strict" "(''userId'', v) \<in> set (spread p [(''userId'', JUndefined)])" for v
    using that assms(2) fold_obj_set_other[of "''userId''" "own_props p" v "[(''userId'', JUndefined)]"]
    by (simp add: spread_def)
  then show ?thesis using assms(1)
    by (auto simp: frame_ok_def relay_identity_absent_def sender_identity_absent_def
        payload_keys_envelope)
qed

lemma anonymous_weaken: "anonymous strict cs \<Longrightarrow> (strict' \<longrightarrow> strict) \<Longrightarrow> anonymous strict' cs"
  by (auto simp: anonymous_def frame_ok_def)

lemma anonymousD:
  "anonymous strict cs \<Longrightarrow> cs cid = Some c \<Longrightarrow> userId c = JUndefined"
  by (simp add: anonymous_def)

lemma anonymous_recv:
  assumes "anonymous strict cs" and "frame_ok strict m"
    and "\<And>y. cs' y = map_option (recv (n y) m) (cs y)"
  shows "anonymous strict cs'"
  unfolding anonymous_def
proof (intro allI impI)
  fix y c assume "cs' y = Some c"
  then obtain d where d: "cs y = Some d" "c = recv (n y) m d"
    using assms(3)[of y] by (cases "cs y") auto
  have "userId d = JUndefined" "\<forall>f\<in>set (sent (ws d)). frame_ok strict f"
    using assms(1) d(1) by (simp_all add: anonymous_def)
  then show "userId c = JUndefined \<and> (\<forall>f\<in>set (sent (ws c)). frame_ok strict f)"
    using assms(2) d(2) by auto
qed

lemma anonymous_broadcastToBoard:
  "anonymous strict (clients st) \<Longrightarrow> frame_ok strict (stringify m) \<Longrightarrow>
   anonymous strict (clients (broadcastToBoard st r m ex))"
  by (rule anonymous_recv[where n = "\<lambda>y. if Some y \<noteq> ex then copies (boardClients st) r y else 0"])
     (simp_all add: broadcastToBoard_clients)

lemma anonymous_handleJoinWorkspace:
  assumes "anonymous strict (clients st)"
  shows "anonymous strict (clients (handleJoinWorkspace st cid r))"
proof (cases "clients st cid")
  case None
  then show ?thesis using assms by (simp add: handleJoinWorkspace_unregistered)
next
  case (Some c)
  have u: "userId c = JUndefined" by (rule anonymousD[OF assms Some])
  have old: "\<forall>f\<in>set (sent (ws c)). frame_ok strict f"
    using assms Some by (simp add: anonymous_def)
  show ?thesis
    unfolding anonymous_def
  proof (intro allI impI)
    fix y d assume d: "clients (handleJoinWorkspace st cid r) y = Some d"
    show "userId d = JUndefined \<and> (\<forall>f\<in>set (sent (ws d)). frame_ok strict f)"
    proof (cases "y = cid")
      case True
      then show ?thesis
        using d u old by (auto simp: handleJoinWorkspace_clients[OF Some] frame_ok_plain)
    next
      case False
      then obtain e where e: "clients st y = Some e"
        "d = recv (count_list (joined_list (workspaceClients st) (workspaceId c) r cid) y)
               (stringify (envelope ''user_joined'' [(''userId'', userId c), (''workspaceId'', r)])) e"
        using d by (cases "clients st y") (auto simp: handleJoinWorkspace_clients[OF Some])
      have "userId e = JUndefined" "\<forall>f\<in>set (sent (ws e)). frame_ok strict f"
        using assms e(1) by (simp_all add: anonymous_def)
      then show ?thesis using e(2) u by (auto simp: frame_ok_notice)
    qed
  qed
qed

lemma anonymous_handleJoinBoard:
  assumes "anonymous strict (clients st)"
  shows "anonymous strict (clients (handleJoinBoard st cid r))"
proof (cases "clients st cid")
  case None
  then show ?thesis using assms by (simp add: handleJoinBoard_unregistered)
next
  case (Some c)
  have u: "userId c = JUndefined" by (rule anonymousD[OF assms Some])
  have old: "\<forall>f\<in>set (sent (ws c)). frame_ok strict f"
    using assms Some by (simp add: anonymous_def)
  show ?thesis
    unfolding anonymous_def
  proof (intro allI impI)
    fix y d assume d: "clients (handleJoinBoard st cid r) y = Some d"
    show "userId d = JUndefined \<and> (\<forall>f\<in>set (sent (ws d)). frame_ok strict f)"
    proof (cases "y = cid")
      case True
      then show ?thesis
        using d u old by (auto simp: handleJoinBoard_clients[OF Some] frame_ok_plain)
    next
      case False
      then obtain e where e: "clients st y = Some e"
        "d = recv (count_list (joined_list (boardClients st) (boardId c) r cid) y)
               (stringify (envelope ''user_joined_board'' [(''userId'', userId c), (''boardId'', r)])) e"
        using d by (cases "clients st y") (auto simp: handleJoinBoard_clients[OF Some])
      have "userId e = JUndefined" "\<forall>f\<in>set (sent (ws e)). frame_ok strict f"
        using assms e(1) by (simp_all add: anonymous_def)
      then show ?thesis using e(2) u by (auto simp: frame_ok_notice)
    qed
  qed
qed

lemma anonymous_handleDisconnect:
  assumes "anonymous strict (clients st)"
  shows "anonymous strict (clients (handleDisconnect st cid))"
proof (cases "clients st cid")
  case None
  then show ?thesis using assms by (simp add: handleDisconnect_unregistered)
next
  case (Some c)
  have u: "userId c = JUndefined" by (rule anonymousD[OF assms Some])
  show ?thesis
    unfolding anonymous_def
  proof (intro allI impI)
    fix y d assume d: "clients (handleDisconnect st cid) y = Some d"
    then have y: "y \<noteq> cid" by (auto simp: handleDisconnect_clients[OF Some] split: if_splits)
    then obtain e where e: "clients st y = Some e"
      "d = recv (left_copies (boardClients st) (boardId c) cid y)
                     (stringify (envelope ''user_left_board''
                        [(''userId'', userId c), (''boardId'', boardId c)]))
                   (recv (left_copies (workspaceClients st) (workspaceId c) cid y)
                     (stringify (envelope ''user_left''
                        [(''userId'', userId c), (''workspaceId'', workspaceId c)])) e)"
      using d by (cases "clients st y") (auto simp: handleDisconnect_clients[OF Some])
    have "userId e = JUndefined" "\<forall>f\<in>set (sent (ws e)). frame_ok strict f"
      using assms e(1) by (simp_all add: anonymous_def)
    then show "userId d = JUndefined \<and> (\<forall>f\<in>set (sent (ws d)). frame_ok strict f)"
      using e(2) u by (auto simp: frame_ok_notice)
  qed
qed

lemma anonymous_handleCardMoved:
  assumes "anonymous strict (clients st)"
  shows "anonymous strict (clients (handleCardMoved st cid p now))"
proof (cases "clients st cid")
  case None
  then show ?thesis using assms by (simp add: handleCardMoved_def)
next
  case (Some c)
  have u: "userId c = JUndefined" by (rule anonymousD[OF assms Some])
  show ?thesis
    using assms Some u
    by (simp add: handleCardMoved_def anonymous_broadcastToBoard frame_ok_card_moved)
qed

lemma anonymous_handleCardCreated:
  assumes "anonymous strict (clients st)"
  shows "anonymous strict (clients (handleCardCreated st cid p now))"
proof (cases "clients st cid")
  case None
  then show ?thesis using assms by (simp add: handleCardCreated_def)
next
  case (Some c)
  have u: "userId c = JUndefined" by (rule anonymousD[OF assms Some])
  show ?thesis
    using assms Some u
    by (simp add: handleCardCreated_def anonymous_broadcastToBoard frame_ok_card_created)
qed

lemma anonymous_handleUserTyping:
  assumes "anonymous strict (clients st)"
    and "strict \<longrightarrow> ''userId'' \<notin> fst ` set (own_props p)"
  shows "anonymous strict (clients (handleUserTyping st cid p))"
proof (cases "clients st cid")
  case None
  then show ?thesis using assms by (simp add: handleUserTyping_def)
next
  case (Some c)
  have u: "userId c = JUndefined" by (rule anonymousD[OF assms(1) Some])
  show ?thesis
    using assms Some u
    by (simp add: handleUserTyping_def anonymous_broadcastToBoard frame_ok_sender)
qed

lemma anonymous_handleCursorMove:
  assumes "anonymous strict (clients st)"
    and "strict \<longrightarrow> ''userId'' \<notin> fst ` set (own_props p)"
  shows "anonymous strict (clients (handleCursorMove st cid p))"
proof (cases "clients st cid")
  case None
  then show ?thesis using assms by (simp add: handleCursorMove_def)
next
  case (Some c)
  have u: "userId c = JUndefined" by (rule anonymousD[OF assms(1) Some])
  show ?thesis
    using assms Some u
    by (simp add: handleCursorMove_def anonymous_broadcastToBoard frame_ok_sender)
qed

lemma anonymous_handleMessage:
  assumes "anonymous strict (clients st)"
    and "strict \<longrightarrow> \<not> supplies_userId (Message cid (Json m) now)"
    and "handleMessage st cid now m = Inr st'"
  shows "anonymous strict (clients st')"
  using assms
  by (auto simp: handleMessage_def anonymous_handleJoinWorkspace anonymous_handleJoinBoard
      anonymous_handleCardMoved anonymous_handleCardCreated
      intro!: anonymous_handleUserTyping anonymous_handleCursorMove
      split: sum.splits if_splits)

lemma anonymous_step:
  assumes a: "anonymous strict (clients st)" and s: "strict \<longrightarrow> \<not> supplies_userId ev"
  shows "anonymous strict (clients (step st ev))"
proof (cases ev)
  case (Connection cid)
  show ?thesis
    using a Connection
    by (auto simp: on_connection_clients anonymous_def frame_ok_plain)
next
  case (Message cid data now)
  show ?thesis
  proof (cases data)
    case Malformed
    then show ?thesis using a Message by (simp add: on_message_def)
  next
    case (Json m)
    then show ?thesis
      using a s Message anonymous_handleMessage[of strict st cid m now]
      by (cases "handleMessage st cid now m") (auto simp: on_message_def)
  qed
next
  case (Close cid)
  have "anonymous strict (clients (st\<lparr>console := console st @ [ClientDisconnected cid]\<rparr>))"
    using a by simp
  then show ?thesis using a Close by (simp add: on_close_def anonymous_handleDisconnect)
next
  case (Error cid)
  then show ?thesis using a by (simp add: on_error_def)
next
  case (Transport cid rs)
  then show ?thesis using a by (auto simp: anonymous_def split: option.splits)
qed

lemma anonymous_run: "anonymous (\<forall>ev\<in>set evs. \<not> supplies_userId ev) (clients (run evs))"
proof (induction evs rule: rev_induct)
  case Nil
  show ?case by (simp add: run_def init_def anonymous_def)
next
  case (snoc ev evs)
  have "anonymous (\<forall>e\<in>set (evs @ [ev]). \<not> supplies_userId e) (clients (run evs))"
    by (rule anonymous_weaken[OF snoc]) simp
  then show ?case unfolding run_snoc by (rule anonymous_step) simp
qed

subsection \<open>The invariant of the specification\<close>

lemma room_inv_index_agrees:
  assumes "room_inv idx fm"
  shows "index_agrees idx fm"
  unfolding index_agrees_def
proof (intro conjI allI impI)
  fix cid r assume "cid \<in> dom fm" "r \<noteq> JUndefined"
  then show "fm cid = Some r \<longleftrightarrow> cid \<in> members idx r"
    using room_invD(6)[OF assms, of cid r] room_inv_member[OF assms, of cid r] by blast
next
  fix r xs assume "idx r = Some xs"
  then show "xs \<noteq> []" by (rule room_invD(2)[OF assms])
next
  fix cid r r' assume "cid \<in> members idx r" "cid \<in> members idx r'"
  then have "fm cid = Some r" "fm cid = Some r'"
    using room_inv_member[OF assms] by blast+
  then show "r = r'" by simp
qed

lemma rooms_agree_consistent: "rooms_agree st \<Longrightarrow> consistent st"
  using room_inv_index_agrees[of "workspaceClients st" "wfields st"]
    room_inv_index_agrees[of "boardClients st" "bfields st"]
  by (simp add: rooms_agree_def consistent_def)

subsection \<open>What a board event sends\<close>

lemma copies_distinct:
  "wf_idx idx \<Longrightarrow> copies idx r y = (if y \<in> members idx r then 1 else 0)"
  by (cases "idx r") (auto simp: copies_def members_def wf_idx_def count_list_distinct)

lemma broadcastToBoard_outbox:
  assumes "wf_sets st"
  shows "outbox (broadcastToBoard st r m ex) y =
     outbox st y @
       (if Some y \<noteq> ex \<and> y \<in> members (boardClients st) r \<and> is_open st y
        then [stringify m] else [])"
proof -
  have w: "wf_idx (boardClients st)" using assms by (simp add: wf_sets_def)
  show ?thesis
    using outbox_recv[OF broadcastToBoard_clients, of st r m ex y]
    by (simp add: copies_distinct[OF w])
qed

subsection \<open>The payload of a typing or cursor frame\<close>

lemma map_of_replace:
  "map_of (map (\<lambda>kv. if fst kv = k then (k, v) else kv) fs) x =
     (if x = k \<and> k \<in> fst ` set fs then Some v else map_of fs x)"
proof (induction fs)
  case Nil
  show ?case by simp
next
  case (Cons a fs)
  obtain a1 a2 where a: "a = (a1, a2)" by (cases a)
  show ?case unfolding a using Cons.IH by (cases "a1 = k"; cases "x = k"; simp)
qed

lemma map_of_obj_set: "map_of (obj_set k v fs) = (map_of fs)(k \<mapsto> v)"
proof (cases "k \<in> fst ` set fs")
  case False
  then have "map_of fs k = None" by (simp add: map_of_eq_None_iff)
  then show ?thesis using False
    by (auto simp: obj_set_def fun_eq_iff map_add_def split: option.splits)
next
  case True
  then show ?thesis by (simp add: obj_set_def fun_eq_iff map_of_replace)
qed

lemma keys_replace: "map fst (map (\<lambda>kv. if fst kv = k then (k, v) else kv) fs) = map fst fs"
  by (induction fs) simp_all

lemma distinct_obj_set:
  assumes "distinct (map fst fs)"
  shows "distinct (map fst (obj_set k v fs))"
proof (cases "k \<in> fst ` set fs")
  case True
  then have "obj_set k v fs = map (\<lambda>kv. if fst kv = k then (k, v) else kv) fs"
    by (simp add: obj_set_def)
  then show ?thesis using assms by (simp only: keys_replace)
next
  case False
  then show ?thesis using assms by (simp add: obj_set_def)
qed

lemma map_of_fold_obj_set:
  "map_of (fold (\<lambda>kv. obj_set (fst kv) (snd kv)) ps obj) = map_of obj ++ map_of (rev ps)"
proof (induction ps arbitrary: obj)
  case Nil
  show ?case by simp
next
  case (Cons x ps)
  have "(map_of obj)(fst x \<mapsto> snd x) ++ map_of (rev ps) =
          map_of obj ++ (map_of (rev ps @ [x]))"
    by (cases x) (auto simp: fun_eq_iff map_add_def split: option.splits)
  then show ?case by (simp only: fold_Cons comp_apply Cons.IH map_of_obj_set rev.simps)
qed

lemma map_of_spread: "map_of (spread v obj) = map_of obj ++ map_of (rev (own_props v))"
  by (simp add: spread_def map_of_fold_obj_set)

lemma distinct_spread: "distinct (map fst obj) \<Longrightarrow> distinct (map fst (spread v obj))"
proof -
  have "distinct (map fst obj) \<Longrightarrow>
        distinct (map fst (fold (\<lambda>kv. obj_set (fst kv) (snd kv)) ps obj))" for ps
    by (induction ps arbitrary: obj) (simp_all add: distinct_obj_set)
  then show "distinct (map fst obj) \<Longrightarrow> distinct (map fst (spread v obj))"
    by (simp add: spread_def)
qed

lemma map_of_written:
  assumes "distinct (map fst fs)"
  shows "map_of (filter (\<lambda>kv. snd kv \<noteq> JUndefined) (map (map_prod (\<lambda>a. a) stringify) fs)) k =
           (case map_of fs k of
              None \<Rightarrow> None
            | Some v \<Rightarrow> if v = JUndefined then None else Some (stringify v))"
  using assms(1)
proof (induction fs)
  case Nil
  show ?case by simp
next
  case (Cons x fs)
  obtain a b where x: "x = (a, b)" by (cases x)
  have n: "map_of fs a = None" using Cons.prems x by (simp add: map_of_eq_None_iff)
  have ih: "map_of (filter (\<lambda>kv. snd kv \<noteq> JUndefined) (map (map_prod (\<lambda>a. a) stringify) fs)) k =
           (case map_of fs k of
              None \<Rightarrow> None
            | Some v \<Rightarrow> if v = JUndefined then None else Some (stringify v))"
    by (rule Cons.IH) (use Cons.prems in simp)
  show ?case unfolding x using ih n by (cases "k = a"; cases "b = JUndefined"; simp)
qed

lemma map_of_written_id:
  assumes "distinct (map fst fs)"
  shows "map_of (filter (\<lambda>kv. snd kv \<noteq> JUndefined) (map (map_prod id stringify) fs)) k =
           (case map_of fs k of
              None \<Rightarrow> None
            | Some v \<Rightarrow> if v = JUndefined then None else Some (stringify v))"
  using map_of_written[OF assms, of k] unfolding id_def .

lemma payload_field_envelope:
  assumes "distinct (map fst fs)"
  shows "payload_field (stringify (envelope t fs)) k =
           stringify (case map_of fs k of None \<Rightarrow> JUndefined | Some v \<Rightarrow> v)"
  by (simp add: payload_field_def envelope_def map_of_written[OF assms] map_of_written_id[OF assms] split: option.splits)

lemma payload_keys_field:
  assumes "distinct (map fst fs)"
  shows "k \<in> payload_keys (stringify (envelope t fs)) \<longleftrightarrow>
           payload_field (stringify (envelope t fs)) k \<noteq> JUndefined"
proof -
  let ?l = "filter (\<lambda>kv. snd kv \<noteq> JUndefined) (map (map_prod id stringify) fs)"
  have "k \<in> fst ` set ?l \<longleftrightarrow> map_of ?l k \<noteq> None"
    by (simp only: map_of_eq_None_iff not_not)
  also have "\<dots> \<longleftrightarrow> (case map_of ?l k of None \<Rightarrow> JUndefined | Some v \<Rightarrow> v) \<noteq> JUndefined"
    by (simp add: map_of_written[OF assms] map_of_written_id[OF assms] split: option.splits)
  finally have "k \<in> fst ` set ?l \<longleftrightarrow>
      (case map_of ?l k of None \<Rightarrow> JUndefined | Some v \<Rightarrow> v) \<noteq> JUndefined" .
  then show ?thesis
    by (simp add: payload_keys_def payload_field_def envelope_def)
qed

text \<open>The payload of the frame that \<open>handleUserTyping\<close> and \<open>handleCursorMove\<close> build
  for a connection without a user id is the inbound payload, property for property.\<close>

lemma sender_frame_field:
  "payload_field (stringify (envelope t (spread p [(''userId'', JUndefined)]))) k =
     stringify (own_prop p k)"
proof -
  have d: "distinct (map fst (spread p [(''userId'', JUndefined)]))"
    by (rule distinct_spread) simp
  show ?thesis
    by (simp add: payload_field_envelope[OF d] map_of_spread own_prop_def map_add_def
        split: option.splits)
qed

lemma sender_frame_keys:
  "k \<in> payload_keys (stringify (envelope t (spread p [(''userId'', JUndefined)]))) \<longleftrightarrow>
     own_prop p k \<noteq> JUndefined"
proof -
  have d: "distinct (map fst (spread p [(''userId'', JUndefined)]))"
    by (rule distinct_spread) simp
  show ?thesis
    by (simp only: payload_keys_field[OF d] sender_frame_field stringify_undefined)
qed

lemma map_of_rev_distinct: "distinct (map fst xs) \<Longrightarrow> map_of (rev xs) = map_of xs"
  by (subst map_of_inject_set) (simp_all add: rev_map[symmetric])

text \<open>For an object with one entry for each key, \<open>own_prop\<close> is the property read.\<close>

lemma own_prop_object:
  "distinct (map fst fs) \<Longrightarrow>
   get_prop (JObj fs) k = Inr (own_prop (JObj fs) k)"
  by (simp add: own_prop_def map_of_rev_distinct)

lemma on_message_sender:
  "on_message st cid (client_frame ''user_typing'' p) now = handleUserTyping st cid p"
  "on_message st cid (client_frame ''cursor_move'' p) now = handleCursorMove st cid p"
  by (simp_all add: on_message_def handleMessage_def client_frame_def)

lemma run_sender:
  assumes "clients (run evs) cid = Some c"
  shows "run (evs @ [Message cid (client_frame ''user_typing'' p) now]) =
           handleUserTyping (run evs) cid p"
    and "run (evs @ [Message cid (client_frame ''cursor_move'' p) now]) =
           handleCursorMove (run evs) cid p"
  using assms by (simp_all add: run_snoc domI on_message_sender)

lemma sender_event_outbox:
  assumes "wf_sets st" and "clients st cid = Some c"
  shows "outbox (handleUserTyping st cid p) y =
           outbox st y @
             (if truthy (boardId c) \<and> y \<noteq> cid \<and> y \<in> members (boardClients st) (boardId c) \<and>
                 is_open st y
              then [stringify (envelope ''user_typing'' (spread p [(''userId'', userId c)]))]
              else [])"
    and "outbox (handleCursorMove st cid p) y =
           outbox st y @
             (if truthy (boardId c) \<and> y \<noteq> cid \<and> y \<in> members (boardClients st) (boardId c) \<and>
                 is_open st y
              then [stringify (envelope ''cursor_move'' (spread p [(''userId'', userId c)]))]
              else [])"
  using assms(2)
  by (simp_all add: handleUserTyping_def handleCursorMove_def
      broadcastToBoard_outbox[OF assms(1)])

lemma sender_identity_absent_frame:
  assumes "t = ''user_typing'' \<or> t = ''cursor_move''"
  shows "sender_identity_absent (stringify (envelope t (spread p [(''userId'', JUndefined)]))) \<longleftrightarrow>
           own_prop p ''userId'' = JUndefined"
  using assms by (auto simp: sender_identity_absent_def sender_frame_keys)

section \<open>The claims of the specification\<close>

subsection \<open>Claim C1: the two representations of membership\<close>

text \<open>As long as every join is given a truthy room id, every state the relay reaches
  satisfies the invariant of the specification; each handler keeps the stronger
  \<open>rooms_agree\<close> (lemma \<open>rooms_agree_step\<close>).\<close>

lemma consistent_run: "\<forall>ev\<in>set evs. truthy_join ev \<Longrightarrow> consistent (run evs)"
  by (rule rooms_agree_consistent[OF rooms_agree_run])

text \<open>
  Claim C1 is a defect of the code. A connection that joined the workspace whose id is
  the empty string is not taken out of it by the next join, because the test
  \<open>if (client.workspaceId)\<close> reads the empty string as no room: it ends up in the member
  sets of two rooms, while its room field names only the second.
\<close>

theorem empty_workspace_id_leaves_two_rooms:
  "map_option workspaceId
     (clients (run [Connection ''c1'', Message ''c1'' (join_workspace_frame (JStr '''')) 0,
                    Message ''c1'' (join_workspace_frame (JStr ''w1'')) 0]) ''c1'')
     = Some (JStr ''w1'') \<and>
   ''c1'' \<in> members (workspaceClients
       (run [Connection ''c1'', Message ''c1'' (join_workspace_frame (JStr '''')) 0,
             Message ''c1'' (join_workspace_frame (JStr ''w1'')) 0])) (JStr '''') \<and>
   ''c1'' \<in> members (workspaceClients
       (run [Connection ''c1'', Message ''c1'' (join_workspace_frame (JStr '''')) 0,
             Message ''c1'' (join_workspace_frame (JStr ''w1'')) 0])) (JStr ''w1'')"
  by (simp add: eval_defs)

text \<open>So the invariant of the specification does not hold in that state.\<close>

lemma empty_workspace_id_not_consistent:
  "\<not> consistent (run [Connection ''c1'', Message ''c1'' (join_workspace_frame (JStr '''')) 0,
                       Message ''c1'' (join_workspace_frame (JStr ''w1'')) 0])"
proof
  let ?st = "run [Connection ''c1'', Message ''c1'' (join_workspace_frame (JStr '''')) 0,
                  Message ''c1'' (join_workspace_frame (JStr ''w1'')) 0]"
  assume "consistent ?st"
  then have "\<forall>cid r r'. cid \<in> members (workspaceClients ?st) r \<longrightarrow>
      cid \<in> members (workspaceClients ?st) r' \<longrightarrow> r = r'"
    by (simp add: consistent_def index_agrees_def)
  moreover have "''c1'' \<in> members (workspaceClients ?st) (JStr '''')"
    "''c1'' \<in> members (workspaceClients ?st) (JStr ''w1'')"
    by (simp_all add: eval_defs)
  ultimately have "JStr '''' = JStr ''w1''" by blast
  then show False by simp
qed

subsection \<open>Claim C2: switching workspace rooms\<close>

text \<open>When the first room id is truthy the switch is as specified: from a state where
  fields and indexes agree, a join of \<open>r1\<close> followed by a join of \<open>r2\<close> leaves the
  connection in \<open>r2\<close> only, and \<open>r1\<close> without it, removed if it is then empty.\<close>

lemma switch_workspace:
  assumes i: "rooms_agree st" and reg: "clients st cid = Some c" and t: "truthy r1"
  shows "(\<forall>r. cid \<in> members (workspaceClients
                 (handleJoinWorkspace (handleJoinWorkspace st cid r1) cid r2)) r \<longleftrightarrow> r = r2) \<and>
         (r1 \<noteq> r2 \<longrightarrow>
            members (workspaceClients
              (handleJoinWorkspace (handleJoinWorkspace st cid r1) cid r2)) r1
              = members (workspaceClients (handleJoinWorkspace st cid r1)) r1 - {cid} \<and>
            (members (workspaceClients
               (handleJoinWorkspace (handleJoinWorkspace st cid r1) cid r2)) r1 = {} \<longrightarrow>
             workspaceClients
               (handleJoinWorkspace (handleJoinWorkspace st cid r1) cid r2) r1 = None))"
proof -
  define s1 where "s1 = handleJoinWorkspace st cid r1"
  define c1 where "c1 = push 1 (stringify (envelope ''workspace_users''
                   [(''count'', JNum (of_nat (set_size
                      (joined_list (workspaceClients st) (workspaceId c) r1 cid))))]))
                 (c\<lparr>workspaceId := r1\<rparr>)"
  have reg1: "clients s1 cid = Some c1"
    by (simp add: s1_def c1_def handleJoinWorkspace_clients[OF reg])
  have w1: "workspaceId c1 = r1" by (simp add: c1_def)
  have i1: "room_inv (workspaceClients s1) (wfields s1)"
    using rooms_agree_handleJoinWorkspace[OF i t, of cid] by (simp add: s1_def rooms_agree_def)
  have f1: "wfields s1 cid = Some r1" by (simp add: wfields_def reg1 w1)
  have idx2: "workspaceClients (handleJoinWorkspace s1 cid r2)
                = enter (vacate (workspaceClients s1) r1 cid) r2 cid"
    using handleJoinWorkspace_index(1)[OF reg1, of r2] by (simp add: w1)
  have mv: "members (vacate (workspaceClients s1) r1 cid) r = members (workspaceClients s1) r - {cid}"
    for r by (rule members_vacate_inv[OF i1 f1])
  have iv: "room_inv (vacate (workspaceClients s1) r1 cid) ((wfields s1)(cid := None))"
    by (rule room_inv_vacate[OF i1 f1])
  have a: "cid \<in> members (workspaceClients (handleJoinWorkspace s1 cid r2)) r \<longleftrightarrow> r = r2" for r
    by (simp add: idx2 members_enter mv)
  have b: "members (workspaceClients (handleJoinWorkspace s1 cid r2)) r1
             = members (workspaceClients s1) r1 - {cid}" if "r1 \<noteq> r2"
    using that by (simp add: idx2 members_enter mv)
  have c: "workspaceClients (handleJoinWorkspace s1 cid r2) r1 = None"
    if "r1 \<noteq> r2" "members (workspaceClients (handleJoinWorkspace s1 cid r2)) r1 = {}"
  proof -
    have "members (vacate (workspaceClients s1) r1 cid) r1 = {}"
      using that by (simp add: idx2 members_enter)
    then have "vacate (workspaceClients s1) r1 cid r1 = None"
      by (rule room_inv_no_empty_room[OF iv])
    then show ?thesis using that(1) by (simp add: idx2 enter_def)
  qed
  show ?thesis unfolding s1_def[symmetric] using a b c by blast
qed

text \<open>
  Claim C2 is a defect of the code, the one of claim C1: with the empty string as the
  first room id, the second join does not take the connection out of the first room.
\<close>

theorem join_after_empty_workspace_id_keeps_first_room:
  "workspaceClients
     (handleJoinWorkspace (handleJoinWorkspace (on_connection init ''c1'') ''c1'' (JStr ''''))
        ''c1'' (JStr ''w1'')) (JStr '''') = Some [''c1''] \<and>
   workspaceClients
     (handleJoinWorkspace (handleJoinWorkspace (on_connection init ''c1'') ''c1'' (JStr ''''))
        ''c1'' (JStr ''w1'')) (JStr ''w1'') = Some [''c1'']"
  by (simp add: eval_defs)

subsection \<open>Claim C3: joining the same board twice\<close>

text \<open>
  Claim C3, as amended. When a registered connection issues \<open>join_board(b)\<close> twice in a
  row, the second join leaves every board room with the members and the size it had after
  the first, and leaves the workspace index and every connection's room fields as they
  were. It is not silent, though: it sends \<open>board_users\<close> to the joiner again, and
  \<open>user_joined_board\<close> again to every other member of \<open>b\<close> whose socket is open.
  The hypothesis that the member lists have no duplicates holds in every state the relay
  reaches (lemma \<open>wf_sets_run\<close>).
\<close>

theorem rejoin_board_keeps_membership_and_notifies_again:
  assumes "wf_sets st" and "clients st cid = Some c"
  shows "let s1 = handleJoinBoard st cid b; s2 = handleJoinBoard s1 cid b in
         (\<forall>r. members (boardClients s2) r = members (boardClients s1) r) \<and>
         (\<forall>r. room_size (boardClients s2) r = room_size (boardClients s1) r) \<and>
         workspaceClients s2 = workspaceClients s1 \<and>
         wfields s2 = wfields s1 \<and> bfields s2 = bfields s1 \<and>
         (\<forall>y. outbox s2 y =
            outbox s1 y @
              (if y = cid
               then [stringify (envelope ''board_users''
                       [(''count'', JNum (of_nat (card (members (boardClients s1) b))))])]
               else if y \<in> members (boardClients s1) b \<and> is_open s1 y
               then [stringify (envelope ''user_joined_board''
                       [(''userId'', userId c), (''boardId'', b)])]
               else []))"
proof -
  define s1 where "s1 = handleJoinBoard st cid b"
  define s2 where "s2 = handleJoinBoard s1 cid b"
  define c1 where "c1 = push 1 (stringify (envelope ''board_users''
                   [(''count'', JNum (of_nat (set_size
                      (joined_list (boardClients st) (boardId c) b cid))))]))
                 (c\<lparr>boardId := b\<rparr>)"
  have reg1: "clients s1 cid = Some c1"
    by (simp add: s1_def c1_def handleJoinBoard_clients[OF assms(2)])
  have c1: "boardId c1 = b" "userId c1 = userId c" by (simp_all add: c1_def)
  have wf1: "wf_sets s1" unfolding s1_def by (rule wf_sets_handleJoinBoard[OF assms(1)])
  have wf2: "wf_sets s2" unfolding s2_def by (rule wf_sets_handleJoinBoard[OF wf1])
  have in1: "cid \<in> members (boardClients s1) b"
    by (simp add: s1_def handleJoinBoard_index[OF assms(2)] members_enter)
  have idx2: "boardClients s2 = enter (vacate (boardClients s1) b cid) b cid"
    using handleJoinBoard_index(1)[OF reg1, of b] by (simp add: s2_def c1)
  have mem: "members (boardClients s2) r = members (boardClients s1) r" for r
    by (simp add: idx2 members_rejoin[OF in1])
  have size: "room_size (boardClients s2) r = room_size (boardClients s1) r" for r
    using wf1 wf2 by (simp add: wf_sets_def room_size_card mem)
  have ws: "workspaceClients s2 = workspaceClients s1"
    by (simp add: s2_def handleJoinBoard_index(2)[OF reg1])
  have wfl: "wfields s2 = wfields s1"
    by (simp add: s2_def handleJoinBoard_fields(2)[OF reg1])
  have "bfields s1 cid = Some b" by (simp add: bfields_def reg1 c1)
  then have bfl: "bfields s2 = bfields s1"
    by (simp add: s2_def handleJoinBoard_fields(1)[OF reg1] fun_upd_idem)
  have out: "outbox s2 y =
            outbox s1 y @
              (if y = cid
               then [stringify (envelope ''board_users''
                       [(''count'', JNum (of_nat (card (members (boardClients s1) b))))])]
               else if y \<in> members (boardClients s1) b \<and> is_open s1 y
               then [stringify (envelope ''user_joined_board''
                       [(''userId'', userId c), (''boardId'', b)])]
               else [])" for y
    using handleJoinBoard_outbox[OF wf1 reg1, of b y] by (simp add: s2_def[symmetric] mem c1)
  show ?thesis
    unfolding Let_def s1_def[symmetric] s2_def[symmetric]
    using mem size ws wfl bfl out by blast
qed

text \<open>A and B are on board b1; B joins b1 a second time and A is told so a second
  time, while the room keeps its two members.\<close>

theorem rejoin_board_keeps_membership_and_notifies_again_witness:
  "room_size (boardClients (handleJoinBoard (handleJoinBoard
       (run [Connection ''A'', Message ''A'' (join_board_frame (JStr ''b1'')) 0, Connection ''B''])
       ''B'' (JStr ''b1'')) ''B'' (JStr ''b1''))) (JStr ''b1'') = 2 \<and>
   outbox (handleJoinBoard (handleJoinBoard
       (run [Connection ''A'', Message ''A'' (join_board_frame (JStr ''b1'')) 0, Connection ''B''])
       ''B'' (JStr ''b1'')) ''B'' (JStr ''b1'')) ''A'' =
     [JObj [(''type'', JStr ''connected''), (''payload'', JObj [(''clientId'', JStr ''A'')])],
      JObj [(''type'', JStr ''board_users''), (''payload'', JObj [(''count'', JNum 1)])],
      JObj [(''type'', JStr ''user_joined_board''), (''payload'', JObj [(''boardId'', JStr ''b1'')])],
      JObj [(''type'', JStr ''user_joined_board''), (''payload'', JObj [(''boardId'', JStr ''b1'')])]]"
proof -
  let ?st = "run [Connection ''A'', Message ''A'' (join_board_frame (JStr ''b1'')) 0,
                  Connection ''B'']"
  let ?s1 = "handleJoinBoard ?st ''B'' (JStr ''b1'')"
  have reg: "clients ?st ''B'' =
      Some \<lparr>ws = \<lparr>readyState = OPEN,
               sent = [stringify (envelope ''connected'' [(''clientId'', JStr ''B'')])]\<rparr>,
           userId = JUndefined, workspaceId = JUndefined, boardId = JUndefined\<rparr>"
    by (simp add: eval_defs)
  note t = rejoin_board_keeps_membership_and_notifies_again[OF wf_sets_run reg, of "JStr ''b1''",
      unfolded Let_def]
  have s1: "room_size (boardClients ?s1) (JStr ''b1'') = 2"
    "members (boardClients ?s1) (JStr ''b1'') = {''A'', ''B''}"
    "is_open ?s1 ''A''"
    "outbox ?s1 ''A'' =
     [JObj [(''type'', JStr ''connected''), (''payload'', JObj [(''clientId'', JStr ''A'')])],
      JObj [(''type'', JStr ''board_users''), (''payload'', JObj [(''count'', JNum 1)])],
      JObj [(''type'', JStr ''user_joined_board''), (''payload'', JObj [(''boardId'', JStr ''b1'')])]]"
    by (simp_all add: eval_defs room_size_def)
  from t have 1: "room_size (boardClients (handleJoinBoard ?s1 ''B'' (JStr ''b1''))) (JStr ''b1'') = 2"
    by (simp add: s1)
  from t have 2: "outbox (handleJoinBoard ?s1 ''B'' (JStr ''b1'')) ''A'' =
     [JObj [(''type'', JStr ''connected''), (''payload'', JObj [(''clientId'', JStr ''A'')])],
      JObj [(''type'', JStr ''board_users''), (''payload'', JObj [(''count'', JNum 1)])],
      JObj [(''type'', JStr ''user_joined_board''), (''payload'', JObj [(''boardId'', JStr ''b1'')])],
      JObj [(''type'', JStr ''user_joined_board''), (''payload'', JObj [(''boardId'', JStr ''b1'')])]]"
    by (simp add: s1 envelope_def)
  show ?thesis using 1 2 by blast
qed

text \<open>Claim C3 as stated fails: the second \<open>join_board\<close> of B produces a second
  \<open>user_joined_board\<close> for A.\<close>

theorem second_join_board_notifies_again:
  "outbox (run [Connection ''A'', Message ''A'' (join_board_frame (JStr ''b1'')) 0,
                Connection ''B'', Message ''B'' (join_board_frame (JStr ''b1'')) 0]) ''A'' =
     [JObj [(''type'', JStr ''connected''), (''payload'', JObj [(''clientId'', JStr ''A'')])],
      JObj [(''type'', JStr ''board_users''), (''payload'', JObj [(''count'', JNum 1)])],
      JObj [(''type'', JStr ''user_joined_board''), (''payload'', JObj [(''boardId'', JStr ''b1'')])]] \<and>
   outbox (run [Connection ''A'', Message ''A'' (join_board_frame (JStr ''b1'')) 0,
                Connection ''B'', Message ''B'' (join_board_frame (JStr ''b1'')) 0,
                Message ''B'' (join_board_frame (JStr ''b1'')) 0]) ''A'' =
     [JObj [(''type'', JStr ''connected''), (''payload'', JObj [(''clientId'', JStr ''A'')])],
      JObj [(''type'', JStr ''board_users''), (''payload'', JObj [(''count'', JNum 1)])],
      JObj [(''type'', JStr ''user_joined_board''), (''payload'', JObj [(''boardId'', JStr ''b1'')])],
      JObj [(''type'', JStr ''user_joined_board''), (''payload'', JObj [(''boardId'', JStr ''b1'')])]]"
  by (simp add: eval_defs)

subsection \<open>Claim C4: who is sent a board event\<close>

text \<open>When the sender's board id is truthy, a \<open>card_moved\<close> or \<open>card_created\<close>
  frame goes to every member of the board whose socket is open, the sender included, and
  a \<open>user_typing\<close> or \<open>cursor_move\<close> frame goes to every such member but the sender.\<close>

lemma board_event_outbox:
  assumes "wf_sets st" and "clients st cid = Some c" and "truthy (boardId c)"
  shows "outbox (handleCardMoved st cid p now) y =
           outbox st y @
             (if y \<in> members (boardClients st) (boardId c) \<and> is_open st y
              then [stringify (envelope ''card_moved''
                      (obj_set ''timestamp'' (JNum (of_nat now))
                        (obj_set ''movedBy'' (userId c) (spread p []))))]
              else [])"
    and "outbox (handleCardCreated st cid p now) y =
           outbox st y @
             (if y \<in> members (boardClients st) (boardId c) \<and> is_open st y
              then [stringify (envelope ''card_created''
                      (obj_set ''timestamp'' (JNum (of_nat now))
                        (obj_set ''createdBy'' (userId c) (spread p []))))]
              else [])"
    and "outbox (handleUserTyping st cid p) y =
           outbox st y @
             (if y \<noteq> cid \<and> y \<in> members (boardClients st) (boardId c) \<and> is_open st y
              then [stringify (envelope ''user_typing'' (spread p [(''userId'', userId c)]))]
              else [])"
    and "outbox (handleCursorMove st cid p) y =
           outbox st y @
             (if y \<noteq> cid \<and> y \<in> members (boardClients st) (boardId c) \<and> is_open st y
              then [stringify (envelope ''cursor_move'' (spread p [(''userId'', userId c)]))]
              else [])"
  using assms(2,3)
  by (simp_all add: handleCardMoved_def handleCardCreated_def handleUserTyping_def
      handleCursorMove_def broadcastToBoard_outbox[OF assms(1)])

text \<open>
  Claim C4 is a defect of the code, the one of claim C1: a connection that joined the
  board whose id is the empty string is a member of that room with an open socket, yet its
  \<open>card_moved\<close> is sent to no one, itself included, because \<open>if (!client.boardId)\<close> reads
  the empty string as no board.
\<close>

theorem card_moved_on_empty_board_id_is_lost:
  "''A'' \<in> members (boardClients
       (run [Connection ''A'', Message ''A'' (join_board_frame (JStr '''')) 0])) (JStr '''') \<and>
   is_open (run [Connection ''A'', Message ''A'' (join_board_frame (JStr '''')) 0]) ''A'' \<and>
   run [Connection ''A'', Message ''A'' (join_board_frame (JStr '''')) 0,
        Message ''A'' (client_frame ''card_moved'' (JObj [(''cardId'', JStr ''c1'')])) 5]
     = run [Connection ''A'', Message ''A'' (join_board_frame (JStr '''')) 0] \<and>
   outbox (run [Connection ''A'', Message ''A'' (join_board_frame (JStr '''')) 0,
        Message ''A'' (client_frame ''card_moved'' (JObj [(''cardId'', JStr ''c1'')])) 5]) ''A'' =
     [JObj [(''type'', JStr ''connected''), (''payload'', JObj [(''clientId'', JStr ''A'')])],
      JObj [(''type'', JStr ''board_users''), (''payload'', JObj [(''count'', JNum 1)])]]"
  by (simp add: eval_defs)

subsection \<open>Claim C5: board events before any board was joined\<close>

text \<open>
  Claim C5. A board event (\<open>card_moved\<close>, \<open>card_created\<close>, \<open>user_typing\<close>,
  \<open>cursor_move\<close>) from a connection whose \<open>boardId\<close> is unset changes nothing: the
  handler returns the state it was given, so nothing is sent to anyone, and the registry,
  both room indexes and the console stay as they were. The same holds for the message as
  it arrives through the socket's message handler.
\<close>

theorem unjoined_board_event_is_noop:
  assumes "clients st cid = Some c" and "boardId c = JUndefined"
  shows "handleCardMoved st cid payload now = st \<and>
         handleCardCreated st cid payload now = st \<and>
         handleUserTyping st cid payload = st \<and>
         handleCursorMove st cid payload = st \<and>
         (\<forall>t\<in>set board_event_types. \<forall>message.
            get_prop message ''type'' = Inr (JStr t) \<longrightarrow>
            on_message st cid (Json message) now = st)"
proof -
  have "on_message st cid (Json message) now = st"
    if t: "t \<in> set board_event_types" and m: "get_prop message ''type'' = Inr (JStr t)"
    for t message
  proof -
    obtain p where p: "get_prop message ''payload'' = Inr p"
      using get_prop_total[OF m] by blast
    show ?thesis
      using t m p board_event_noop[OF assms]
      by (auto simp: on_message_def handleMessage_def board_event_types_def)
  qed
  then show ?thesis using board_event_noop[OF assms] by blast
qed

theorem unjoined_board_event_is_noop_witness:
  "handleCardMoved (on_connection init ''a'') ''a'' (JObj [(''cardId'', JStr ''c1'')]) 7
     = on_connection init ''a'' \<and>
   on_message (on_connection init ''a'') ''a''
     (Json (JObj [(''type'', JStr ''cursor_move''),
                  (''payload'', JObj [(''x'', JNum 1), (''y'', JNum 2)])])) 7
     = on_connection init ''a''"
proof -
  have c: "clients (on_connection init ''a'') ''a'' =
             Some \<lparr>ws = \<lparr>readyState = OPEN,
                     sent = [stringify (envelope ''connected'' [(''clientId'', JStr ''a'')])]\<rparr>,
                   userId = JUndefined, workspaceId = JUndefined, boardId = JUndefined\<rparr>"
    by (simp add: on_connection_clients)
  have t: "''cursor_move'' \<in> set board_event_types" by (simp add: board_event_types_def)
  show ?thesis
    using unjoined_board_event_is_noop[OF c, of "JObj [(''cardId'', JStr ''c1'')]" 7] t
    by simp
qed

subsection \<open>Claim C6: disconnecting\<close>

text \<open>
  Claim C6, as amended. Let the relay have reached a state in which the connection \<open>cid\<close>
  is registered and is a member of exactly the rooms that its \<open>workspaceId\<close> and
  \<open>boardId\<close> fields name, a field that is not truthy (unset, or the empty string) naming
  no room (\<open>in_own_room\<close>). When the connection closes, it is removed from the registry
  and from the member set of every room, and a room whose only member it was is removed
  from its index. Every other connection is sent exactly this: \<open>user_left\<close>, with the
  leaver's \<open>userId\<close> and workspace id, if it is a member of the leaver's workspace room
  and its socket is open, and then \<open>user_left_board\<close> likewise for the board room. A
  member whose socket is not open is sent nothing, and neither is a connection outside
  these rooms; when the leaver was the only member there is nobody to send to.
\<close>

theorem disconnect_notifies_open_remaining_members:
  assumes "clients (run evs) cid = Some c"
    and "in_own_room (workspaceClients (run evs)) (workspaceId c) cid"
    and "in_own_room (boardClients (run evs)) (boardId c) cid"
  shows "let st = run evs; st' = run (evs @ [Close cid]) in
         clients st' cid = None \<and>
         (\<forall>r. members (workspaceClients st') r = members (workspaceClients st) r - {cid}) \<and>
         (\<forall>r. members (boardClients st') r = members (boardClients st) r - {cid}) \<and>
         (\<forall>r. members (workspaceClients st) r = {cid} \<longrightarrow> workspaceClients st' r = None) \<and>
         (\<forall>r. members (boardClients st) r = {cid} \<longrightarrow> boardClients st' r = None) \<and>
         (\<forall>y. y \<noteq> cid \<longrightarrow>
            outbox st' y =
              outbox st y @
                (if y \<in> members (workspaceClients st) (workspaceId c) \<and>
                    cid \<in> members (workspaceClients st) (workspaceId c) \<and> is_open st y
                 then [stringify (envelope ''user_left''
                         [(''userId'', userId c), (''workspaceId'', workspaceId c)])]
                 else []) @
                (if y \<in> members (boardClients st) (boardId c) \<and>
                    cid \<in> members (boardClients st) (boardId c) \<and> is_open st y
                 then [stringify (envelope ''user_left_board''
                         [(''userId'', userId c), (''boardId'', boardId c)])]
                 else []))"
proof -
  note t = on_close_teardown[OF wf_sets_run assms]
  show ?thesis
    unfolding Let_def run_close[OF assms(1)]
  proof (intro conjI allI impI)
    show "clients (on_close (run evs) cid) cid = None" by (rule t(2))
  next
    fix r
    show "members (workspaceClients (on_close (run evs) cid)) r =
            members (workspaceClients (run evs)) r - {cid}"
      by (rule t(3))
    show "members (boardClients (on_close (run evs) cid)) r =
            members (boardClients (run evs)) r - {cid}"
      by (rule t(4))
  next
    fix r assume "members (workspaceClients (run evs)) r = {cid}"
    then show "workspaceClients (on_close (run evs) cid) r = None" by (rule t(5))
  next
    fix r assume "members (boardClients (run evs)) r = {cid}"
    then show "boardClients (on_close (run evs) cid) r = None" by (rule t(6))
  next
    fix y assume "y \<noteq> cid"
    then show "outbox (on_close (run evs) cid) y =
              outbox (run evs) y @
                (if y \<in> members (workspaceClients (run evs)) (workspaceId c) \<and>
                    cid \<in> members (workspaceClients (run evs)) (workspaceId c) \<and>
                    is_open (run evs) y
                 then [stringify (envelope ''user_left''
                         [(''userId'', userId c), (''workspaceId'', workspaceId c)])]
                 else []) @
                (if y \<in> members (boardClients (run evs)) (boardId c) \<and>
                    cid \<in> members (boardClients (run evs)) (boardId c) \<and>
                    is_open (run evs) y
                 then [stringify (envelope ''user_left_board''
                         [(''userId'', userId c), (''boardId'', boardId c)])]
                 else [])"
      by (rule t(7))
  qed
qed

text \<open>Z has joined the workspace with the empty id; A and C are in workspace w1 and A
  alone is on board b1. When A closes, C is sent one \<open>user_left\<close>, Z is sent nothing,
  and the board room, which had no other member, goes without a frame to anyone.\<close>

theorem disconnect_notifies_open_remaining_members_witness:
  "clients (run [Connection ''Z'', Message ''Z'' (join_workspace_frame (JStr '''')) 0,
            Connection ''A'', Message ''A'' (join_workspace_frame (JStr ''w1'')) 0,
            Message ''A'' (join_board_frame (JStr ''b1'')) 0,
            Connection ''C'', Message ''C'' (join_workspace_frame (JStr ''w1'')) 0,
            Close ''A'']) ''A'' = None \<and>
   members (workspaceClients (run [Connection ''Z'', Message ''Z'' (join_workspace_frame (JStr '''')) 0,
            Connection ''A'', Message ''A'' (join_workspace_frame (JStr ''w1'')) 0,
            Message ''A'' (join_board_frame (JStr ''b1'')) 0,
            Connection ''C'', Message ''C'' (join_workspace_frame (JStr ''w1'')) 0,
            Close ''A''])) (JStr ''w1'') = {''C''} \<and>
   members (workspaceClients (run [Connection ''Z'', Message ''Z'' (join_workspace_frame (JStr '''')) 0,
            Connection ''A'', Message ''A'' (join_workspace_frame (JStr ''w1'')) 0,
            Message ''A'' (join_board_frame (JStr ''b1'')) 0,
            Connection ''C'', Message ''C'' (join_workspace_frame (JStr ''w1'')) 0,
            Close ''A''])) (JStr '''') = {''Z''} \<and>
   boardClients (run [Connection ''Z'', Message ''Z'' (join_workspace_frame (JStr '''')) 0,
            Connection ''A'', Message ''A'' (join_workspace_frame (JStr ''w1'')) 0,
            Message ''A'' (join_board_frame (JStr ''b1'')) 0,
            Connection ''C'', Message ''C'' (join_workspace_frame (JStr ''w1'')) 0,
            Close ''A'']) (JStr ''b1'') = None \<and>
   outbox (run [Connection ''Z'', Message ''Z'' (join_workspace_frame (JStr '''')) 0,
            Connection ''A'', Message ''A'' (join_workspace_frame (JStr ''w1'')) 0,
            Message ''A'' (join_board_frame (JStr ''b1'')) 0,
            Connection ''C'', Message ''C'' (join_workspace_frame (JStr ''w1'')) 0,
            Close ''A'']) ''C'' =
     [JObj [(''type'', JStr ''connected''), (''payload'', JObj [(''clientId'', JStr ''C'')])],
      JObj [(''type'', JStr ''workspace_users''), (''payload'', JObj [(''count'', JNum 2)])],
      JObj [(''type'', JStr ''user_left''), (''payload'', JObj [(''workspaceId'', JStr ''w1'')])]] \<and>
   outbox (run [Connection ''Z'', Message ''Z'' (join_workspace_frame (JStr '''')) 0,
            Connection ''A'', Message ''A'' (join_workspace_frame (JStr ''w1'')) 0,
            Message ''A'' (join_board_frame (JStr ''b1'')) 0,
            Connection ''C'', Message ''C'' (join_workspace_frame (JStr ''w1'')) 0,
            Close ''A'']) ''Z'' =
     [JObj [(''type'', JStr ''connected''), (''payload'', JObj [(''clientId'', JStr ''Z'')])],
      JObj [(''type'', JStr ''workspace_users''), (''payload'', JObj [(''count'', JNum 1)])]]"
proof -
  let ?evs = "[Connection ''Z'', Message ''Z'' (join_workspace_frame (JStr '''')) 0,
            Connection ''A'', Message ''A'' (join_workspace_frame (JStr ''w1'')) 0,
            Message ''A'' (join_board_frame (JStr ''b1'')) 0,
            Connection ''C'', Message ''C'' (join_workspace_frame (JStr ''w1'')) 0]"
  let ?st = "run ?evs"
  let ?st' = "run [Connection ''Z'', Message ''Z'' (join_workspace_frame (JStr '''')) 0,
            Connection ''A'', Message ''A'' (join_workspace_frame (JStr ''w1'')) 0,
            Message ''A'' (join_board_frame (JStr ''b1'')) 0,
            Connection ''C'', Message ''C'' (join_workspace_frame (JStr ''w1'')) 0,
            Close ''A'']"
  obtain c where reg: "clients ?st ''A'' = Some c"
    and f: "workspaceId c = JStr ''w1''" "boardId c = JStr ''b1''" "userId c = JUndefined"
    by (simp add: eval_defs)
  have ow: "in_own_room (workspaceClients ?st) (workspaceId c) ''A''"
    unfolding f by (auto simp: in_own_room_def eval_defs split: if_splits)
  have ob: "in_own_room (boardClients ?st) (boardId c) ''A''"
    unfolding f by (auto simp: in_own_room_def eval_defs split: if_splits)
  note t = disconnect_notifies_open_remaining_members[OF reg ow ob, unfolded Let_def f append.simps]
  have s: "members (workspaceClients ?st) (JStr ''w1'') = {''A'', ''C''}"
    "members (workspaceClients ?st) (JStr '''') = {''Z''}"
    "members (boardClients ?st) (JStr ''b1'') = {''A''}"
    "is_open ?st ''C''" "is_open ?st ''Z''"
    "outbox ?st ''C'' =
     [JObj [(''type'', JStr ''connected''), (''payload'', JObj [(''clientId'', JStr ''C'')])],
      JObj [(''type'', JStr ''workspace_users''), (''payload'', JObj [(''count'', JNum 2)])]]"
    "outbox ?st ''Z'' =
     [JObj [(''type'', JStr ''connected''), (''payload'', JObj [(''clientId'', JStr ''Z'')])],
      JObj [(''type'', JStr ''workspace_users''), (''payload'', JObj [(''count'', JNum 1)])]]"
    by (simp_all add: eval_defs)
  note c1 = t[THEN conjunct1]
  note c2 = t[THEN conjunct2, THEN conjunct1, rule_format]
  note c5 = t[THEN conjunct2, THEN conjunct2, THEN conjunct2, THEN conjunct2, THEN conjunct1,
      rule_format]
  note c6 = t[THEN conjunct2, THEN conjunct2, THEN conjunct2, THEN conjunct2, THEN conjunct2,
      rule_format]
  have 1: "clients ?st' ''A'' = None" by (rule c1)
  have 2: "members (workspaceClients ?st') (JStr ''w1'') = {''C''}"
    by (auto simp: c2 s)
  have 3: "members (workspaceClients ?st') (JStr '''') = {''Z''}"
    by (auto simp: c2 s)
  have 4: "boardClients ?st' (JStr ''b1'') = None" by (rule c5) (rule s(3))
  have ne: "''C'' \<noteq> ''A''" "''Z'' \<noteq> ''A''" by simp_all
  have 5: "outbox ?st' ''C'' =
     [JObj [(''type'', JStr ''connected''), (''payload'', JObj [(''clientId'', JStr ''C'')])],
      JObj [(''type'', JStr ''workspace_users''), (''payload'', JObj [(''count'', JNum 2)])],
      JObj [(''type'', JStr ''user_left''), (''payload'', JObj [(''workspaceId'', JStr ''w1'')])]]"
    by (simp add: c6[OF ne(1)] s envelope_def)
  have 6: "outbox ?st' ''Z'' =
     [JObj [(''type'', JStr ''connected''), (''payload'', JObj [(''clientId'', JStr ''Z'')])],
      JObj [(''type'', JStr ''workspace_users''), (''payload'', JObj [(''count'', JNum 1)])]]"
    by (simp add: c6[OF ne(2)] s)
  show ?thesis using 1 2 3 4 5 6 by simp
qed

text \<open>Claim C6 as stated fails: B stays a member of workspace w1 when A disconnects,
  but B's socket is closing, so B is sent no \<open>user_left\<close>.\<close>

theorem disconnect_skips_closing_member:
  "''B'' \<in> members (workspaceClients
       (run [Connection ''A'', Message ''A'' (join_workspace_frame (JStr ''w1'')) 0,
             Connection ''B'', Message ''B'' (join_workspace_frame (JStr ''w1'')) 0,
             Transport ''B'' CLOSING, Close ''A''])) (JStr ''w1'') \<and>
   outbox (run [Connection ''A'', Message ''A'' (join_workspace_frame (JStr ''w1'')) 0,
                Connection ''B'', Message ''B'' (join_workspace_frame (JStr ''w1'')) 0,
                Transport ''B'' CLOSING, Close ''A'']) ''B'' =
     [JObj [(''type'', JStr ''connected''), (''payload'', JObj [(''clientId'', JStr ''B'')])],
      JObj [(''type'', JStr ''workspace_users''), (''payload'', JObj [(''count'', JNum 2)])]]"
  by (simp add: eval_defs)

subsection \<open>Claim C7: unknown types and frames that are not JSON\<close>

text \<open>
  Claim C7. A frame that is not JSON, and a message whose type is none of the six of the
  dispatch, is logged and dropped: the message handler returns the state with one more
  console entry and nothing else changed (no frame is sent, every connection stays
  registered with its socket as it was, the room indexes are the same). Whatever frame
  arrives next, on any connection, is handled as if the dropped one had never arrived:
  the two outcomes differ in the console at most. And a well-formed message that arrives
  next does take effect: a \<open>join_workspace\<close> or \<open>join_board\<close> message is handed to
  its handler, and when it comes from a registered connection, that connection has the
  room in its field, is a member of the room, and has been sent the reply
  \<open>workspace_users\<close> or \<open>board_users\<close> with the size of the room, after the frames
  it had been sent before the dropped frame.
\<close>

theorem unknown_or_malformed_is_dropped:
  assumes "data = Malformed \<or> (\<exists>m. data = Json m \<and> \<not> known_type m)"
  shows "on_message st cid data now = st\<lparr>console := console st @ [drop_log data]\<rparr> \<and>
         clients (on_message st cid data now) = clients st \<and>
         workspaceClients (on_message st cid data now) = workspaceClients st \<and>
         boardClients (on_message st cid data now) = boardClients st \<and>
         (\<forall>cid' data' now'.
            same_core (on_message (on_message st cid data now) cid' data' now')
                      (on_message st cid' data' now')) \<and>
         (\<forall>cid' r now'.
            on_message (on_message st cid data now) cid' (join_workspace_frame r) now' =
              handleJoinWorkspace (on_message st cid data now) cid' r \<and>
            on_message (on_message st cid data now) cid' (join_board_frame r) now' =
              handleJoinBoard (on_message st cid data now) cid' r) \<and>
         (\<forall>cid' c' r now'. clients st cid' = Some c' \<longrightarrow>
            (let st'' = on_message (on_message st cid data now) cid' (join_workspace_frame r) now'
             in map_option workspaceId (clients st'' cid') = Some r \<and>
                cid' \<in> members (workspaceClients st'') r \<and>
                outbox st'' cid' =
                  outbox st cid' @
                    [stringify (envelope ''workspace_users''
                       [(''count'', JNum (of_nat (room_size (workspaceClients st'') r)))])])) \<and>
         (\<forall>cid' c' r now'. clients st cid' = Some c' \<longrightarrow>
            (let st'' = on_message (on_message st cid data now) cid' (join_board_frame r) now'
             in map_option boardId (clients st'' cid') = Some r \<and>
                cid' \<in> members (boardClients st'') r \<and>
                outbox st'' cid' =
                  outbox st cid' @
                    [stringify (envelope ''board_users''
                       [(''count'', JNum (of_nat (room_size (boardClients st'') r)))])]))"
proof -
  define s where "s = on_message st cid data now"
  have d: "s = st\<lparr>console := console st @ [drop_log data]\<rparr>"
    unfolding s_def by (rule dropped_message[OF assms])
  have "same_core s st" by (simp add: d)
  then have sc: "same_core (on_message s cid' data' now') (on_message st cid' data' now')"
    for cid' data' now'
    by (rule on_message_same_core)
  have o: "outbox s = outbox st" by (simp add: d outbox_def fun_eq_iff)
  have w: "map_option workspaceId (clients (handleJoinWorkspace s cid' r) cid') = Some r \<and>
           cid' \<in> members (workspaceClients (handleJoinWorkspace s cid' r)) r \<and>
           outbox (handleJoinWorkspace s cid' r) cid' =
             outbox st cid' @
               [stringify (envelope ''workspace_users''
                  [(''count'', JNum (of_nat (room_size
                      (workspaceClients (handleJoinWorkspace s cid' r)) r)))])]"
    if "clients st cid' = Some c'" for cid' c' r
  proof -
    have reg: "clients s cid' = Some c'" using that by (simp add: d)
    show ?thesis
      using handleJoinWorkspace_joiner[OF reg, of r] by (simp add: o)
  qed
  have b: "map_option boardId (clients (handleJoinBoard s cid' r) cid') = Some r \<and>
           cid' \<in> members (boardClients (handleJoinBoard s cid' r)) r \<and>
           outbox (handleJoinBoard s cid' r) cid' =
             outbox st cid' @
               [stringify (envelope ''board_users''
                  [(''count'', JNum (of_nat (room_size
                      (boardClients (handleJoinBoard s cid' r)) r)))])]"
    if "clients st cid' = Some c'" for cid' c' r
  proof -
    have reg: "clients s cid' = Some c'" using that by (simp add: d)
    show ?thesis
      using handleJoinBoard_joiner[OF reg, of r] by (simp add: o)
  qed
  show ?thesis
    unfolding s_def[symmetric] Let_def on_message_join_workspace on_message_join_board
  proof (intro conjI allI impI)
    show "s = st\<lparr>console := console st @ [drop_log data]\<rparr>" by (rule d)
    show "clients s = clients st" by (simp add: d)
    show "workspaceClients s = workspaceClients st" by (simp add: d)
    show "boardClients s = boardClients st" by (simp add: d)
  next
    fix cid' data' now'
    show "same_core (on_message s cid' data' now') (on_message st cid' data' now')"
      by (rule sc)
  next
    fix cid' r
    show "handleJoinWorkspace s cid' r = handleJoinWorkspace s cid' r" by (rule refl)
    show "handleJoinBoard s cid' r = handleJoinBoard s cid' r" by (rule refl)
  next
    fix cid' c' r assume reg: "clients st cid' = Some c'"
    show "map_option workspaceId (clients (handleJoinWorkspace s cid' r) cid') = Some r"
      by (rule w[OF reg, THEN conjunct1])
    show "cid' \<in> members (workspaceClients (handleJoinWorkspace s cid' r)) r"
      by (rule w[OF reg, THEN conjunct2, THEN conjunct1])
    show "outbox (handleJoinWorkspace s cid' r) cid' =
             outbox st cid' @
               [stringify (envelope ''workspace_users''
                  [(''count'', JNum (of_nat (room_size
                      (workspaceClients (handleJoinWorkspace s cid' r)) r)))])]"
      by (rule w[OF reg, THEN conjunct2, THEN conjunct2])
    show "map_option boardId (clients (handleJoinBoard s cid' r) cid') = Some r"
      by (rule b[OF reg, THEN conjunct1])
    show "cid' \<in> members (boardClients (handleJoinBoard s cid' r)) r"
      by (rule b[OF reg, THEN conjunct2, THEN conjunct1])
    show "outbox (handleJoinBoard s cid' r) cid' =
             outbox st cid' @
               [stringify (envelope ''board_users''
                  [(''count'', JNum (of_nat (room_size
                      (boardClients (handleJoinBoard s cid' r)) r)))])]"
      by (rule b[OF reg, THEN conjunct2, THEN conjunct2])
  qed
qed

text \<open>A frame that is not JSON and a message of the unknown type \<open>ping\<close> each add one
  console entry and nothing else. The \<open>join_workspace\<close> message that follows the
  malformed frame on the same connection is processed: the connection is in room w1 and
  has been sent \<open>workspace_users\<close> with count 1 after its welcome frame.\<close>

theorem unknown_or_malformed_is_dropped_witness:
  "on_message (on_connection init ''a'') ''a'' Malformed 0
     = (on_connection init ''a'')\<lparr>console := [ClientConnected ''a'', InvalidMessageFormat]\<rparr> \<and>
   on_message (on_connection init ''a'') ''a'' (client_frame ''ping'' (JObj [])) 0
     = (on_connection init ''a'')\<lparr>console := [ClientConnected ''a'', UnknownMessageType (JStr ''ping'')]\<rparr> \<and>
   same_core
     (on_message (on_message (on_connection init ''a'') ''a'' Malformed 0) ''a''
        (join_workspace_frame (JStr ''w1'')) 2)
     (on_message (on_connection init ''a'') ''a'' (join_workspace_frame (JStr ''w1'')) 2) \<and>
   map_option workspaceId
     (clients (on_message (on_message (on_connection init ''a'') ''a'' Malformed 0) ''a''
        (join_workspace_frame (JStr ''w1'')) 2) ''a'') = Some (JStr ''w1'') \<and>
   workspaceClients
     (on_message (on_message (on_connection init ''a'') ''a'' Malformed 0) ''a''
        (join_workspace_frame (JStr ''w1'')) 2) (JStr ''w1'') = Some [''a''] \<and>
   outbox
     (on_message (on_message (on_connection init ''a'') ''a'' Malformed 0) ''a''
        (join_workspace_frame (JStr ''w1'')) 2) ''a'' =
     [JObj [(''type'', JStr ''connected''), (''payload'', JObj [(''clientId'', JStr ''a'')])],
      JObj [(''type'', JStr ''workspace_users''), (''payload'', JObj [(''count'', JNum 1)])]]"
proof -
  let ?st = "on_connection init ''a''"
  let ?st'' = "on_message (on_message ?st ''a'' Malformed 0) ''a''
        (join_workspace_frame (JStr ''w1'')) 2"
  have k: "\<not> known_type (JObj [(''type'', JStr ''ping''), (''payload'', JObj [])])"
    by (simp add: known_type_def message_types_def board_event_types_def)
  have 1: "Malformed = Malformed \<or> (\<exists>m. Malformed = Json m \<and> \<not> known_type m)" by simp
  have 2: "client_frame ''ping'' (JObj []) = Malformed \<or>
           (\<exists>m. client_frame ''ping'' (JObj []) = Json m \<and> \<not> known_type m)"
    using k by (simp add: client_frame_def)
  note t1 = unknown_or_malformed_is_dropped[OF 1, of ?st "''a''" 0]
  note t2 = unknown_or_malformed_is_dropped[OF 2, of ?st "''a''" 0]
  obtain c where reg: "clients ?st ''a'' = Some c"
    by (simp add: on_connection_def ws_send_def)
  note j = t1[THEN conjunct2, THEN conjunct2, THEN conjunct2, THEN conjunct2, THEN conjunct2,
      THEN conjunct2, THEN conjunct1, rule_format, OF reg, of "JStr ''w1''" 2, unfolded Let_def]
  have e1: "on_message ?st ''a'' Malformed 0
     = ?st\<lparr>console := [ClientConnected ''a'', InvalidMessageFormat]\<rparr>"
    using t1[THEN conjunct1] by (simp add: drop_log_def on_connection_def init_console)
  have e2: "on_message ?st ''a'' (client_frame ''ping'' (JObj [])) 0
     = ?st\<lparr>console := [ClientConnected ''a'', UnknownMessageType (JStr ''ping'')]\<rparr>"
    using t2[THEN conjunct1]
    by (simp add: drop_log_def client_frame_def on_connection_def init_console)
  have e3: "same_core ?st'' (on_message ?st ''a'' (join_workspace_frame (JStr ''w1'')) 2)"
    by (rule t1[THEN conjunct2, THEN conjunct2, THEN conjunct2, THEN conjunct2,
          THEN conjunct1, rule_format])
  have e4: "map_option workspaceId (clients ?st'' ''a'') = Some (JStr ''w1'')"
    by (rule j[THEN conjunct1])
  have e5: "workspaceClients ?st'' (JStr ''w1'') = Some [''a'']"
    by (simp add: eval_defs)
  have "room_size (workspaceClients ?st'') (JStr ''w1'') = 1"
    by (simp add: room_size_def e5 set_size_def)
  then have e6: "outbox ?st'' ''a'' =
     [JObj [(''type'', JStr ''connected''), (''payload'', JObj [(''clientId'', JStr ''a'')])],
      JObj [(''type'', JStr ''workspace_users''), (''payload'', JObj [(''count'', JNum 1)])]]"
    using j[THEN conjunct2, THEN conjunct2]
    by (simp add: outbox_def on_connection_def init_def ws_send_def envelope_def)
  show ?thesis using e1 e2 e3 e4 e5 e6 by simp
qed

subsection \<open>Claim C8: transport errors\<close>

text \<open>
  Claim C8, as amended. The error handler of a socket logs the error and changes
  nothing else: the connection stays registered and stays in its rooms, and nobody is
  sent anything. The teardown is the close handler's. Let the connection \<open>cid\<close> be
  registered and a member of exactly the rooms that its \<open>workspaceId\<close> and \<open>boardId\<close>
  fields name, a field that is not truthy (unset, or the empty string) naming no room.
  When the close event follows the error, the connection is removed from the registry
  and from the member set of every room, a room whose only member it was is removed
  from its index, and every other connection is sent exactly this: \<open>user_left\<close> if it
  is a member of the leaver's workspace room and its socket is open, and then
  \<open>user_left_board\<close> likewise for the board room.
\<close>

theorem error_only_logs_and_close_tears_down:
  assumes "clients (run evs) cid = Some c"
    and "in_own_room (workspaceClients (run evs)) (workspaceId c) cid"
    and "in_own_room (boardClients (run evs)) (boardId c) cid"
  shows "run (evs @ [Error cid]) =
           (run evs)\<lparr>console := console (run evs) @ [WebSocketError cid]\<rparr> \<and>
         (let st = run evs; st' = run (evs @ [Error cid, Close cid]) in
          console st' = console st @ [WebSocketError cid, ClientDisconnected cid] \<and>
          clients st' cid = None \<and>
          (\<forall>r. members (workspaceClients st') r = members (workspaceClients st) r - {cid}) \<and>
          (\<forall>r. members (boardClients st') r = members (boardClients st) r - {cid}) \<and>
          (\<forall>r. members (workspaceClients st) r = {cid} \<longrightarrow> workspaceClients st' r = None) \<and>
          (\<forall>r. members (boardClients st) r = {cid} \<longrightarrow> boardClients st' r = None) \<and>
          (\<forall>y. y \<noteq> cid \<longrightarrow>
             outbox st' y =
               outbox st y @
                 (if y \<in> members (workspaceClients st) (workspaceId c) \<and>
                     cid \<in> members (workspaceClients st) (workspaceId c) \<and> is_open st y
                  then [stringify (envelope ''user_left''
                          [(''userId'', userId c), (''workspaceId'', workspaceId c)])]
                  else []) @
                 (if y \<in> members (boardClients st) (boardId c) \<and>
                     cid \<in> members (boardClients st) (boardId c) \<and> is_open st y
                  then [stringify (envelope ''user_left_board''
                          [(''userId'', userId c), (''boardId'', boardId c)])]
                  else [])))"
proof -
  define s where "s = run (evs @ [Error cid])"
  have e: "s = (run evs)\<lparr>console := console (run evs) @ [WebSocketError cid]\<rparr>"
    unfolding s_def by (rule run_error[OF assms(1)])
  have same: "workspaceClients s = workspaceClients (run evs)"
    "boardClients s = boardClients (run evs)"
    "outbox s = outbox (run evs)" "is_open s = is_open (run evs)"
    "console s = console (run evs) @ [WebSocketError cid]"
    by (simp_all add: e outbox_def is_open_def fun_eq_iff)
  have reg: "clients s cid = Some c" using assms(1) by (simp add: e)
  have wf: "wf_sets s" unfolding s_def by (rule wf_sets_run)
  have ow: "in_own_room (workspaceClients s) (workspaceId c) cid"
    using assms(2) by (simp add: same)
  have ob: "in_own_room (boardClients s) (boardId c) cid"
    using assms(3) by (simp add: same)
  have "run (evs @ [Error cid, Close cid]) = run ((evs @ [Error cid]) @ [Close cid])"
    by simp
  also have "\<dots> = step s (Close cid)"
    unfolding s_def by (rule run_snoc)
  also have "\<dots> = on_close s cid"
    using reg by (simp add: domI)
  finally have close: "run (evs @ [Error cid, Close cid]) = on_close s cid" .
  note t = on_close_teardown[OF wf reg ow ob, unfolded same]
  show ?thesis
    unfolding Let_def close
  proof (intro conjI allI impI)
    show "run (evs @ [Error cid]) =
            (run evs)\<lparr>console := console (run evs) @ [WebSocketError cid]\<rparr>"
      using e by (simp add: s_def)
    show "console (on_close s cid) =
            console (run evs) @ [WebSocketError cid, ClientDisconnected cid]"
      using t(1) by simp
    show "clients (on_close s cid) cid = None" by (rule t(2))
  next
    fix r
    show "members (workspaceClients (on_close s cid)) r =
            members (workspaceClients (run evs)) r - {cid}"
      by (rule t(3))
    show "members (boardClients (on_close s cid)) r =
            members (boardClients (run evs)) r - {cid}"
      by (rule t(4))
  next
    fix r assume "members (workspaceClients (run evs)) r = {cid}"
    then show "workspaceClients (on_close s cid) r = None" by (rule t(5))
  next
    fix r assume "members (boardClients (run evs)) r = {cid}"
    then show "boardClients (on_close s cid) r = None" by (rule t(6))
  next
    fix y assume "y \<noteq> cid"
    then show "outbox (on_close s cid) y =
              outbox (run evs) y @
                (if y \<in> members (workspaceClients (run evs)) (workspaceId c) \<and>
                    cid \<in> members (workspaceClients (run evs)) (workspaceId c) \<and>
                    is_open (run evs) y
                 then [stringify (envelope ''user_left''
                         [(''userId'', userId c), (''workspaceId'', workspaceId c)])]
                 else []) @
                (if y \<in> members (boardClients (run evs)) (boardId c) \<and>
                    cid \<in> members (boardClients (run evs)) (boardId c) \<and>
                    is_open (run evs) y
                 then [stringify (envelope ''user_left_board''
                         [(''userId'', userId c), (''boardId'', boardId c)])]
                 else [])"
      by (rule t(7))
  qed
qed

text \<open>A and B are in workspace w1 and A is alone on board b1. After A's error event A is
  still registered, still a member of w1, and B has been sent nothing new. After the
  close event that follows, A is gone from the registry and from w1, board b1 is
  removed, and B, whose socket is open, has been sent \<open>user_left\<close>.\<close>

theorem error_only_logs_and_close_tears_down_witness:
  "map_option workspaceId (clients (run [Connection ''A'', Message ''A'' (join_workspace_frame (JStr ''w1'')) 0,
            Message ''A'' (join_board_frame (JStr ''b1'')) 0,
            Connection ''B'', Message ''B'' (join_workspace_frame (JStr ''w1'')) 0,
            Error ''A'']) ''A'') = Some (JStr ''w1'') \<and>
   members (workspaceClients (run [Connection ''A'', Message ''A'' (join_workspace_frame (JStr ''w1'')) 0,
            Message ''A'' (join_board_frame (JStr ''b1'')) 0,
            Connection ''B'', Message ''B'' (join_workspace_frame (JStr ''w1'')) 0,
            Error ''A''])) (JStr ''w1'') = {''A'', ''B''} \<and>
   outbox (run [Connection ''A'', Message ''A'' (join_workspace_frame (JStr ''w1'')) 0,
            Message ''A'' (join_board_frame (JStr ''b1'')) 0,
            Connection ''B'', Message ''B'' (join_workspace_frame (JStr ''w1'')) 0,
            Error ''A'']) ''B'' =
     [JObj [(''type'', JStr ''connected''), (''payload'', JObj [(''clientId'', JStr ''B'')])],
      JObj [(''type'', JStr ''workspace_users''), (''payload'', JObj [(''count'', JNum 2)])]] \<and>
   console (run [Connection ''A'', Message ''A'' (join_workspace_frame (JStr ''w1'')) 0,
            Message ''A'' (join_board_frame (JStr ''b1'')) 0,
            Connection ''B'', Message ''B'' (join_workspace_frame (JStr ''w1'')) 0,
            Error ''A'', Close ''A'']) =
     [ClientConnected ''A'', ClientConnected ''B'', WebSocketError ''A'',
      ClientDisconnected ''A''] \<and>
   clients (run [Connection ''A'', Message ''A'' (join_workspace_frame (JStr ''w1'')) 0,
            Message ''A'' (join_board_frame (JStr ''b1'')) 0,
            Connection ''B'', Message ''B'' (join_workspace_frame (JStr ''w1'')) 0,
            Error ''A'', Close ''A'']) ''A'' = None \<and>
   members (workspaceClients (run [Connection ''A'', Message ''A'' (join_workspace_frame (JStr ''w1'')) 0,
            Message ''A'' (join_board_frame (JStr ''b1'')) 0,
            Connection ''B'', Message ''B'' (join_workspace_frame (JStr ''w1'')) 0,
            Error ''A'', Close ''A''])) (JStr ''w1'') = {''B''} \<and>
   boardClients (run [Connection ''A'', Message ''A'' (join_workspace_frame (JStr ''w1'')) 0,
            Message ''A'' (join_board_frame (JStr ''b1'')) 0,
            Connection ''B'', Message ''B'' (join_workspace_frame (JStr ''w1'')) 0,
            Error ''A'', Close ''A'']) (JStr ''b1'') = None \<and>
   outbox (run [Connection ''A'', Message ''A'' (join_workspace_frame (JStr ''w1'')) 0,
            Message ''A'' (join_board_frame (JStr ''b1'')) 0,
            Connection ''B'', Message ''B'' (join_workspace_frame (JStr ''w1'')) 0,
            Error ''A'', Close ''A'']) ''B'' =
     [JObj [(''type'', JStr ''connected''), (''payload'', JObj [(''clientId'', JStr ''B'')])],
      JObj [(''type'', JStr ''workspace_users''), (''payload'', JObj [(''count'', JNum 2)])],
      JObj [(''type'', JStr ''user_left''), (''payload'', JObj [(''workspaceId'', JStr ''w1'')])]]"
proof -
  let ?evs = "[Connection ''A'', Message ''A'' (join_workspace_frame (JStr ''w1'')) 0,
            Message ''A'' (join_board_frame (JStr ''b1'')) 0,
            Connection ''B'', Message ''B'' (join_workspace_frame (JStr ''w1'')) 0]"
  let ?st = "run ?evs"
  let ?ste = "run [Connection ''A'', Message ''A'' (join_workspace_frame (JStr ''w1'')) 0,
            Message ''A'' (join_board_frame (JStr ''b1'')) 0,
            Connection ''B'', Message ''B'' (join_workspace_frame (JStr ''w1'')) 0,
            Error ''A'']"
  let ?stc = "run [Connection ''A'', Message ''A'' (join_workspace_frame (JStr ''w1'')) 0,
            Message ''A'' (join_board_frame (JStr ''b1'')) 0,
            Connection ''B'', Message ''B'' (join_workspace_frame (JStr ''w1'')) 0,
            Error ''A'', Close ''A'']"
  have "\<forall>ev\<in>set ?evs. truthy_join ev"
    by (simp add: join_target_def join_workspace_frame_def join_board_frame_def client_frame_def)
  then have i: "rooms_agree ?st" by (rule rooms_agree_run)
  obtain c where reg: "clients ?st ''A'' = Some c"
    and f: "workspaceId c = JStr ''w1''" "boardId c = JStr ''b1''" "userId c = JUndefined"
    by (simp add: eval_defs)
  note t = error_only_logs_and_close_tears_down[OF reg rooms_agree_in_own_room[OF i reg],
      unfolded Let_def f append.simps]
  have s: "members (workspaceClients ?st) (JStr ''w1'') = {''A'', ''B''}"
    "members (boardClients ?st) (JStr ''b1'') = {''A''}"
    "is_open ?st ''B''"
    "console ?st = [ClientConnected ''A'', ClientConnected ''B'']"
    "map_option workspaceId (clients ?st ''A'') = Some (JStr ''w1'')"
    "outbox ?st ''B'' =
     [JObj [(''type'', JStr ''connected''), (''payload'', JObj [(''clientId'', JStr ''B'')])],
      JObj [(''type'', JStr ''workspace_users''), (''payload'', JObj [(''count'', JNum 2)])]]"
    by (simp_all add: eval_defs)
  note c1 = t[THEN conjunct1]
  note u = t[THEN conjunct2]
  note d1 = u[THEN conjunct1]
  note d2 = u[THEN conjunct2, THEN conjunct1]
  note d3 = u[THEN conjunct2, THEN conjunct2, THEN conjunct1, rule_format]
  note d6 = u[THEN conjunct2, THEN conjunct2, THEN conjunct2, THEN conjunct2, THEN conjunct2,
      THEN conjunct1, rule_format]
  note d7 = u[THEN conjunct2, THEN conjunct2, THEN conjunct2, THEN conjunct2, THEN conjunct2,
      THEN conjunct2, rule_format]
  have 1: "map_option workspaceId (clients ?ste ''A'') = Some (JStr ''w1'')"
    by (simp add: c1 s)
  have 2: "members (workspaceClients ?ste) (JStr ''w1'') = {''A'', ''B''}"
    by (simp add: c1 s)
  have 3: "outbox ?ste ''B'' =
     [JObj [(''type'', JStr ''connected''), (''payload'', JObj [(''clientId'', JStr ''B'')])],
      JObj [(''type'', JStr ''workspace_users''), (''payload'', JObj [(''count'', JNum 2)])]]"
    using s(6) by (simp add: c1 outbox_def)
  have 4: "console ?stc =
     [ClientConnected ''A'', ClientConnected ''B'', WebSocketError ''A'',
      ClientDisconnected ''A'']"
    by (simp add: d1 s)
  have 5: "clients ?stc ''A'' = None" by (rule d2)
  have 6: "members (workspaceClients ?stc) (JStr ''w1'') = {''B''}"
    by (auto simp: d3 s)
  have 7: "boardClients ?stc (JStr ''b1'') = None" by (rule d6) (rule s(2))
  have ne: "''B'' \<noteq> ''A''" by simp
  have 8: "outbox ?stc ''B'' =
     [JObj [(''type'', JStr ''connected''), (''payload'', JObj [(''clientId'', JStr ''B'')])],
      JObj [(''type'', JStr ''workspace_users''), (''payload'', JObj [(''count'', JNum 2)])],
      JObj [(''type'', JStr ''user_left''), (''payload'', JObj [(''workspaceId'', JStr ''w1'')])]]"
    by (simp add: d7[OF ne] s envelope_def)
  show ?thesis using 1 2 3 4 5 6 7 8 by simp
qed

text \<open>Claim C8 as stated fails: after the error event alone, A is still registered and
  still a member of workspace w1.\<close>

theorem error_alone_keeps_connection:
  "map_option workspaceId
     (clients (run [Connection ''A'', Message ''A'' (join_workspace_frame (JStr ''w1'')) 0,
                    Error ''A'']) ''A'') = Some (JStr ''w1'') \<and>
   workspaceClients (run [Connection ''A'', Message ''A'' (join_workspace_frame (JStr ''w1'')) 0,
                          Error ''A'']) (JStr ''w1'') = Some [''A''] \<and>
   console (run [Connection ''A'', Message ''A'' (join_workspace_frame (JStr ''w1'')) 0,
                 Error ''A'']) = [ClientConnected ''A'', WebSocketError ''A'']"
  by (simp add: eval_defs)

subsection \<open>Claim C9: what a join sends\<close>

text \<open>
  Claim C9, as amended. A join of room \<open>r\<close> by the registered connection \<open>cid\<close> appends
  one frame to the joiner's socket, \<open>workspace_users\<close> (\<open>board_users\<close>) with the number of
  members the room has after the join, and one frame, \<open>user_joined\<close>
  (\<open>user_joined_board\<close>) with the joiner's \<open>userId\<close> and the room id, to every other
  member of the room whose socket is open. A member whose socket is not open gets
  nothing, and neither does any connection outside the room. The hypothesis that the
  member lists have no duplicates holds in every state the relay reaches
  (lemma \<open>wf_sets_run\<close>).
\<close>

theorem join_notifies_open_members:
  assumes "wf_sets st" and "clients st cid = Some c"
  shows "(\<forall>y. outbox (handleJoinWorkspace st cid r) y =
            outbox st y @
              (if y = cid
               then [stringify (envelope ''workspace_users''
                       [(''count'', JNum (of_nat (card (members
                          (workspaceClients (handleJoinWorkspace st cid r)) r))))])]
               else if y \<in> members (workspaceClients (handleJoinWorkspace st cid r)) r \<and>
                       is_open st y
               then [stringify (envelope ''user_joined''
                       [(''userId'', userId c), (''workspaceId'', r)])]
               else [])) \<and>
         (\<forall>y. outbox (handleJoinBoard st cid r) y =
            outbox st y @
              (if y = cid
               then [stringify (envelope ''board_users''
                       [(''count'', JNum (of_nat (card (members
                          (boardClients (handleJoinBoard st cid r)) r))))])]
               else if y \<in> members (boardClients (handleJoinBoard st cid r)) r \<and>
                       is_open st y
               then [stringify (envelope ''user_joined_board''
                       [(''userId'', userId c), (''boardId'', r)])]
               else [])) \<and>
         cid \<in> members (workspaceClients (handleJoinWorkspace st cid r)) r \<and>
         cid \<in> members (boardClients (handleJoinBoard st cid r)) r"
proof (intro conjI allI)
  fix y
  show "outbox (handleJoinWorkspace st cid r) y =
            outbox st y @
              (if y = cid
               then [stringify (envelope ''workspace_users''
                       [(''count'', JNum (of_nat (card (members
                          (workspaceClients (handleJoinWorkspace st cid r)) r))))])]
               else if y \<in> members (workspaceClients (handleJoinWorkspace st cid r)) r \<and>
                       is_open st y
               then [stringify (envelope ''user_joined''
                       [(''userId'', userId c), (''workspaceId'', r)])]
               else [])"
    by (rule handleJoinWorkspace_outbox[OF assms])
  show "outbox (handleJoinBoard st cid r) y =
            outbox st y @
              (if y = cid
               then [stringify (envelope ''board_users''
                       [(''count'', JNum (of_nat (card (members
                          (boardClients (handleJoinBoard st cid r)) r))))])]
               else if y \<in> members (boardClients (handleJoinBoard st cid r)) r \<and>
                       is_open st y
               then [stringify (envelope ''user_joined_board''
                       [(''userId'', userId c), (''boardId'', r)])]
               else [])"
    by (rule handleJoinBoard_outbox[OF assms])
next
  show "cid \<in> members (workspaceClients (handleJoinWorkspace st cid r)) r"
    by (simp add: handleJoinWorkspace_index[OF assms(2)] members_enter)
  show "cid \<in> members (boardClients (handleJoinBoard st cid r)) r"
    by (simp add: handleJoinBoard_index[OF assms(2)] members_enter)
qed

text \<open>The scenario of the specification: A joins workspace w1 alone and is told there is
  one user; B joins and is told there are two, and A is told that a user joined.\<close>

theorem join_notifies_open_members_witness:
  "outbox (run [Connection ''A'', Message ''A'' (join_workspace_frame (JStr ''w1'')) 0]) ''A'' =
     [JObj [(''type'', JStr ''connected''), (''payload'', JObj [(''clientId'', JStr ''A'')])],
      JObj [(''type'', JStr ''workspace_users''), (''payload'', JObj [(''count'', JNum 1)])]] \<and>
   outbox (handleJoinWorkspace
             (run [Connection ''A'', Message ''A'' (join_workspace_frame (JStr ''w1'')) 0,
                   Connection ''B''])
             ''B'' (JStr ''w1'')) ''B'' =
     [JObj [(''type'', JStr ''connected''), (''payload'', JObj [(''clientId'', JStr ''B'')])],
      JObj [(''type'', JStr ''workspace_users''), (''payload'', JObj [(''count'', JNum 2)])]] \<and>
   outbox (handleJoinWorkspace
             (run [Connection ''A'', Message ''A'' (join_workspace_frame (JStr ''w1'')) 0,
                   Connection ''B''])
             ''B'' (JStr ''w1'')) ''A'' =
     [JObj [(''type'', JStr ''connected''), (''payload'', JObj [(''clientId'', JStr ''A'')])],
      JObj [(''type'', JStr ''workspace_users''), (''payload'', JObj [(''count'', JNum 1)])],
      JObj [(''type'', JStr ''user_joined''), (''payload'', JObj [(''workspaceId'', JStr ''w1'')])]]"
proof -
  let ?st = "run [Connection ''A'', Message ''A'' (join_workspace_frame (JStr ''w1'')) 0,
                  Connection ''B'']"
  have reg: "clients ?st ''B'' =
      Some \<lparr>ws = \<lparr>readyState = OPEN,
               sent = [stringify (envelope ''connected'' [(''clientId'', JStr ''B'')])]\<rparr>,
           userId = JUndefined, workspaceId = JUndefined, boardId = JUndefined\<rparr>"
    by (simp add: eval_defs)
  note t = join_notifies_open_members[OF wf_sets_run reg, of "JStr ''w1''"]
  have idx: "workspaceClients (handleJoinWorkspace ?st ''B'' (JStr ''w1'')) (JStr ''w1'')
               = Some [''A'', ''B'']"
    by (simp add: eval_defs)
  have m: "members (workspaceClients (handleJoinWorkspace ?st ''B'' (JStr ''w1''))) (JStr ''w1'')
             = {''A'', ''B''}"
    by (simp add: members_def idx)
  have a: "outbox ?st ''A'' =
     [JObj [(''type'', JStr ''connected''), (''payload'', JObj [(''clientId'', JStr ''A'')])],
      JObj [(''type'', JStr ''workspace_users''), (''payload'', JObj [(''count'', JNum 1)])]]"
    "is_open ?st ''A''"
    by (simp_all add: eval_defs)
  have b: "outbox ?st ''B'' =
     [JObj [(''type'', JStr ''connected''), (''payload'', JObj [(''clientId'', JStr ''B'')])]]"
    by (simp add: eval_defs)
  have 1: "outbox (run [Connection ''A'', Message ''A'' (join_workspace_frame (JStr ''w1'')) 0]) ''A'' =
     [JObj [(''type'', JStr ''connected''), (''payload'', JObj [(''clientId'', JStr ''A'')])],
      JObj [(''type'', JStr ''workspace_users''), (''payload'', JObj [(''count'', JNum 1)])]]"
    by (simp add: eval_defs)
  from t have 2: "outbox (handleJoinWorkspace ?st ''B'' (JStr ''w1'')) ''B'' =
     [JObj [(''type'', JStr ''connected''), (''payload'', JObj [(''clientId'', JStr ''B'')])],
      JObj [(''type'', JStr ''workspace_users''), (''payload'', JObj [(''count'', JNum 2)])]]"
    by (simp add: m b envelope_def)
  from t have 3: "outbox (handleJoinWorkspace ?st ''B'' (JStr ''w1'')) ''A'' =
     [JObj [(''type'', JStr ''connected''), (''payload'', JObj [(''clientId'', JStr ''A'')])],
      JObj [(''type'', JStr ''workspace_users''), (''payload'', JObj [(''count'', JNum 1)])],
      JObj [(''type'', JStr ''user_joined''), (''payload'', JObj [(''workspaceId'', JStr ''w1'')])]]"
    by (simp add: m a envelope_def)
  show ?thesis using 1 2 3 by blast
qed

text \<open>Claim C9 as stated fails: A is a member of workspace w1 when B joins it, but A's
  socket is closing, so A is sent no \<open>user_joined\<close>.\<close>

theorem join_skips_closing_member:
  "''A'' \<in> members (workspaceClients
       (run [Connection ''A'', Message ''A'' (join_workspace_frame (JStr ''w1'')) 0,
             Connection ''B'', Transport ''A'' CLOSING,
             Message ''B'' (join_workspace_frame (JStr ''w1'')) 0])) (JStr ''w1'') \<and>
   outbox (run [Connection ''A'', Message ''A'' (join_workspace_frame (JStr ''w1'')) 0,
                Connection ''B'', Transport ''A'' CLOSING,
                Message ''B'' (join_workspace_frame (JStr ''w1'')) 0]) ''A'' =
     [JObj [(''type'', JStr ''connected''), (''payload'', JObj [(''clientId'', JStr ''A'')])],
      JObj [(''type'', JStr ''workspace_users''), (''payload'', JObj [(''count'', JNum 1)])]]"
  by (simp add: eval_defs)

subsection \<open>Claim C10: the user id is never set\<close>

text \<open>
  Claim C10, as amended. No handler assigns \<open>userId\<close>: in every state the relay reaches
  it is undefined for every registered connection. So, in every frame the relay has
  sent, \<open>card_moved\<close> has no \<open>movedBy\<close>, \<open>card_created\<close> has no \<open>createdBy\<close>, and
  \<open>user_joined\<close>, \<open>user_joined_board\<close>, \<open>user_left\<close> and \<open>user_left_board\<close> have no
  \<open>userId\<close>; a \<open>user_typing\<close> or \<open>cursor_move\<close> frame has none either as long as no
  inbound payload of these two types had a \<open>userId\<close> property of its own. And message by
  message, whatever came before: when a \<open>user_typing\<close> or \<open>cursor_move\<close> message
  arrives from a registered connection, one frame of that type goes to every other
  member of its board whose socket is open (to nobody if its board field is not truthy),
  and the payload of that frame is the inbound payload, property for property. So the
  frame has a \<open>userId\<close> exactly when the inbound payload itself has one, and that value
  is what is sent.
\<close>

theorem userId_never_assigned:
  assumes "clients (run evs) cid = Some c"
  shows "userId c = JUndefined \<and>
         (\<forall>f\<in>set (sent (ws c)).
            relay_identity_absent f \<and>
            ((\<forall>ev\<in>set evs. \<not> supplies_userId ev) \<longrightarrow> sender_identity_absent f)) \<and>
         (\<forall>p now y.
            outbox (run (evs @ [Message cid (client_frame ''user_typing'' p) now])) y =
              outbox (run evs) y @
                (if truthy (boardId c) \<and> y \<noteq> cid \<and>
                    y \<in> members (boardClients (run evs)) (boardId c) \<and> is_open (run evs) y
                 then [stringify (envelope ''user_typing'' (spread p [(''userId'', userId c)]))]
                 else [])) \<and>
         (\<forall>p now y.
            outbox (run (evs @ [Message cid (client_frame ''cursor_move'' p) now])) y =
              outbox (run evs) y @
                (if truthy (boardId c) \<and> y \<noteq> cid \<and>
                    y \<in> members (boardClients (run evs)) (boardId c) \<and> is_open (run evs) y
                 then [stringify (envelope ''cursor_move'' (spread p [(''userId'', userId c)]))]
                 else [])) \<and>
         (\<forall>t p k.
            payload_field (stringify (envelope t (spread p [(''userId'', userId c)]))) k =
              stringify (own_prop p k)) \<and>
         (\<forall>t p.
            (''userId'' \<in> payload_keys
                (stringify (envelope t (spread p [(''userId'', userId c)])))) =
              (own_prop p ''userId'' \<noteq> JUndefined)) \<and>
         (\<forall>p.
            sender_identity_absent
                (stringify (envelope ''user_typing'' (spread p [(''userId'', userId c)]))) =
              (own_prop p ''userId'' = JUndefined) \<and>
            sender_identity_absent
                (stringify (envelope ''cursor_move'' (spread p [(''userId'', userId c)]))) =
              (own_prop p ''userId'' = JUndefined))"
proof -
  have a: "userId c = JUndefined \<and>
         (\<forall>f\<in>set (sent (ws c)).
            relay_identity_absent f \<and>
            ((\<forall>ev\<in>set evs. \<not> supplies_userId ev) \<longrightarrow> sender_identity_absent f))"
    using anonymous_run[of evs] assms
    unfolding anonymous_def frame_ok_def by blast
  then have u: "userId c = JUndefined" by (rule conjunct1)
  note o = sender_event_outbox[OF wf_sets_run assms]
  show ?thesis
    unfolding run_sender[OF assms]
  proof (intro conjI allI)
    show "userId c = JUndefined" by (rule u)
    show "\<forall>f\<in>set (sent (ws c)).
            relay_identity_absent f \<and>
            ((\<forall>ev\<in>set evs. \<not> supplies_userId ev) \<longrightarrow> sender_identity_absent f)"
      by (rule a[THEN conjunct2])
  next
    fix p y
    show "outbox (handleUserTyping (run evs) cid p) y =
              outbox (run evs) y @
                (if truthy (boardId c) \<and> y \<noteq> cid \<and>
                    y \<in> members (boardClients (run evs)) (boardId c) \<and> is_open (run evs) y
                 then [stringify (envelope ''user_typing'' (spread p [(''userId'', userId c)]))]
                 else [])"
      by (rule o(1))
    show "outbox (handleCursorMove (run evs) cid p) y =
              outbox (run evs) y @
                (if truthy (boardId c) \<and> y \<noteq> cid \<and>
                    y \<in> members (boardClients (run evs)) (boardId c) \<and> is_open (run evs) y
                 then [stringify (envelope ''cursor_move'' (spread p [(''userId'', userId c)]))]
                 else [])"
      by (rule o(2))
  next
    fix t p k
    show "payload_field (stringify (envelope t (spread p [(''userId'', userId c)]))) k =
              stringify (own_prop p k)"
      unfolding u by (rule sender_frame_field)
    show "(''userId'' \<in> payload_keys
                (stringify (envelope t (spread p [(''userId'', userId c)])))) =
              (own_prop p ''userId'' \<noteq> JUndefined)"
      unfolding u by (rule sender_frame_keys)
  next
    fix p
    show "sender_identity_absent
                (stringify (envelope ''user_typing'' (spread p [(''userId'', userId c)]))) =
              (own_prop p ''userId'' = JUndefined)"
      unfolding u by (rule sender_identity_absent_frame) simp
    show "sender_identity_absent
                (stringify (envelope ''cursor_move'' (spread p [(''userId'', userId c)]))) =
              (own_prop p ''userId'' = JUndefined)"
      unfolding u by (rule sender_identity_absent_frame) simp
  qed
qed

text \<open>A and B are on board b1. A sends a \<open>user_typing\<close> message whose payload has a
  \<open>userId\<close> of its own, and then a \<open>cursor_move\<close> message whose payload has none. A's
  \<open>userId\<close> field stays undefined; B is sent the first frame with the \<open>userId\<close> that the
  payload had, and the second frame without a \<open>userId\<close>.\<close>

theorem userId_never_assigned_witness:
  "map_option userId (clients (run [Connection ''A'', Message ''A'' (join_board_frame (JStr ''b1'')) 0,
            Connection ''B'', Message ''B'' (join_board_frame (JStr ''b1'')) 0,
            Message ''A'' (client_frame ''user_typing''
               (JObj [(''userId'', JStr ''mallory'')])) 5]) ''A'') = Some JUndefined \<and>
   outbox (run [Connection ''A'', Message ''A'' (join_board_frame (JStr ''b1'')) 0,
            Connection ''B'', Message ''B'' (join_board_frame (JStr ''b1'')) 0,
            Message ''A'' (client_frame ''user_typing''
               (JObj [(''userId'', JStr ''mallory'')])) 5,
            Message ''A'' (client_frame ''cursor_move'' (JObj [(''x'', JNum 3)])) 7]) ''B'' =
     [JObj [(''type'', JStr ''connected''), (''payload'', JObj [(''clientId'', JStr ''B'')])],
      JObj [(''type'', JStr ''board_users''), (''payload'', JObj [(''count'', JNum 2)])],
      JObj [(''type'', JStr ''user_typing''), (''payload'', JObj [(''userId'', JStr ''mallory'')])],
      JObj [(''type'', JStr ''cursor_move''), (''payload'', JObj [(''x'', JNum 3)])]] \<and>
   ''userId'' \<notin> payload_keys
     (JObj [(''type'', JStr ''cursor_move''), (''payload'', JObj [(''x'', JNum 3)])]) \<and>
   sender_identity_absent
     (JObj [(''type'', JStr ''cursor_move''), (''payload'', JObj [(''x'', JNum 3)])]) \<and>
   payload_field
     (JObj [(''type'', JStr ''user_typing''), (''payload'', JObj [(''userId'', JStr ''mallory'')])])
     ''userId'' = JStr ''mallory'' \<and>
   relay_identity_absent
     (JObj [(''type'', JStr ''user_typing''), (''payload'', JObj [(''userId'', JStr ''mallory'')])])"
proof -
  let ?evs = "[Connection ''A'', Message ''A'' (join_board_frame (JStr ''b1'')) 0,
            Connection ''B'', Message ''B'' (join_board_frame (JStr ''b1'')) 0,
            Message ''A'' (client_frame ''user_typing''
               (JObj [(''userId'', JStr ''mallory'')])) 5]"
  let ?st = "run ?evs"
  let ?p = "JObj [(''x'', JNum 3)]"
  let ?q = "JObj [(''userId'', JStr ''mallory'')]"
  let ?typing = "JObj [(''type'', JStr ''user_typing''),
                       (''payload'', JObj [(''userId'', JStr ''mallory'')])]"
  let ?cursor = "JObj [(''type'', JStr ''cursor_move''), (''payload'', JObj [(''x'', JNum 3)])]"
  obtain c where reg: "clients ?st ''A'' = Some c"
    and f: "boardId c = JStr ''b1''"
    by (simp add: eval_defs)
  obtain d where regB: "clients ?st ''B'' = Some d"
    and g: "?typing \<in> set (sent (ws d))"
    by (simp add: eval_defs)
  note t = userId_never_assigned[OF reg, unfolded append.simps]
  note tB = userId_never_assigned[OF regB]
  note u = t[THEN conjunct1]
  note c4 = t[THEN conjunct2, THEN conjunct2, THEN conjunct2, THEN conjunct1, rule_format,
      of ?p 7 "''B''", unfolded u f]
  note c5 = t[THEN conjunct2, THEN conjunct2, THEN conjunct2, THEN conjunct2, THEN conjunct1,
      rule_format, unfolded u]
  note c6 = t[THEN conjunct2, THEN conjunct2, THEN conjunct2, THEN conjunct2, THEN conjunct2,
      THEN conjunct1, rule_format, unfolded u]
  note c7 = t[THEN conjunct2, THEN conjunct2, THEN conjunct2, THEN conjunct2, THEN conjunct2,
      THEN conjunct2, rule_format, unfolded u]
  have s: "members (boardClients ?st) (JStr ''b1'') = {''A'', ''B''}"
    "is_open ?st ''B''"
    "outbox ?st ''B'' =
     [JObj [(''type'', JStr ''connected''), (''payload'', JObj [(''clientId'', JStr ''B'')])],
      JObj [(''type'', JStr ''board_users''), (''payload'', JObj [(''count'', JNum 2)])],
      ?typing]"
    by (simp_all add: eval_defs)
  have fr: "stringify (envelope ''cursor_move'' (spread ?p [(''userId'', JUndefined)])) = ?cursor"
    "stringify (envelope ''user_typing'' (spread ?q [(''userId'', JUndefined)])) = ?typing"
    by (simp_all add: envelope_def spread_def obj_set_def)
  have op: "own_prop ?p ''userId'' = JUndefined" "own_prop ?q ''userId'' = JStr ''mallory''"
    by (simp_all add: own_prop_def)
  have 1: "map_option userId (clients ?st ''A'') = Some JUndefined"
    using reg u by simp
  have 2: "outbox (run [Connection ''A'', Message ''A'' (join_board_frame (JStr ''b1'')) 0,
            Connection ''B'', Message ''B'' (join_board_frame (JStr ''b1'')) 0,
            Message ''A'' (client_frame ''user_typing''
               (JObj [(''userId'', JStr ''mallory'')])) 5,
            Message ''A'' (client_frame ''cursor_move'' (JObj [(''x'', JNum 3)])) 7]) ''B'' =
     [JObj [(''type'', JStr ''connected''), (''payload'', JObj [(''clientId'', JStr ''B'')])],
      JObj [(''type'', JStr ''board_users''), (''payload'', JObj [(''count'', JNum 2)])],
      ?typing, ?cursor]"
    unfolding c4 fr by (simp add: s)
  have 3: "''userId'' \<notin> payload_keys ?cursor"
    using c6[of "''cursor_move''" ?p] unfolding fr op by simp
  have 4: "sender_identity_absent ?cursor"
    using c7[of ?p, THEN conjunct2] unfolding fr op by simp
  have 5: "payload_field ?typing ''userId'' = JStr ''mallory''"
    using c5[of "''user_typing''" ?q "''userId''"] unfolding fr op by simp
  have 6: "relay_identity_absent ?typing"
    using tB[THEN conjunct2, THEN conjunct1] g by blast
  show ?thesis using 1 2 3 4 5 6 by simp
qed

text \<open>Claim C10 as stated fails for \<open>user_typing\<close>: the payload is spread after the
  relay's own \<open>userId\<close> field, so a \<open>userId\<close> that the sender puts in the payload is what B
  is sent.\<close>

theorem typing_payload_sets_userId:
  "outbox (run [Connection ''A'', Message ''A'' (join_board_frame (JStr ''b1'')) 0,
                Connection ''B'', Message ''B'' (join_board_frame (JStr ''b1'')) 0,
                Message ''A'' (client_frame ''user_typing''
                   (JObj [(''userId'', JStr ''mallory'')])) 5]) ''B'' =
     [JObj [(''type'', JStr ''connected''), (''payload'', JObj [(''clientId'', JStr ''B'')])],
      JObj [(''type'', JStr ''board_users''), (''payload'', JObj [(''count'', JNum 2)])],
      JObj [(''type'', JStr ''user_typing''), (''payload'', JObj [(''userId'', JStr ''mallory'')])]]"
  by (simp add: eval_defs)

end
